(* ===== verification/Prelude.thy ===== *)
theory Prelude
  imports Main "HOL-Library.Word"
begin

text \<open>
  Shared vocabulary of the development: the machine integer types, the outcome type in which
  every operation of the server returns, sequencing of steps, an invariant calculus for
  sequences of steps, the C idioms the sources rely on, and the byte-order lemmas that the
  CAN frames and the network packets share.
\<close>

unbundle bit_operations_syntax

section \<open>Machine integers\<close>

type_synonym u8 = "8 word"
type_synonym u16 = "16 word"
type_synonym u32 = "32 word"
type_synonym u64 = "64 word"

section \<open>Outcomes\<close>

text \<open>
  A call of the C++ program returns, or ends the process (\<^verbatim>\<open>exit\<close>, a failed \<^verbatim>\<open>assert\<close>), or
  leaves the language (an out-of-bounds access, a read of an indeterminate value, a use of
  freed memory or of a null pointer, a value that is not representable, a function that ends without
  returning its value).
\<close>

datatype ub =
    Out_of_bounds
  | Indeterminate_read
  | Use_after_free
  | Null_dereference
  | Unrepresentable
  | Missing_return

datatype stop =
    Exit int
  | Assert_failed
  | Undefined_behaviour ub

type_synonym 'a outcome = "stop + 'a"
type_synonym 's action = "'s \<Rightarrow> 's outcome"

definition bind_outcome :: "'a outcome \<Rightarrow> ('a \<Rightarrow> 'b outcome) \<Rightarrow> 'b outcome" where
  "bind_outcome r f = (case r of Inl e \<Rightarrow> Inl e | Inr x \<Rightarrow> f x)"

text \<open>Sequential composition of the statements of a function body.\<close>

primrec run_steps :: "'s action list \<Rightarrow> 's action" where
  "run_steps [] s = Inr s"
| "run_steps (f # fs) s = bind_outcome (f s) (run_steps fs)"

text \<open>\<^verbatim>\<open>if(c) f;\<close> without an \<^verbatim>\<open>else\<close>.\<close>

definition when_step :: "bool \<Rightarrow> 's action \<Rightarrow> 's action" where
  "when_step c f s = (if c then f s else Inr s)"

text \<open>An \<^verbatim>\<open>assert\<close> of the source (compiled in: the build sets no \<^verbatim>\<open>NDEBUG\<close>).\<close>

definition assert_step :: "('s \<Rightarrow> bool) \<Rightarrow> 's action" where
  "assert_step c s = (if c s then Inr s else Inl Assert_failed)"

text \<open>The logical negation of C on an integer: 1 for 0, and 0 otherwise.\<close>

definition c_not :: "nat \<Rightarrow> nat" where
  "c_not n = (if n = 0 then 1 else 0)"

section \<open>Collections\<close>

named_theorems frame_simps \<open>what an operation leaves unchanged\<close>
named_theorems keeps_intros \<open>invariants that an operation keeps\<close>

section \<open>Sequencing\<close>

lemma bind_outcome_simps [simp]:
  "bind_outcome (Inl e) f = Inl e"
  "bind_outcome (Inr x) f = f x"
  by (simp_all add: bind_outcome_def)

lemma bind_outcome_assoc:
  "bind_outcome (bind_outcome r f) g = bind_outcome r (\<lambda>x. bind_outcome (f x) g)"
  by (cases r) simp_all

lemma bind_outcome_Inr [simp]: "bind_outcome r Inr = r"
  by (cases r) simp_all

lemma bind_outcome_eq_Inr:
  "bind_outcome r f = Inr y \<longleftrightarrow> (\<exists>x. r = Inr x \<and> f x = Inr y)"
  by (cases r) simp_all

lemma bind_outcome_cong [fundef_cong]:
  assumes "r = r'" and "\<And>x. r' = Inr x \<Longrightarrow> f x = f' x"
  shows "bind_outcome r f = bind_outcome r' f'"
  using assms by (cases r') simp_all

lemma run_steps_append:
  "run_steps (fs @ gs) s = bind_outcome (run_steps fs s) (run_steps gs)"
  by (induction fs arbitrary: s) (auto simp: bind_outcome_def split: sum.splits)

lemma run_steps_Nil_fun [simp]: "run_steps [] = Inr"
  by (rule ext) simp

lemma when_step_simps [simp]:
  "when_step True f s = f s"
  "when_step False f s = Inr s"
  by (simp_all add: when_step_def)

lemma c_not_eq_0_iff [simp]: "c_not n = 0 \<longleftrightarrow> n \<noteq> 0"
  by (simp add: c_not_def)

section \<open>Invariants of actions\<close>

text \<open>
  \<open>keeps P f\<close>: from a state with \<open>P\<close>, if \<open>f\<close> returns, \<open>P\<close> holds again.
  \<open>total_on P f\<close>: from a state with \<open>P\<close>, \<open>f\<close> returns and \<open>P\<close> holds again.
\<close>

definition keeps :: "('s \<Rightarrow> bool) \<Rightarrow> 's action \<Rightarrow> bool" where
  "keeps P f \<longleftrightarrow> (\<forall>s s'. P s \<longrightarrow> f s = Inr s' \<longrightarrow> P s')"

definition total_on :: "('s \<Rightarrow> bool) \<Rightarrow> 's action \<Rightarrow> bool" where
  "total_on P f \<longleftrightarrow> (\<forall>s. P s \<longrightarrow> (\<exists>s'. f s = Inr s' \<and> P s'))"

lemma keepsI: "(\<And>s s'. P s \<Longrightarrow> f s = Inr s' \<Longrightarrow> P s') \<Longrightarrow> keeps P f"
  by (simp add: keeps_def)

lemma keepsD: "keeps P f \<Longrightarrow> P s \<Longrightarrow> f s = Inr s' \<Longrightarrow> P s'"
  by (simp add: keeps_def)

lemma total_onI: "(\<And>s. P s \<Longrightarrow> \<exists>s'. f s = Inr s' \<and> P s') \<Longrightarrow> total_on P f"
  by (simp add: total_on_def)

lemma total_onE:
  assumes "total_on P f" and "P s"
  obtains s' where "f s = Inr s'" and "P s'"
  using assms by (auto simp: total_on_def)

lemma total_on_keeps: "total_on P f \<Longrightarrow> keeps P f"
  by (auto simp: keeps_def elim!: total_onE)

lemma keeps_bind [keeps_intros]:
  assumes "keeps P f" and "keeps P g"
  shows "keeps P (\<lambda>s. bind_outcome (f s) g)"
proof (rule keepsI)
  fix s s' assume P: "P s" and r: "bind_outcome (f s) g = Inr s'"
  then obtain s1 where "f s = Inr s1" "g s1 = Inr s'" by (auto simp: bind_outcome_eq_Inr)
  from assms(1) P \<open>f s = Inr s1\<close> have "P s1" by (rule keepsD)
  from assms(2) this \<open>g s1 = Inr s'\<close> show "P s'" by (rule keepsD)
qed

lemma keeps_run_steps [keeps_intros]:
  "(\<And>f. f \<in> set fs \<Longrightarrow> keeps P f) \<Longrightarrow> keeps P (run_steps fs)"
proof (induction fs)
  case Nil
  then show ?case by (simp add: keeps_def)
next
  case (Cons f fs)
  then have "keeps P f" and "keeps P (run_steps fs)" by simp_all
  then have "keeps P (\<lambda>s. bind_outcome (f s) (run_steps fs))" by (rule keeps_bind)
  then show ?case by (simp add: keeps_def)
qed

lemma total_on_run_steps:
  "(\<And>f. f \<in> set fs \<Longrightarrow> total_on P f) \<Longrightarrow> total_on P (run_steps fs)"
proof (induction fs)
  case Nil
  then show ?case by (simp add: total_on_def)
next
  case (Cons f fs)
  then have f: "total_on P f" and fs: "total_on P (run_steps fs)" by simp_all
  show ?case
  proof (rule total_onI)
    fix s assume "P s"
    with f obtain s1 where "f s = Inr s1" "P s1" by (rule total_onE)
    moreover from fs \<open>P s1\<close> obtain s2 where "run_steps fs s1 = Inr s2" "P s2"
      by (rule total_onE)
    ultimately show "\<exists>s'. run_steps (f # fs) s = Inr s' \<and> P s'" by simp
  qed
qed

lemma keeps_when [keeps_intros]: "keeps P f \<Longrightarrow> keeps P (when_step c f)"
  by (cases c) (simp_all add: keeps_def)

lemma total_on_when: "total_on P f \<Longrightarrow> total_on P (when_step c f)"
  by (cases c) (simp_all add: total_on_def)

text \<open>
  Total correctness up to a set of permitted ends of the process: from a state that satisfies \<open>P\<close>,
  \<open>f\<close> returns in such a state, or stops for one of the reasons in \<open>S\<close>.
\<close>

definition safe_on :: "stop set \<Rightarrow> ('s \<Rightarrow> bool) \<Rightarrow> 's action \<Rightarrow> bool" where
  "safe_on S P f \<longleftrightarrow> (\<forall>s. P s \<longrightarrow> (case f s of Inl e \<Rightarrow> e \<in> S | Inr s' \<Rightarrow> P s'))"

lemma safe_onI:
  "(\<And>s. P s \<Longrightarrow> (\<exists>e \<in> S. f s = Inl e) \<or> (\<exists>s'. f s = Inr s' \<and> P s')) \<Longrightarrow> safe_on S P f"
  by (fastforce simp: safe_on_def)

lemma safe_onE:
  assumes "safe_on S P f" and "P s"
  obtains e where "f s = Inl e" and "e \<in> S" | s' where "f s = Inr s'" and "P s'"
  using assms by (cases "f s") (auto simp: safe_on_def)

lemma safe_on_mono: "safe_on S P f \<Longrightarrow> S \<subseteq> S' \<Longrightarrow> safe_on S' P f"
  by (fastforce simp: safe_on_def split: sum.splits)

lemma total_on_safe: "total_on P f \<Longrightarrow> safe_on S P f"
  by (fastforce simp: safe_on_def total_on_def)

lemma safe_on_bind:
  assumes "safe_on S P f" and "safe_on S P g"
  shows "safe_on S P (\<lambda>s. bind_outcome (f s) g)"
proof (rule safe_onI)
  fix s assume "P s"
  with assms(1) show "(\<exists>e \<in> S. bind_outcome (f s) g = Inl e) \<or> (\<exists>s'. bind_outcome (f s) g = Inr s' \<and> P s')"
  proof (cases rule: safe_onE)
    case (2 s1)
    from assms(2) \<open>P s1\<close> 2(1) show ?thesis by (cases rule: safe_onE) auto
  qed simp
qed

lemma safe_on_run_steps:
  "(\<And>f. f \<in> set fs \<Longrightarrow> safe_on S P f) \<Longrightarrow> safe_on S P (run_steps fs)"
proof (induction fs)
  case Nil
  then show ?case by (simp add: safe_on_def)
next
  case (Cons f fs)
  then have "safe_on S P f" and "safe_on S P (run_steps fs)" by simp_all
  then have "safe_on S P (\<lambda>s. bind_outcome (f s) (run_steps fs))" by (rule safe_on_bind)
  then show ?case by (simp add: safe_on_def)
qed

lemma safe_on_when: "safe_on S P f \<Longrightarrow> safe_on S P (when_step c f)"
  by (cases c) (simp_all add: safe_on_def)

section \<open>State machines\<close>

text \<open>
  The contract of \<^verbatim>\<open>GENERATE_DEFAULT_FUNCTIONS\<close> (\<^verbatim>\<open>libsled/machines/machine_body.h\<close>), the
  macro that writes \<^verbatim>\<open>_handle_event\<close> of every machine: an event that does not change the state
  runs nothing; any other leaves the old state, assigns the new one and enters it.
\<close>

locale event_machine =
  fixes state_of :: "'w \<Rightarrow> 's"
    and set_state :: "'s \<Rightarrow> 'w \<Rightarrow> 'w"
    and next_state :: "'s \<Rightarrow> 'e \<Rightarrow> 's"
    and on_exit :: "'w action"
    and on_enter :: "'w action"
    and handle :: "'e \<Rightarrow> 'w action"
  assumes handle_ignored: "next_state (state_of w) e = state_of w \<Longrightarrow> handle e w = Inr w"
    and handle_changed: "next_state (state_of w) e \<noteq> state_of w \<Longrightarrow>
      handle e w =
        bind_outcome (on_exit w) (\<lambda>w1. on_enter (set_state (next_state (state_of w) e) w1))"
begin

lemma ignored_run:
  assumes "\<And>e. e \<in> set es \<Longrightarrow> next_state (state_of w) e = state_of w"
  shows "run_steps (map handle es) w = Inr w"
  using assms by (induction es) (simp_all add: handle_ignored)

lemma handle_keeps:
  assumes "keeps P on_exit"
    and "\<And>w s w'. P w \<Longrightarrow> on_enter (set_state s w) = Inr w' \<Longrightarrow> P w'"
  shows "keeps P (handle e)"
proof (rule keepsI)
  fix w w' assume P: "P w" and h: "handle e w = Inr w'"
  show "P w'"
  proof (cases "next_state (state_of w) e = state_of w")
    case True
    with h P show ?thesis by (simp add: handle_ignored)
  next
    case False
    with h assms P show ?thesis
      by (auto simp: handle_changed bind_outcome_eq_Inr dest: keepsD)
  qed
qed

lemma stuck_run:
  assumes "\<And>e. e \<in> E \<Longrightarrow> next_state s e = s"
    and "state_of w = s" and "set es \<subseteq> E"
  shows "run_steps (map handle es) w = Inr w"
  using assms by (intro ignored_run) auto

end

text \<open>
  A machine whose entry and exit actions always return, under an invariant of the surrounding
  state, and do not change the machine's own state: then every event is handled, and the state
  follows the transition function alone.
\<close>

locale guarded_machine =
  event_machine state_of set_state next_state on_exit on_enter handle
  for state_of :: "'w \<Rightarrow> 's"
    and set_state :: "'s \<Rightarrow> 'w \<Rightarrow> 'w"
    and next_state :: "'s \<Rightarrow> 'e \<Rightarrow> 's"
    and on_exit :: "'w action"
    and on_enter :: "'w action"
    and handle :: "'e \<Rightarrow> 'w action" +
  fixes inv :: "'w \<Rightarrow> bool"
  assumes set_state_of: "state_of (set_state s w) = s"
    and exit_ok: "inv w \<Longrightarrow>
      \<exists>w'. on_exit w = Inr w' \<and> state_of w' = state_of w \<and> (\<forall>s. s \<noteq> state_of w \<longrightarrow>
        (\<exists>w''. on_enter (set_state s w') = Inr w'' \<and> state_of w'' = s \<and> inv w''))"
begin

lemma handle_ok:
  assumes "inv w"
  shows "\<exists>w'. handle e w = Inr w' \<and> inv w' \<and> state_of w' = next_state (state_of w) e"
proof (cases "next_state (state_of w) e = state_of w")
  case True
  with assms show ?thesis by (simp add: handle_ignored)
next
  case False
  from exit_ok [OF assms] obtain w1 where "on_exit w = Inr w1"
    and "\<forall>s. s \<noteq> state_of w \<longrightarrow>
      (\<exists>w''. on_enter (set_state s w1) = Inr w'' \<and> state_of w'' = s \<and> inv w'')" by blast
  with False show ?thesis by (auto simp: handle_changed)
qed

lemma handle_total: "total_on inv (handle e)"
  by (rule total_onI) (use handle_ok in blast)

lemma run_ok:
  assumes "inv w"
  shows "\<exists>w'. run_steps (map handle es) w = Inr w' \<and> inv w'
    \<and> state_of w' = foldl next_state (state_of w) es"
  using assms
proof (induction es arbitrary: w)
  case Nil
  then show ?case by simp
next
  case (Cons e es)
  from handle_ok [OF Cons.prems, of e] obtain w1 where
    "handle e w = Inr w1" "inv w1" "state_of w1 = next_state (state_of w) e" by blast
  with Cons.IH [of w1] show ?case by auto
qed

end

text \<open>
  A machine whose actions moreover produce output that depends on its state only: a Mealy
  machine, whose output is appended to a log.
\<close>

locale output_machine =
  guarded_machine state_of set_state next_state on_exit on_enter handle inv
  for state_of :: "'w \<Rightarrow> 's"
    and set_state :: "'s \<Rightarrow> 'w \<Rightarrow> 'w"
    and next_state :: "'s \<Rightarrow> 'e \<Rightarrow> 's"
    and on_exit :: "'w action"
    and on_enter :: "'w action"
    and handle :: "'e \<Rightarrow> 'w action"
    and inv :: "'w \<Rightarrow> bool" +
  fixes log :: "'w \<Rightarrow> 'f list"
    and exit_out :: "'s \<Rightarrow> 'f list"
    and enter_out :: "'s \<Rightarrow> 'f list"
  assumes exit_log: "inv w \<Longrightarrow> on_exit w = Inr w' \<Longrightarrow> s \<noteq> state_of w \<Longrightarrow>
      on_enter (set_state s w') = Inr w'' \<Longrightarrow>
      log w'' = log w @ exit_out (state_of w) @ enter_out s"
begin

definition step_out :: "'s \<Rightarrow> 'e \<Rightarrow> 'f list" where
  "step_out s e = (if next_state s e = s then [] else exit_out s @ enter_out (next_state s e))"

fun run_out :: "'s \<Rightarrow> 'e list \<Rightarrow> 'f list" where
  "run_out s [] = []"
| "run_out s (e # es) = step_out s e @ run_out (next_state s e) es"

lemma handle_log:
  assumes "inv w" and "handle e w = Inr w'"
  shows "log w' = log w @ step_out (state_of w) e"
proof (cases "next_state (state_of w) e = state_of w")
  case True
  with assms show ?thesis by (simp add: handle_ignored step_out_def)
next
  case False
  with assms(2) obtain w1 where w1: "on_exit w = Inr w1"
    "on_enter (set_state (next_state (state_of w) e) w1) = Inr w'"
    by (auto simp: handle_changed bind_outcome_eq_Inr)
  from exit_log [OF assms(1) w1(1) False w1(2)] False show ?thesis by (simp add: step_out_def)
qed

lemma run_log:
  assumes "inv w" and "run_steps (map handle es) w = Inr w'"
  shows "log w' = log w @ run_out (state_of w) es"
  using assms
proof (induction es arbitrary: w)
  case Nil
  then show ?case by simp
next
  case (Cons e es)
  from handle_ok [OF Cons.prems(1), of e] obtain w1 where
    w1: "handle e w = Inr w1" "inv w1" "state_of w1 = next_state (state_of w) e" by blast
  with Cons.prems(2) have "run_steps (map handle es) w1 = Inr w'" by simp
  from Cons.IH [OF w1(2) this] handle_log [OF Cons.prems(1) w1(1)] w1(3)
  show ?case by simp
qed

end

section \<open>Byte order\<close>

text \<open>Little- and big-endian splitting and joining of the integers the protocols carry.\<close>

definition lo8 :: "'a::len word \<Rightarrow> nat \<Rightarrow> u8" where
  "lo8 x n = ucast (drop_bit n x)"

definition le16 :: "u8 \<Rightarrow> u8 \<Rightarrow> u16" where
  "le16 b0 b1 = ucast b0 + push_bit 8 (ucast b1)"

definition le32 :: "u8 \<Rightarrow> u8 \<Rightarrow> u8 \<Rightarrow> u8 \<Rightarrow> u32" where
  "le32 b0 b1 b2 b3 =
     ucast b0 + push_bit 8 (ucast b1) + push_bit 16 (ucast b2) + push_bit 24 (ucast b3)"

lemma le16_or: "le16 a b = ucast a OR push_bit 8 (ucast b)"
  unfolding le16_def
  by (rule disjunctive_add) (auto simp: bit_simps dest: bit_imp_le_length)

lemma le32_or:
  "le32 a b c d =
     ucast a OR push_bit 8 (ucast b) OR push_bit 16 (ucast c) OR push_bit 24 (ucast d)"
proof -
  have ab: "(ucast a :: u32) + push_bit 8 (ucast b) = ucast a OR push_bit 8 (ucast b)"
    by (rule disjunctive_add) (auto simp: bit_simps dest: bit_imp_le_length)
  have abc: "(ucast a OR push_bit 8 (ucast b) :: u32) + push_bit 16 (ucast c) =
      (ucast a OR push_bit 8 (ucast b)) OR push_bit 16 (ucast c)"
    by (rule disjunctive_add) (auto simp: bit_simps dest: bit_imp_le_length)
  have "((ucast a OR push_bit 8 (ucast b)) OR push_bit 16 (ucast c) :: u32) +
        push_bit 24 (ucast d) =
      ((ucast a OR push_bit 8 (ucast b)) OR push_bit 16 (ucast c)) OR push_bit 24 (ucast d)"
    by (rule disjunctive_add) (auto simp: bit_simps dest: bit_imp_le_length)
  with ab abc show ?thesis by (simp add: le32_def or.assoc)
qed

lemma bit_lo8: "bit (lo8 x n) k \<longleftrightarrow> k < 8 \<and> bit x (n + k)"
  by (auto simp: lo8_def bit_simps dest: bit_imp_le_length)

lemma lo8_le16 [simp]:
  "lo8 (le16 a b) 0 = a"
  "lo8 (le16 a b) 8 = b"
  by (rule bit_word_eqI; auto simp: le16_or bit_lo8 bit_simps dest: bit_imp_le_length)+

lemma le16_lo8 [simp]: "le16 (lo8 x 0) (lo8 x 8) = x"
  by (rule bit_word_eqI) (auto simp: le16_or bit_lo8 bit_simps dest: bit_imp_le_length)

lemma lo8_le32 [simp]:
  "lo8 (le32 a b c d) 0 = a"
  "lo8 (le32 a b c d) 8 = b"
  "lo8 (le32 a b c d) 16 = c"
  "lo8 (le32 a b c d) 24 = d"
  by (rule bit_word_eqI; auto simp: le32_or bit_lo8 bit_simps dest: bit_imp_le_length)+

lemma le32_lo8 [simp]: "le32 (lo8 x 0) (lo8 x 8) (lo8 x 16) (lo8 x 24) = x"
proof (rule bit_word_eqI)
  fix n assume "n < LENGTH(32)"
  then have "n < 8 \<or> 8 \<le> n \<and> n < 16 \<or> 16 \<le> n \<and> n < 24 \<or> 24 \<le> n \<and> n < 32" by auto
  then show "bit (le32 (lo8 x 0) (lo8 x 8) (lo8 x 16) (lo8 x 24)) n = bit x n"
    by (auto simp: le32_or bit_lo8 bit_simps)
qed

lemma le32_lo8_take:
  "le32 (lo8 x 0) 0 0 0 = take_bit 8 x"
  "le32 (lo8 x 0) (lo8 x 8) 0 0 = take_bit 16 x"
  "le32 (lo8 x 0) (lo8 x 8) (lo8 x 16) 0 = take_bit 24 x"
proof -
  have split32: "n < 8 \<or> 8 \<le> n \<and> n < 16 \<or> 16 \<le> n \<and> n < 24 \<or> 24 \<le> n" for n :: nat by auto
  show "le32 (lo8 x 0) 0 0 0 = take_bit 8 x"
    by (rule bit_word_eqI) (auto simp: le32_or bit_lo8 bit_simps)
  show "le32 (lo8 x 0) (lo8 x 8) 0 0 = take_bit 16 x"
    by (rule bit_word_eqI; use split32 in \<open>auto simp: le32_or bit_lo8 bit_simps\<close>)
  show "le32 (lo8 x 0) (lo8 x 8) (lo8 x 16) 0 = take_bit 24 x"
  proof (rule bit_word_eqI)
    fix n assume "n < LENGTH(32)"
    from split32 [of n]
    show "bit (le32 (lo8 x 0) (lo8 x 8) (lo8 x 16) 0) n = bit (take_bit 24 x) n"
      by (auto simp: le32_or bit_lo8 bit_simps)
  qed
qed

lemma le16_inject [simp]: "le16 a b = le16 c d \<longleftrightarrow> a = c \<and> b = d"
  by (metis lo8_le16)

lemma le32_inject [simp]:
  "le32 a b c d = le32 a' b' c' d' \<longleftrightarrow> a = a' \<and> b = b' \<and> c = c' \<and> d = d'"
  by (metis lo8_le32)

text \<open>The masks and shifts by which the sources take an integer apart.\<close>

lemma lo8_masks:
  "lo8 (x :: u16) 0 = ucast (x AND 0x00FF)"
  "lo8 (x :: u16) 8 = ucast (drop_bit 8 (x AND 0xFF00))"
proof -
  have m: "(0x00FF :: u16) = mask 8" and m': "(0xFF00 :: u16) = push_bit 8 (mask 8)"
    by (simp_all add: mask_eq_exp_minus_1)
  show "lo8 (x :: u16) 0 = ucast (x AND 0x00FF)"
    unfolding m by (rule bit_word_eqI) (auto simp: bit_lo8 bit_simps)
  show "lo8 (x :: u16) 8 = ucast (drop_bit 8 (x AND 0xFF00))"
    unfolding m' by (rule bit_word_eqI) (auto simp: bit_lo8 bit_simps dest: bit_imp_le_length)
qed

lemma lo8_masks32:
  "lo8 (x :: u32) 0 = ucast (x AND 0x000000FF)"
  "lo8 (x :: u32) 8 = ucast (drop_bit 8 (x AND 0x0000FF00))"
  "lo8 (x :: u32) 16 = ucast (drop_bit 16 (x AND 0x00FF0000))"
  "lo8 (x :: u32) 24 = ucast (drop_bit 24 (x AND 0xFF000000))"
proof -
  have m: "(0x000000FF :: u32) = mask 8" "(0x0000FF00 :: u32) = push_bit 8 (mask 8)"
    "(0x00FF0000 :: u32) = push_bit 16 (mask 8)" "(0xFF000000 :: u32) = push_bit 24 (mask 8)"
    by (simp_all add: mask_eq_exp_minus_1)
  show "lo8 (x :: u32) 0 = ucast (x AND 0x000000FF)"
    unfolding m by (rule bit_word_eqI) (auto simp: bit_lo8 bit_simps)
  show "lo8 (x :: u32) 8 = ucast (drop_bit 8 (x AND 0x0000FF00))"
    unfolding m by (rule bit_word_eqI) (auto simp: bit_lo8 bit_simps dest: bit_imp_le_length)
  show "lo8 (x :: u32) 16 = ucast (drop_bit 16 (x AND 0x00FF0000))"
    unfolding m by (rule bit_word_eqI) (auto simp: bit_lo8 bit_simps dest: bit_imp_le_length)
  show "lo8 (x :: u32) 24 = ucast (drop_bit 24 (x AND 0xFF000000))"
    unfolding m by (rule bit_word_eqI) (auto simp: bit_lo8 bit_simps dest: bit_imp_le_length)
qed

end
