(* ===== verification/Rtc3d_Frame.thy ===== *)
theory Rtc3d_Frame
  imports Prelude
begin

text \<open>
  The packets the server sends, \<^verbatim>\<open>librtc3d/rtc3d_dataframe.cc\<close> and the two senders of
  \<^verbatim>\<open>librtc3d/rtc3d.cc\<close>. The sources write integers through pointers into a byte buffer, on a
  little-endian host, after swapping them with \<^verbatim>\<open>htonl\<close>. A byte that has not been written is \<open>None\<close>.
\<close>

section \<open>Memory\<close>

type_synonym buffer = "u8 option list"

text \<open>\<^verbatim>\<open>char buffer[n]\<close>, and a store of a 32-bit or 64-bit integer at an offset.\<close>

definition new_buffer :: "nat \<Rightarrow> buffer" where
  "new_buffer n = replicate n None"

definition poke32 :: "nat \<Rightarrow> u32 \<Rightarrow> buffer \<Rightarrow> buffer" where
  "poke32 off v buf = buf[off := Some (lo8 v 0), off + 1 := Some (lo8 v 8),
     off + 2 := Some (lo8 v 16), off + 3 := Some (lo8 v 24)]"

definition poke64 :: "nat \<Rightarrow> u64 \<Rightarrow> buffer \<Rightarrow> buffer" where
  "poke64 off v buf = poke32 (off + 4) (ucast (drop_bit 32 v)) (poke32 off (ucast v) buf)"

definition poke_bytes :: "nat \<Rightarrow> u8 list \<Rightarrow> buffer \<Rightarrow> buffer" where
  "poke_bytes off bs buf = take off buf @ map Some bs @ drop (off + length bs) buf"

text \<open>\<^verbatim>\<open>htonl\<close> on a little-endian host.\<close>

definition htonl :: "u32 \<Rightarrow> u32" where
  "htonl x = le32 (lo8 x 24) (lo8 x 16) (lo8 x 8) (lo8 x 0)"

definition htonll :: "u64 \<Rightarrow> u64" where
  "htonll v = push_bit 32 (ucast (htonl (ucast (v AND 0xFFFFFFFF)))) OR ucast (htonl (ucast (drop_bit 32 v)))"

text \<open>
  A \<^verbatim>\<open>float\<close> is its bit pattern: the packets carry it unchanged but for the order of its bytes.
\<close>

type_synonym float_bits = u32

definition htonf :: "float_bits \<Rightarrow> float_bits" where
  "htonf v = htonl v"

section \<open>Data frames\<close>

datatype byte_order_t = byo_big_endian | byo_little_endian

definition PTYPE_ERROR :: u32 where "PTYPE_ERROR = 0"
definition PTYPE_COMMAND :: u32 where "PTYPE_COMMAND = 1"
definition PTYPE_XML :: u32 where "PTYPE_XML = 2"
definition PTYPE_DATAFRAME :: u32 where "PTYPE_DATAFRAME = 3"
definition PTYPE_NODATA :: u32 where "PTYPE_NODATA = 4"
definition PTYPE_C3DFILE :: u32 where "PTYPE_C3DFILE = 5"
definition CTYPE_3D :: u32 where "CTYPE_3D = 1"

lemmas PTYPE_defs = PTYPE_ERROR_def PTYPE_COMMAND_def PTYPE_XML_def PTYPE_DATAFRAME_def
  PTYPE_NODATA_def PTYPE_C3DFILE_def

definition rtc3d_set_packet_header :: "nat \<Rightarrow> u32 \<Rightarrow> u32 \<Rightarrow> buffer \<Rightarrow> buffer" where
  "rtc3d_set_packet_header off sz type buf = poke32 (off + 4) (htonl type) (poke32 off (htonl sz) buf)"

definition rtc3d_set_component_header ::
    "nat \<Rightarrow> u32 \<Rightarrow> u32 \<Rightarrow> u32 \<Rightarrow> u64 \<Rightarrow> buffer \<Rightarrow> buffer" where
  "rtc3d_set_component_header off sz type frame tm buf =
     poke64 (off + 12) (htonll tm) (poke32 (off + 8) (htonl frame)
       (poke32 (off + 4) (htonl type) (poke32 off (htonl sz) buf)))"

definition rtc3d_set_marker ::
    "nat \<Rightarrow> float_bits \<Rightarrow> float_bits \<Rightarrow> float_bits \<Rightarrow> float_bits \<Rightarrow> buffer \<Rightarrow> buffer" where
  "rtc3d_set_marker off x y z delta buf =
     poke32 (off + 12) (htonf delta) (poke32 (off + 8) (htonf z)
       (poke32 (off + 4) (htonf y) (poke32 off (htonf x) buf)))"

text \<open>The buffer that \<^verbatim>\<open>rtc3d_send_data\<close> hands to \<^verbatim>\<open>net_send\<close>, all of its 52 bytes.\<close>

definition rtc3d_data_packet :: "u32 \<Rightarrow> u64 \<Rightarrow> float_bits \<Rightarrow> buffer" where
  "rtc3d_data_packet frame tm point =
     rtc3d_set_marker 36 point 0 0 0
       (poke32 32 (htonl 1)
         (rtc3d_set_component_header 12 40 CTYPE_3D frame tm
           (poke32 8 (htonl 1)
             (rtc3d_set_packet_header 0 52 PTYPE_DATAFRAME (new_buffer 52)))))"

text \<open>The buffers of \<^verbatim>\<open>rtc3d_send_command\<close> and \<^verbatim>\<open>rtc3d_send_error\<close>.\<close>

definition text_packet :: "u32 \<Rightarrow> u8 list \<Rightarrow> buffer" where
  "text_packet type text =
     poke_bytes 8 text
       (poke32 4 (htonl type)
         (poke32 0 (htonl (of_nat (8 + length text))) (new_buffer (8 + length text))))"

definition rtc3d_command_packet :: "u8 list \<Rightarrow> buffer" where
  "rtc3d_command_packet command = text_packet PTYPE_COMMAND command"

definition rtc3d_error_packet :: "u8 list \<Rightarrow> buffer" where
  "rtc3d_error_packet error = text_packet PTYPE_ERROR error"

section \<open>The packets on the wire\<close>

text \<open>Big-endian integers, as the RTC3D protocol has them.\<close>

definition be32 :: "u32 \<Rightarrow> u8 list" where
  "be32 x = [lo8 x 24, lo8 x 16, lo8 x 8, lo8 x 0]"

definition be64 :: "u64 \<Rightarrow> u8 list" where
  "be64 x = be32 (ucast (drop_bit 32 x)) @ be32 (ucast x)"

fun get32 :: "u8 list \<Rightarrow> (u32 \<times> u8 list) option" where
  "get32 (a # b # c # d # bs) = Some (le32 d c b a, bs)"
| "get32 _ = None"

lemma get32_be32 [simp]: "get32 (be32 x @ bs) = Some (x, bs)"
  by (simp add: be32_def)

lemma length_be32 [simp]: "length (be32 x) = 4"
  by (simp add: be32_def)

lemma be32_not_Nil [simp]: "be32 x \<noteq> []"
  by (simp add: be32_def)

lemma be32_inject [simp]: "be32 x = be32 y \<longleftrightarrow> x = y"
  by (metis get32_be32 option.inject prod.inject)

lemma lo8_htonl [simp]:
  "lo8 (htonl x) 0 = lo8 x 24" "lo8 (htonl x) 8 = lo8 x 16"
  "lo8 (htonl x) 16 = lo8 x 8" "lo8 (htonl x) 24 = lo8 x 0"
  by (simp_all add: htonl_def)

lemma ucast_hi_lo:
  "ucast (push_bit 32 (ucast a) OR ucast b :: u64) = (b :: u32)"
  "ucast (drop_bit 32 (push_bit 32 (ucast a) OR ucast b :: u64)) = (a :: u32)"
  by (rule bit_word_eqI; auto simp: bit_simps dest: bit_imp_le_length)+

lemma ucast_and_mask: "ucast (v AND 0xFFFFFFFF :: u64) = (ucast v :: u32)"
proof -
  have m: "(0xFFFFFFFF :: u64) = mask 32" by (simp add: mask_eq_exp_minus_1)
  show ?thesis unfolding m by (rule bit_word_eqI) (auto simp: bit_simps)
qed

text \<open>Storing into the part of a buffer that follows a known prefix.\<close>

lemma poke32_append:
  assumes "off = length xs"
  shows "poke32 off v (xs @ a # b # c # d # ys)
    = xs @ Some (lo8 v 0) # Some (lo8 v 8) # Some (lo8 v 16) # Some (lo8 v 24) # ys"
  using assms by (simp add: poke32_def list_update_append)

lemma poke32_htonl:
  assumes "off = length xs"
  shows "poke32 off (htonl v) (xs @ replicate (4 + n) None) = (xs @ map Some (be32 v)) @ replicate n None"
proof -
  have "replicate (4 + n) None = None # None # None # None # replicate n (None :: u8 option)"
    by (simp add: eval_nat_numeral)
  then show ?thesis using poke32_append [OF assms, of "htonl v"] by (simp add: be32_def)
qed

lemma poke64_htonll:
  assumes "off = length xs"
  shows "poke64 off (htonll v) (xs @ replicate (8 + n) None) = (xs @ map Some (be64 v)) @ replicate n None"
proof -
  have lo: "ucast (htonll v) = htonl (ucast (drop_bit 32 v))"
    and hi: "ucast (drop_bit 32 (htonll v)) = htonl (ucast v)"
    unfolding htonll_def ucast_hi_lo ucast_and_mask by (rule refl)+
  have "poke32 off (ucast (htonll v)) (xs @ replicate (4 + (4 + n)) None)
      = (xs @ map Some (be32 (ucast (drop_bit 32 v)))) @ replicate (4 + n) None"
    unfolding lo by (rule poke32_htonl [OF assms])
  then have "poke64 off (htonll v) (xs @ replicate (4 + (4 + n)) None)
      = ((xs @ map Some (be32 (ucast (drop_bit 32 v)))) @ map Some (be32 (ucast v))) @ replicate n None"
    unfolding poke64_def hi by (simp only:) (rule poke32_htonl, simp add: assms)
  then show ?thesis by (simp add: be64_def)
qed

lemma data_packet_bytes:
  "rtc3d_data_packet frame tm point = map Some
     (be32 52 @ be32 3 @ be32 1 @ be32 40 @ be32 1 @ be32 frame @ be64 tm @ be32 1
      @ be32 point @ be32 0 @ be32 0 @ be32 0)"
proof -
  let ?n = "\<lambda>n. replicate n (None :: u8 option)"
  let ?p1 = "map Some (be32 52)" and ?p2 = "map Some (be32 3)" and ?p3 = "map Some (be32 1)"
  have h: "rtc3d_set_packet_header 0 52 PTYPE_DATAFRAME (new_buffer 52) = (?p1 @ ?p2) @ ?n 44"
    using poke32_htonl [of 0 "[]" 52 48] poke32_htonl [of 4 ?p1 3 44]
    by (simp add: rtc3d_set_packet_header_def new_buffer_def PTYPE_defs)
  have c: "poke32 8 (htonl 1) ((?p1 @ ?p2) @ ?n 44) = (?p1 @ ?p2 @ ?p3) @ ?n 40"
    using poke32_htonl [of 8 "?p1 @ ?p2" 1 40] by simp
  let ?q = "?p1 @ ?p2 @ ?p3" and ?c1 = "map Some (be32 40)" and ?c2 = "map Some (be32 1)"
    and ?c3 = "map Some (be32 frame)" and ?c4 = "map Some (be64 tm)"
  have "rtc3d_set_component_header 12 40 CTYPE_3D frame tm (?q @ ?n 40)
      = (?q @ ?c1 @ ?c2 @ ?c3 @ ?c4) @ ?n 20"
    using poke32_htonl [of 12 ?q 40 36] poke32_htonl [of 16 "?q @ ?c1" 1 32]
      poke32_htonl [of 20 "?q @ ?c1 @ ?c2" frame 28] poke64_htonll [of 24 "?q @ ?c1 @ ?c2 @ ?c3" tm 20]
    by (simp add: rtc3d_set_component_header_def CTYPE_3D_def)
  moreover let ?r = "?q @ ?c1 @ ?c2 @ ?c3 @ ?c4"
  have "poke32 32 (htonl 1) (?r @ ?n 20) = (?r @ ?p3) @ ?n 16"
    using poke32_htonl [of 32 ?r 1 16] by (simp add: be64_def)
  moreover let ?s = "?r @ ?p3" and ?z = "map Some (be32 0)"
  have "rtc3d_set_marker 36 point 0 0 0 (?s @ ?n 16) = ?s @ map Some (be32 point) @ ?z @ ?z @ ?z"
    using poke32_htonl [of 36 ?s point 12] poke32_htonl [of 40 "?s @ map Some (be32 point)" 0 8]
      poke32_htonl [of 44 "?s @ map Some (be32 point) @ ?z" 0 4]
      poke32_htonl [of 48 "?s @ map Some (be32 point) @ ?z @ ?z" 0 0]
    by (simp add: rtc3d_set_marker_def htonf_def be64_def)
  ultimately show ?thesis unfolding rtc3d_data_packet_def h c by simp
qed

text \<open>
  A receiver, from the protocol's description: a packet is its total size, its type and its
  contents; a data frame is a number of components; a 3D component is its size, its type, frame
  number, time stamp and a number of markers of four floats each. It returns what follows, too.
\<close>

fun get_markers :: "nat \<Rightarrow> u8 list \<Rightarrow> ((u32 \<times> u32 \<times> u32 \<times> u32) list \<times> u8 list) option" where
  "get_markers 0 bs = Some ([], bs)"
| "get_markers (Suc n) bs =
     Option.bind (get32 bs) (\<lambda>(x, bs). Option.bind (get32 bs) (\<lambda>(y, bs).
     Option.bind (get32 bs) (\<lambda>(z, bs). Option.bind (get32 bs) (\<lambda>(d, bs).
     Option.bind (get_markers n bs) (\<lambda>(ms, bs). Some ((x, y, z, d) # ms, bs))))))"

definition receive_dataframe ::
    "u8 list \<Rightarrow> ((u32 \<times> u64 \<times> (u32 \<times> u32 \<times> u32 \<times> u32) list) \<times> u8 list) option" where
  "receive_dataframe bs0 =
     Option.bind (get32 bs0) (\<lambda>(sz, bs). Option.bind (get32 bs) (\<lambda>(type, bs).
     Option.bind (get32 bs) (\<lambda>(count, bs). Option.bind (get32 bs) (\<lambda>(csz, bs1).
     Option.bind (get32 bs1) (\<lambda>(ctype, bs). Option.bind (get32 bs) (\<lambda>(frame, bs).
     Option.bind (get32 bs) (\<lambda>(hi, bs). Option.bind (get32 bs) (\<lambda>(lo, bs).
     Option.bind (get32 bs) (\<lambda>(n, bs). Option.bind (get_markers (unat n) bs) (\<lambda>(ms, bs).
       if type = 3 \<and> count = 1 \<and> ctype = 1
          \<and> unat sz = length bs0 - length bs \<and> unat csz = 4 + length bs1 - length bs
       then Some ((frame, push_bit 32 (ucast hi) OR ucast lo, ms), bs) else None))))))))))"

lemma be64_halves: "push_bit 32 (ucast (ucast (drop_bit 32 (x :: u64)) :: u32)) OR ucast (ucast x :: u32) = x"
proof (rule bit_word_eqI)
  fix n assume "n < LENGTH(64)"
  then show "bit (push_bit 32 (ucast (ucast (drop_bit 32 x) :: u32)) OR ucast (ucast x :: u32) :: u64) n = bit x n"
    by (cases "n < 32") (auto simp: bit_simps)
qed

text \<open>
  C24: a position packet says what it should. Every one of the 52 bytes that \<^verbatim>\<open>rtc3d_send_data\<close> sends
  has been assigned; and a receiver that follows the protocol reads frame number, time stamp and
  one marker with the given coordinate from it, finds both size fields right, and is left with
  exactly the bytes that follow the packet.
\<close>

theorem data_packet_roundtrip:
  "\<exists>bs. rtc3d_data_packet frame tm point = map Some bs \<and> length bs = 52
     \<and> receive_dataframe (bs @ rest) = Some ((frame, tm, [(point, 0, 0, 0)]), rest)"
proof (intro exI conjI)
  let ?bs = "be32 52 @ be32 3 @ be32 1 @ be32 40 @ be32 1 @ be32 frame @ be64 tm @ be32 1
      @ be32 point @ be32 0 @ be32 0 @ be32 0"
  show "rtc3d_data_packet frame tm point = map Some ?bs" by (rule data_packet_bytes)
  show "length ?bs = 52" by (simp add: be64_def)
  show "receive_dataframe (?bs @ rest) = Some ((frame, tm, [(point, 0, 0, 0)]), rest)"
    by (simp add: receive_dataframe_def be64_def be64_halves)
qed

lemma text_packet_bytes:
  "text_packet type text = map Some (be32 (of_nat (8 + length text)) @ be32 type @ text)"
proof -
  have "poke32 0 (htonl (of_nat (8 + length text))) (new_buffer (8 + length text))
      = map Some (be32 (of_nat (8 + length text))) @ replicate (4 + length text) None"
    using poke32_htonl [of 0 "[]" "of_nat (8 + length text)" "4 + length text"]
    by (simp add: new_buffer_def)
  then have "poke32 4 (htonl type) (poke32 0 (htonl (of_nat (8 + length text))) (new_buffer (8 + length text)))
      = (map Some (be32 (of_nat (8 + length text))) @ map Some (be32 type)) @ replicate (length text) None"
    using poke32_htonl [of 4 "map Some (be32 (of_nat (8 + length text)))" type "length text"] by simp
  then show ?thesis by (simp add: text_packet_def poke_bytes_def)
qed

end
