(* ===== verification/Net_Server.thy ===== *)
theory Net_Server
  imports Rtc3d_Frame
begin

text \<open>
  The TCP server, \<^verbatim>\<open>librtc3d/server.cc\<close>: connections, each an object of its own that the server
  finds by file descriptor. Objects are kept in a store, from addresses (positive numbers; 0 is
  NULL) to contents, so that a use after \<^verbatim>\<open>delete\<close> is an outcome of the model. The answers of the
  operating system and of libevent are the record \<open>tcp_os\<close>, indexed by the number of calls so far.
  The handlers of the user are arguments of the functions that call them.
\<close>

section \<open>Data\<close>

record net_connection_t =
  conn_fd :: int
  conn_local :: nat

record tcp_os =
  os_socket :: "nat \<Rightarrow> int"
  os_bind :: "nat \<Rightarrow> int"
  os_listen :: "nat \<Rightarrow> int"
  os_accept :: "nat \<Rightarrow> int"
  os_read :: "nat \<Rightarrow> u8 list option"
  os_event_new :: "nat \<Rightarrow> bool"
  os_event_add :: "nat \<Rightarrow> int"
  os_bufferevent_new :: "nat \<Rightarrow> bool"
  os_malloc :: "nat \<Rightarrow> bool"

text \<open>
  The server with its surroundings: \<open>read_events\<close> are the descriptors for which a read event is
  registered with libevent, \<open>written\<close> is what has been given to \<^verbatim>\<open>bufferevent_write\<close>,
  \<open>closed_fds\<close> what has been closed.
\<close>

record tcp_env =
  tcp_os :: tcp_os
  os_calls :: nat
  net_conns :: "nat \<rightharpoonup> net_connection_t"
  next_conn :: nat
  connection_data :: "(int \<times> nat) list"
  read_events :: "int list"
  net_connect_handler :: bool
  net_disconnect_handler :: bool
  net_read_handler :: bool
  sock :: int
  written :: "(int \<times> buffer) list"
  closed_fds :: "int list"

definition BUFFER_SIZE :: nat where "BUFFER_SIZE = 1023"

definition os_call :: "(tcp_os \<Rightarrow> nat \<Rightarrow> 'r) \<Rightarrow> 'z tcp_env_scheme \<Rightarrow> 'r \<times> 'z tcp_env_scheme" where
  "os_call f w = (f (tcp_os w) (os_calls w), w\<lparr>os_calls := Suc (os_calls w)\<rparr>)"

section \<open>The map of connections\<close>

text \<open>\<^verbatim>\<open>std::map<int, net_connection_t *>\<close>: sorted by key, every key at most once.\<close>

definition map_erase :: "int \<Rightarrow> (int \<times> nat) list \<Rightarrow> (int \<times> nat) list" where
  "map_erase k m = filter (\<lambda>p. fst p \<noteq> k) m"

definition map_put :: "int \<Rightarrow> nat \<Rightarrow> (int \<times> nat) list \<Rightarrow> (int \<times> nat) list" where
  "map_put k v m = insort_key fst (k, v) (map_erase k m)"

text \<open>\<^verbatim>\<open>operator[]\<close> inserts a NULL pointer under a key that is not there.\<close>

definition connection_at :: "int \<Rightarrow> 'z tcp_env_scheme \<Rightarrow> nat \<times> 'z tcp_env_scheme" where
  "connection_at fd w =
     (case map_of (connection_data w) fd of
        Some c \<Rightarrow> (c, w)
      | None \<Rightarrow> (0, w\<lparr>connection_data := map_put fd 0 (connection_data w)\<rparr>))"

section \<open>Connections\<close>

definition deref_conn :: "nat \<Rightarrow> 'z tcp_env_scheme \<Rightarrow> net_connection_t outcome" where
  "deref_conn c w =
     (if c = 0 then Inl (Undefined_behaviour Null_dereference)
      else case net_conns w c of
        None \<Rightarrow> Inl (Undefined_behaviour Use_after_free)
      | Some conn \<Rightarrow> Inr conn)"

definition net_get_local_data :: "nat \<Rightarrow> 'z tcp_env_scheme \<Rightarrow> nat outcome" where
  "net_get_local_data c w = bind_outcome (deref_conn c w) (\<lambda>conn. Inr (conn_local conn))"

definition net_send :: "nat \<Rightarrow> buffer \<Rightarrow> 'z tcp_env_scheme action" where
  "net_send c buf w =
     (if c = 0 then Inr w
      else bind_outcome (deref_conn c w) (\<lambda>conn.
        Inr (w\<lparr>written := written w @ [(conn_fd conn, buf)]\<rparr>)))"

definition net_disconnect ::
    "(nat \<Rightarrow> 'z tcp_env_scheme action) \<Rightarrow> nat \<Rightarrow> 'z tcp_env_scheme action" where
  "net_disconnect on_disconnect c w =
     (if c = 0 then Inr w
      else bind_outcome (deref_conn c w) (\<lambda>_.
        bind_outcome (when_step (net_disconnect_handler w) (on_disconnect c) w) (\<lambda>w.
          bind_outcome (deref_conn c w) (\<lambda>conn.
            Inr (w\<lparr>connection_data := map_erase (conn_fd conn) (connection_data w),
                   read_events := remove1 (conn_fd conn) (read_events w),
                   closed_fds := closed_fds w @ [conn_fd conn],
                   net_conns := (net_conns w)(c := None)\<rparr>)))))"

section \<open>Event handlers\<close>

text \<open>\<open>failed\<close>: one of \<^verbatim>\<open>BEV_EVENT_ERROR\<close> and \<^verbatim>\<open>BEV_EVENT_EOF\<close> is among the events.\<close>

definition net_on_client_event ::
    "(nat \<Rightarrow> 'z tcp_env_scheme action) \<Rightarrow> int \<Rightarrow> bool \<Rightarrow> 'z tcp_env_scheme action" where
  "net_on_client_event on_disconnect fd failed w =
     (if failed then let (c, w) = connection_at fd w in net_disconnect on_disconnect c w else Inr w)"

definition net_on_read ::
    "(nat \<Rightarrow> 'z tcp_env_scheme action) \<Rightarrow> (nat \<Rightarrow> u8 list \<Rightarrow> 'z tcp_env_scheme action) \<Rightarrow> int
      \<Rightarrow> 'z tcp_env_scheme action" where
  "net_on_read on_disconnect on_data fd w =
     (let (nread, w) = os_call os_read w in
      case nread of
        None \<Rightarrow> let (c, w) = connection_at fd w in net_disconnect on_disconnect c w
      | Some [] \<Rightarrow> let (c, w) = connection_at fd w in net_disconnect on_disconnect c w
      | Some bs \<Rightarrow>
          if net_read_handler w
          then let (c, w) = connection_at fd w in on_data c (take BUFFER_SIZE bs) w
          else Inr w)"

definition accept_client :: "'z tcp_env_scheme \<Rightarrow> int \<times> 'z tcp_env_scheme" where
  "accept_client w = os_call os_accept w"

definition close_fd :: "int \<Rightarrow> 'z tcp_env_scheme \<Rightarrow> 'z tcp_env_scheme" where
  "close_fd fd w = w\<lparr>closed_fds := closed_fds w @ [fd]\<rparr>"

definition net_on_new_connection ::
    "(nat \<Rightarrow> 'z tcp_env_scheme \<Rightarrow> (nat \<times> 'z tcp_env_scheme) outcome) \<Rightarrow> 'z tcp_env_scheme action" where
  "net_on_new_connection on_connect w =
     (let (client, w) = accept_client w;
          (read_event, w) = os_call os_event_new w in
      if \<not> read_event then Inr (close_fd client w)
      else let (result, w) = os_call os_event_add w in
      if result = - 1 then Inr (close_fd client w)
      else let w = w\<lparr>read_events := client # read_events w\<rparr>;
               (buffer_event, w) = os_call os_bufferevent_new w in
      if \<not> buffer_event then Inr w
      else let c = next_conn w;
               w = w\<lparr>net_conns := (net_conns w)(c \<mapsto> \<lparr>conn_fd = client, conn_local = 0\<rparr>),
                     next_conn := Suc c\<rparr> in
        bind_outcome
          (if net_connect_handler w
           then bind_outcome (on_connect c w) (\<lambda>(l, w).
             Inr (w\<lparr>net_conns := (net_conns w)(c \<mapsto> \<lparr>conn_fd = client, conn_local = l\<rparr>)\<rparr>))
           else Inr w)
          (\<lambda>w. Inr (w\<lparr>connection_data := map_put client c (connection_data w)\<rparr>)))"

section \<open>Server\<close>

definition setup_server_socket :: "'z tcp_env_scheme \<Rightarrow> int \<times> 'z tcp_env_scheme" where
  "setup_server_socket w =
     (let (s, w) = os_call os_socket w in
      if s = - 1 then (- 1, w)
      else let (b, w) = os_call os_bind w in
      if b = - 1 then (- 1, close_fd s w)
      else let (l, w) = os_call os_listen w in
      if l = - 1 then (- 1, close_fd s w) else (s, w))"

text \<open>
  \<open>False\<close>: NULL is returned. The result of \<^verbatim>\<open>event_new\<close> is not checked before \<^verbatim>\<open>event_add\<close> uses it.
\<close>

definition net_setup_server :: "'z tcp_env_scheme \<Rightarrow> (bool \<times> 'z tcp_env_scheme) outcome" where
  "net_setup_server w =
     (let w = w\<lparr>connection_data := []\<rparr>;
          (s, w) = setup_server_socket w;
          w = w\<lparr>sock := s\<rparr> in
      if s = - 1 then Inr (False, w)
      else let (event, w) = os_call os_event_new w in
      if \<not> event then Inl (Undefined_behaviour Null_dereference)
      else let (result, w) = os_call os_event_add w in
      if result = - 1 then Inr (False, w)
      else Inr (True, w\<lparr>net_connect_handler := False, net_disconnect_handler := False,
             net_read_handler := False\<rparr>))"

definition net_set_connect_handler :: "'z tcp_env_scheme \<Rightarrow> 'z tcp_env_scheme" where
  "net_set_connect_handler w = w\<lparr>net_connect_handler := True\<rparr>"

definition net_set_disconnect_handler :: "'z tcp_env_scheme \<Rightarrow> 'z tcp_env_scheme" where
  "net_set_disconnect_handler w = w\<lparr>net_disconnect_handler := True\<rparr>"

definition net_set_read_handler :: "'z tcp_env_scheme \<Rightarrow> 'z tcp_env_scheme" where
  "net_set_read_handler w = w\<lparr>net_read_handler := True\<rparr>"

text \<open>
  The loop of \<^verbatim>\<open>net_teardown_server\<close>, which may run for ever: \<open>None\<close>. Its body disconnects the
  connection with the lowest descriptor.
\<close>

partial_function (option) teardown_loop ::
    "(nat \<Rightarrow> 'z tcp_env_scheme action) \<Rightarrow> 'z tcp_env_scheme \<Rightarrow> 'z tcp_env_scheme outcome option" where
  "teardown_loop on_disconnect w =
     (case connection_data w of
        [] \<Rightarrow> Some (Inr w)
      | (fd, c) # _ \<Rightarrow>
          (case net_disconnect on_disconnect c w of
             Inl e \<Rightarrow> Some (Inl e)
           | Inr w \<Rightarrow> teardown_loop on_disconnect w))"

definition net_teardown_server ::
    "(nat \<Rightarrow> 'z tcp_env_scheme action) \<Rightarrow> 'z tcp_env_scheme \<Rightarrow> 'z tcp_env_scheme outcome option" where
  "net_teardown_server on_disconnect w =
     map_option (\<lambda>r. bind_outcome r (\<lambda>w. Inr (close_fd (sock w) (w\<lparr>connection_data := []\<rparr>))))
       (teardown_loop on_disconnect w)"

section \<open>Bookkeeping\<close>

text \<open>
  The descriptors under which NULL is stored, and the consistency of map and objects: every other
  entry is a live connection with this descriptor whose read event is registered, and every live
  connection is entered.
\<close>

definition null_fds :: "'z tcp_env_scheme \<Rightarrow> int set" where
  "null_fds w = {fd. (fd, 0) \<in> set (connection_data w)}"

definition live_at :: "'z tcp_env_scheme \<Rightarrow> int \<Rightarrow> nat \<Rightarrow> bool" where
  "live_at w fd c \<longleftrightarrow> (\<exists>conn. net_conns w c = Some conn \<and> conn_fd conn = fd)"

definition map_ok :: "'z tcp_env_scheme \<Rightarrow> bool" where
  "map_ok w \<longleftrightarrow> sorted (map fst (connection_data w)) \<and> distinct (map fst (connection_data w))
     \<and> distinct (read_events w)
     \<and> (\<forall>(fd, c) \<in> set (connection_data w). c \<noteq> 0 \<longrightarrow> live_at w fd c \<and> fd \<in> set (read_events w))
     \<and> (\<forall>c conn. net_conns w c = Some conn \<longrightarrow>
          (conn_fd conn, c) \<in> set (connection_data w) \<and> 0 < c \<and> c < next_conn w)
     \<and> 0 < next_conn w"

lemma set_map_erase [simp]: "set (map_erase k m) = {p \<in> set m. fst p \<noteq> k}"
  by (auto simp: map_erase_def)

lemma map_erase_sorted:
  "sorted (map fst m) \<Longrightarrow> sorted (map fst (map_erase k m))"
  "distinct (map fst m) \<Longrightarrow> distinct (map fst (map_erase k m))"
  by (auto simp: map_erase_def sorted_filter distinct_map_filter)

lemma map_erase_Cons_hd:
  assumes "distinct (map fst ((k, v) # m))"
  shows "map_erase k ((k, v) # m) = m"
proof -
  have "\<forall>p \<in> set m. fst p \<noteq> k" using assms by force
  then show ?thesis by (simp add: map_erase_def filter_id_conv)
qed

lemma set_map_put [simp]: "set (map_put k v m) = insert (k, v) {p \<in> set m. fst p \<noteq> k}"
  by (auto simp: map_put_def set_insort_key)

lemma distinct_fst_insort:
  "distinct (map fst (insort_key fst p m)) = distinct (map fst (p # m))"
  by (induction m) (auto simp: set_insort_key)

lemma map_put_sorted:
  "sorted (map fst m) \<Longrightarrow> sorted (map fst (map_put k v m))"
  "distinct (map fst m) \<Longrightarrow> distinct (map fst (map_put k v m))"
  by (auto simp: map_put_def sorted_insort_key distinct_fst_insort map_erase_sorted)

lemma map_of_live:
  assumes "map_ok w" and "net_conns w c = Some conn"
  shows "map_of (connection_data w) (conn_fd conn) = Some c" and "c \<noteq> 0"
  using assms by (auto simp: map_ok_def)

lemma connection_at_live:
  assumes "map_ok w" and "net_conns w c = Some conn"
  shows "connection_at (conn_fd conn) w = (c, w)"
  using map_of_live [OF assms] by (simp add: connection_at_def)

lemma live_fd_inj:
  assumes "map_ok w" and "net_conns w c = Some conn" and "net_conns w c' = Some conn'"
    and "conn_fd conn' = conn_fd conn"
  shows "c' = c"
  using map_of_live [OF assms(1,2)] map_of_live [OF assms(1,3)] assms(4) by simp

lemma map_ok_erase:
  assumes m: "map_ok w" and c: "net_conns w c = Some conn"
  shows "map_ok (w\<lparr>connection_data := map_erase (conn_fd conn) (connection_data w),
    read_events := remove1 (conn_fd conn) (read_events w), closed_fds := cs,
    net_conns := (net_conns w)(c := None)\<rparr>)" (is "map_ok ?w")
proof -
  have srt: "sorted (map fst (connection_data ?w))" "distinct (map fst (connection_data ?w))"
    "distinct (read_events ?w)" "0 < next_conn ?w"
    using m by (auto simp: map_ok_def map_erase_sorted)
  have "live_at ?w fd c' \<and> fd \<in> set (read_events ?w)"
    if "(fd, c') \<in> set (connection_data ?w)" "c' \<noteq> 0" for fd c'
  proof -
    from that have in_w: "(fd, c') \<in> set (connection_data w)" "fd \<noteq> conn_fd conn" by auto
    with m \<open>c' \<noteq> 0\<close> have "live_at w fd c'" "fd \<in> set (read_events w)"
      by (auto simp: map_ok_def)
    with in_w(2) c show ?thesis by (auto simp: live_at_def)
  qed
  moreover have "(conn_fd conn', c') \<in> set (connection_data ?w) \<and> 0 < c' \<and> c' < next_conn ?w"
    if "net_conns ?w c' = Some conn'" for c' conn'
  proof -
    from that have c': "c' \<noteq> c" "net_conns w c' = Some conn'" by (auto split: if_splits)
    with live_fd_inj [OF m c c'(2)] have "conn_fd conn' \<noteq> conn_fd conn" by blast
    with m c'(2) show ?thesis by (auto simp: map_ok_def)
  qed
  ultimately show ?thesis using srt unfolding map_ok_def by blast
qed

lemma map_ok_local:
  assumes "map_ok w" and "net_conns w c = Some conn"
  shows "map_ok (w\<lparr>net_conns := (net_conns w)(c \<mapsto> conn\<lparr>conn_local := l\<rparr>)\<rparr>)" (is "map_ok ?w")
proof -
  have "live_at ?w fd c' = live_at w fd c'" for fd c' using assms(2) by (auto simp: live_at_def)
  moreover have "(conn_fd conn', c') \<in> set (connection_data w) \<and> 0 < c' \<and> c' < next_conn w"
    if "net_conns ?w c' = Some conn'" for c' conn'
    using that assms by (auto simp: map_ok_def split: if_splits)
  ultimately show ?thesis using assms(1) unfolding map_ok_def by simp
qed

lemma map_ok_add:
  assumes m: "map_ok w" and f: "fd \<notin> fst ` set (connection_data w)" "fd \<notin> set (read_events w)"
    and w': "connection_data w' = map_put fd (next_conn w) (connection_data w)" "read_events w' = fd # read_events w"
      "net_conns w' = (net_conns w)(next_conn w \<mapsto> \<lparr>conn_fd = fd, conn_local = l\<rparr>)" "next_conn w' = Suc (next_conn w)"
  shows "map_ok w'"
proof -
  have fresh: "net_conns w (next_conn w) = None" using m by (cases "net_conns w (next_conn w)") (auto simp: map_ok_def)
  have "live_at w' fd' c' \<and> fd' \<in> set (read_events w')"
    if "(fd', c') \<in> set (connection_data w')" "c' \<noteq> 0" for fd' c'
    using that m fresh by (auto simp: w' map_ok_def live_at_def)
  moreover have "(conn_fd conn', c') \<in> set (connection_data w') \<and> 0 < c' \<and> c' < next_conn w'"
    if "net_conns w' c' = Some conn'" for c' conn'
    using that m f by (force simp: w' map_ok_def split: if_splits)
  moreover have "sorted (map fst (connection_data w'))" "distinct (map fst (connection_data w'))"
    "distinct (read_events w')" "0 < next_conn w'"
    using m f unfolding w' by (auto simp: map_ok_def map_put_sorted)
  ultimately show ?thesis unfolding map_ok_def by blast
qed

section \<open>The contract of the handlers\<close>

text \<open>
  What the server relies on. The user of the server keeps an object for each connection; \<open>owner\<close>
  tells the connection of each of these objects, and \<open>ginv\<close> is the user's own invariant. The
  handlers leave the server alone; the connect handler makes an object, the disconnect handler
  removes it and may clear the connection's pointer to it. Neither \<open>owner\<close> nor \<open>ginv\<close> depends on the fields of the server.
\<close>

definition same_net :: "'z tcp_env_scheme \<Rightarrow> 'z tcp_env_scheme \<Rightarrow> bool" where
  "same_net w w' \<longleftrightarrow> net_conns w' = net_conns w \<and> next_conn w' = next_conn w
     \<and> connection_data w' = connection_data w \<and> read_events w' = read_events w
     \<and> closed_fds w' = closed_fds w \<and> sock w' = sock w
     \<and> net_connect_handler w' = net_connect_handler w
     \<and> net_disconnect_handler w' = net_disconnect_handler w
     \<and> net_read_handler w' = net_read_handler w
     \<and> tcp_os w' = tcp_os w"

text \<open>Connections and the user's objects correspond one to one.\<close>

definition pairing :: "(nat \<Rightarrow> net_connection_t option) \<Rightarrow> (nat \<Rightarrow> nat option) \<Rightarrow> bool" where
  "pairing conns own \<longleftrightarrow> (\<forall>c conn. conns c = Some conn \<longrightarrow> own (conn_local conn) = Some c)
     \<and> (\<forall>l c. own l = Some c \<longrightarrow> (\<exists>conn. conns c = Some conn \<and> conn_local conn = l))"

lemma pairing_delete:
  assumes "pairing conns own" and "conns c = Some conn"
  shows "pairing (conns(c := None)) (own(conn_local conn := None))"
  using assms unfolding pairing_def by (smt (verit) fun_upd_apply option.distinct(1) option.inject)

lemma pairing_add:
  assumes "pairing conns own" and "conns c = None" and "own (conn_local conn) = None"
  shows "pairing (conns(c \<mapsto> conn)) (own(conn_local conn \<mapsto> c))"
  using assms unfolding pairing_def by (smt (verit) fun_upd_apply option.distinct(1) option.inject)

lemma same_net_map_ok: "same_net w w' \<Longrightarrow> map_ok w' = map_ok w"
  by (simp add: same_net_def map_ok_def live_at_def)

text \<open>
  The descriptor that the operating system will answer next, and whether libevent will give the
  connection its read event and its write buffer.
\<close>

definition next_fd :: "'z tcp_env_scheme \<Rightarrow> int" where
  "next_fd w = os_accept (tcp_os w) (os_calls w)"

definition event_granted :: "'z tcp_env_scheme \<Rightarrow> bool" where
  "event_granted w \<longleftrightarrow> os_event_new (tcp_os w) (Suc (os_calls w))
     \<and> os_event_add (tcp_os w) (Suc (Suc (os_calls w))) \<noteq> - 1"

definition buffer_granted :: "'z tcp_env_scheme \<Rightarrow> bool" where
  "buffer_granted w \<longleftrightarrow> os_bufferevent_new (tcp_os w) (Suc (Suc (Suc (os_calls w))))"

locale net_client =
  fixes on_connect :: "nat \<Rightarrow> 'z tcp_env_scheme \<Rightarrow> (nat \<times> 'z tcp_env_scheme) outcome"
    and on_disconnect :: "nat \<Rightarrow> 'z tcp_env_scheme action"
    and owner :: "'z tcp_env_scheme \<Rightarrow> nat \<Rightarrow> nat option"
    and ginv :: "'z tcp_env_scheme \<Rightarrow> bool"
  assumes connect_ok: "ginv w \<Longrightarrow> net_conns w c \<noteq> None \<Longrightarrow>
      \<exists>l w'. on_connect c w = Inr (l, w') \<and> same_net w w' \<and> ginv w'
        \<and> owner w l = None \<and> owner w' = (owner w)(l \<mapsto> c)"
    and disconnect_ok: "ginv w \<Longrightarrow> net_conns w c = Some conn \<Longrightarrow> c \<noteq> 0 \<Longrightarrow> owner w (conn_local conn) = Some c \<Longrightarrow>
      \<exists>w' l'. on_disconnect c w = Inr w'
        \<and> same_net (w\<lparr>net_conns := (net_conns w)(c \<mapsto> conn\<lparr>conn_local := l'\<rparr>)\<rparr>) w' \<and> ginv w'
        \<and> owner w' = (owner w)(conn_local conn := None)"
    and owner_frame: "owner (w\<lparr>net_conns := x1\<rparr>) = owner w" "owner (w\<lparr>next_conn := x2\<rparr>) = owner w"
      "owner (w\<lparr>connection_data := x3\<rparr>) = owner w" "owner (w\<lparr>read_events := x4\<rparr>) = owner w"
      "owner (w\<lparr>closed_fds := x5\<rparr>) = owner w" "owner (w\<lparr>os_calls := x6\<rparr>) = owner w"
    and ginv_frame: "ginv (w\<lparr>net_conns := x1\<rparr>) = ginv w" "ginv (w\<lparr>next_conn := x2\<rparr>) = ginv w"
      "ginv (w\<lparr>connection_data := x3\<rparr>) = ginv w" "ginv (w\<lparr>read_events := x4\<rparr>) = ginv w"
      "ginv (w\<lparr>closed_fds := x5\<rparr>) = ginv w" "ginv (w\<lparr>os_calls := x6\<rparr>) = ginv w"
begin

definition tcp_inv :: "'z tcp_env_scheme \<Rightarrow> bool" where
  "tcp_inv w \<longleftrightarrow> map_ok w \<and> pairing (net_conns w) (owner w) \<and> ginv w
     \<and> net_connect_handler w \<and> net_disconnect_handler w \<and> net_read_handler w"

lemmas frames = owner_frame ginv_frame

lemma net_disconnect_ok:
  assumes inv: "tcp_inv w" and c: "net_conns w c = Some conn"
  shows "\<exists>w'. net_disconnect on_disconnect c w = Inr w' \<and> tcp_inv w'
    \<and> connection_data w' = map_erase (conn_fd conn) (connection_data w)
    \<and> net_conns w' = (net_conns w)(c := None)
    \<and> read_events w' = remove1 (conn_fd conn) (read_events w)
    \<and> closed_fds w' = closed_fds w @ [conn_fd conn] \<and> sock w' = sock w"
proof -
  from inv c have own: "owner w (conn_local conn) = Some c" and g: "ginv w"
    and m: "map_ok w" and p: "pairing (net_conns w) (owner w)"
    by (auto simp: tcp_inv_def pairing_def)
  from m c have c0: "c \<noteq> 0" by (auto simp: map_ok_def)
  from disconnect_ok [OF g c c0 own] obtain w1 l' where w1: "on_disconnect c w = Inr w1"
    "same_net (w\<lparr>net_conns := (net_conns w)(c \<mapsto> conn\<lparr>conn_local := l'\<rparr>)\<rparr>) w1" "ginv w1"
    "owner w1 = (owner w)(conn_local conn := None)" by blast
  define w' where "w' = w1\<lparr>connection_data := map_erase (conn_fd conn) (connection_data w1),
    read_events := remove1 (conn_fd conn) (read_events w1),
    closed_fds := closed_fds w1 @ [conn_fd conn], net_conns := (net_conns w1)(c := None)\<rparr>"
  have n: "net_conns w1 = (net_conns w)(c \<mapsto> conn\<lparr>conn_local := l'\<rparr>)" "connection_data w1 = connection_data w"
    "read_events w1 = read_events w" "closed_fds w1 = closed_fds w" "sock w1 = sock w"
    using w1(2) by (simp_all add: same_net_def)
  have d: "net_disconnect on_disconnect c w = Inr w'"
    using inv c0 c w1(1) n by (simp add: net_disconnect_def deref_conn_def tcp_inv_def w'_def)
  have "map_ok w1" using same_net_map_ok [OF w1(2)] map_ok_local [OF m c] by simp
  moreover have "net_conns w1 c = Some (conn\<lparr>conn_local := l'\<rparr>)" using n c by simp
  ultimately have "map_ok w'" unfolding w'_def by (auto dest: map_ok_erase)
  moreover have "pairing (net_conns w') (owner w')"
    using pairing_delete [OF p c] w1(4) n(1) by (simp add: w'_def frames)
  moreover have "ginv w'" using w1(3) by (simp add: w'_def frames)
  moreover have "net_connect_handler w' \<and> net_disconnect_handler w' \<and> net_read_handler w'"
    using inv w1(2) by (simp add: tcp_inv_def w'_def same_net_def)
  ultimately have "tcp_inv w'" by (simp add: tcp_inv_def)
  with d n show ?thesis by (auto simp: w'_def)
qed

text \<open>Events on the descriptor of a connection, other than incoming data.\<close>

lemma client_event_ok:
  assumes "tcp_inv w" and "net_conns w c = Some conn"
  shows "\<exists>w'. net_on_client_event on_disconnect (conn_fd conn) failed w = Inr w' \<and> tcp_inv w'
    \<and> net_conns w' = (if failed then (net_conns w)(c := None) else net_conns w)"
proof -
  have "map_ok w" using assms(1) by (simp add: tcp_inv_def)
  from connection_at_live [OF this assms(2)] net_disconnect_ok [OF assms] assms(1)
  show ?thesis by (auto simp: net_on_client_event_def)
qed

lemma tcp_inv_os_calls [simp]: "tcp_inv (w\<lparr>os_calls := n\<rparr>) = tcp_inv w"
  by (simp add: tcp_inv_def map_ok_def live_at_def frames)

lemma eof_ok:
  assumes "tcp_inv w" and c: "net_conns w c = Some conn"
    and "os_read (tcp_os w) (os_calls w) \<in> {None, Some []}"
  shows "\<exists>w'. net_on_read on_disconnect on_data (conn_fd conn) w = Inr w' \<and> tcp_inv w'
    \<and> net_conns w' = (net_conns w)(c := None)"
proof -
  define w1 where "w1 = w\<lparr>os_calls := Suc (os_calls w)\<rparr>"
  have w1: "tcp_inv w1" "net_conns w1 c = Some conn" using assms(1,2) by (simp_all add: w1_def)
  then have "map_ok w1" by (simp add: tcp_inv_def)
  from connection_at_live [OF this w1(2)] net_disconnect_ok [OF w1] assms(3)
  show ?thesis by (auto simp: net_on_read_def os_call_def Let_def simp flip: w1_def)
      (auto simp: w1_def)
qed

text \<open>Incoming data goes to the read handler with the connection of the descriptor.\<close>

lemma data_delivered:
  assumes "tcp_inv w" and c: "net_conns w c = Some conn"
    and "os_read (tcp_os w) (os_calls w) = Some bs" and "bs \<noteq> []" and "length bs \<le> BUFFER_SIZE"
  shows "net_on_read on_disconnect on_data (conn_fd conn) w
    = on_data c bs (w\<lparr>os_calls := Suc (os_calls w)\<rparr>)"
proof -
  define w1 where "w1 = w\<lparr>os_calls := Suc (os_calls w)\<rparr>"
  have w1: "tcp_inv w1" "net_conns w1 c = Some conn" using assms(1,2) by (simp_all add: w1_def)
  then have "map_ok w1" "net_read_handler w1" by (simp_all add: tcp_inv_def)
  with connection_at_live [OF this(1) w1(2)] assms(3-5)
  show ?thesis by (auto simp: net_on_read_def os_call_def Let_def simp flip: w1_def split: list.splits)
qed

text \<open>A new connection.\<close>

lemma new_connection_enters:
  assumes inv: "tcp_inv w" and f: "fd \<notin> fst ` set (connection_data w)" "fd \<notin> set (read_events w)"
  shows "\<exists>l w'. on_connect (next_conn w) (w\<lparr>read_events := fd # read_events w,
        net_conns := (net_conns w)(next_conn w \<mapsto> \<lparr>conn_fd = fd, conn_local = 0\<rparr>),
        next_conn := Suc (next_conn w)\<rparr>) = Inr (l, w')
    \<and> (let w'' = w'\<lparr>net_conns := (net_conns w')(next_conn w \<mapsto> \<lparr>conn_fd = fd, conn_local = l\<rparr>),
         connection_data := map_put fd (next_conn w) (connection_data w')\<rparr> in
       tcp_inv w'' \<and> connection_data w'' = map_put fd (next_conn w) (connection_data w)
       \<and> read_events w'' = fd # read_events w
       \<and> net_conns w'' = (net_conns w)(next_conn w \<mapsto> \<lparr>conn_fd = fd, conn_local = l\<rparr>))"
proof -
  let ?c = "next_conn w"
  define w1 where "w1 = w\<lparr>read_events := fd # read_events w,
        net_conns := (net_conns w)(?c \<mapsto> \<lparr>conn_fd = fd, conn_local = 0\<rparr>), next_conn := Suc ?c\<rparr>"
  from inv have m: "map_ok w" and p: "pairing (net_conns w) (owner w)" and g: "ginv w"
    and h: "net_connect_handler w" "net_disconnect_handler w" "net_read_handler w"
    by (simp_all add: tcp_inv_def)
  have fresh: "net_conns w ?c = None"
  proof (cases "net_conns w ?c")
    case (Some conn)
    with m have "?c < ?c" by (auto simp: map_ok_def)
    then show ?thesis by simp
  qed
  have g1: "ginv w1" and "net_conns w1 ?c \<noteq> None" and o1: "owner w1 = owner w"
    using g by (simp_all add: w1_def frames)
  then obtain l w' where w': "on_connect ?c w1 = Inr (l, w')" "same_net w1 w'" "ginv w'"
    "owner w1 l = None" "owner w' = (owner w1)(l \<mapsto> ?c)" using connect_ok by blast
  let ?conn = "\<lparr>conn_fd = fd, conn_local = l\<rparr>"
  define w'' where "w'' = w'\<lparr>net_conns := (net_conns w')(?c \<mapsto> ?conn),
    connection_data := map_put fd ?c (connection_data w')\<rparr>"
  have fields: "connection_data w'' = map_put fd ?c (connection_data w)"
    "read_events w'' = fd # read_events w" "net_conns w'' = (net_conns w)(?c \<mapsto> ?conn)"
    "next_conn w'' = Suc ?c"
    "net_connect_handler w''" "net_disconnect_handler w''" "net_read_handler w''"
    using w'(2) h by (simp_all add: same_net_def w''_def w1_def)
  have "map_ok w''" by (rule map_ok_add [OF m f fields(1-4)])
  moreover have "pairing (net_conns w'') (owner w'')"
    using pairing_add [of "net_conns w" "owner w" ?c ?conn] p fresh w'(4,5) o1
    by (simp add: w''_def frames fields(3) [unfolded w''_def, simplified])
  moreover have "ginv w''" using w'(3) by (simp add: w''_def frames)
  ultimately have "tcp_inv w''" using fields by (simp add: tcp_inv_def)
  with w'(1) fields show ?thesis unfolding w1_def w''_def Let_def by blast
qed

lemma tcp_inv_closed [simp]: "tcp_inv (w\<lparr>closed_fds := x\<rparr>) = tcp_inv w"
  by (simp add: tcp_inv_def map_ok_def live_at_def frames)

lemma tcp_inv_event:
  "fd \<notin> set (read_events w) \<Longrightarrow> tcp_inv w \<Longrightarrow> tcp_inv (w\<lparr>read_events := fd # read_events w\<rparr>)"
  by (auto simp: tcp_inv_def map_ok_def live_at_def frames)

lemma refused_ok:
  assumes "tcp_inv w" and "\<not> event_granted w"
  shows "\<exists>w'. net_on_new_connection on_connect w = Inr w' \<and> tcp_inv w'
    \<and> net_conns w' = net_conns w \<and> connection_data w' = connection_data w
    \<and> read_events w' = read_events w \<and> closed_fds w' = closed_fds w @ [next_fd w]"
  using assms
  by (auto simp: net_on_new_connection_def accept_client_def os_call_def event_granted_def
      next_fd_def close_fd_def Let_def)

lemma unbuffered_ok:
  assumes "tcp_inv w" and "next_fd w \<notin> set (read_events w)"
    and "event_granted w" and "\<not> buffer_granted w"
  shows "\<exists>w'. net_on_new_connection on_connect w = Inr w' \<and> tcp_inv w'
    \<and> net_conns w' = net_conns w \<and> connection_data w' = connection_data w
    \<and> read_events w' = next_fd w # read_events w \<and> closed_fds w' = closed_fds w"
  using assms tcp_inv_event [OF assms(2,1)]
  by (auto simp: net_on_new_connection_def accept_client_def os_call_def event_granted_def
      buffer_granted_def next_fd_def Let_def)

lemma accepted_ok:
  assumes "tcp_inv w" and "next_fd w \<notin> fst ` set (connection_data w)"
    and "next_fd w \<notin> set (read_events w)" and "event_granted w" and "buffer_granted w"
  shows "\<exists>w' l. net_on_new_connection on_connect w = Inr w' \<and> tcp_inv w'
    \<and> net_conns w' = (net_conns w)(next_conn w \<mapsto> \<lparr>conn_fd = next_fd w, conn_local = l\<rparr>)
    \<and> connection_data w' = map_put (next_fd w) (next_conn w) (connection_data w)
    \<and> read_events w' = next_fd w # read_events w"
proof -
  define w1 where "w1 = w\<lparr>os_calls := Suc (Suc (Suc (Suc (os_calls w))))\<rparr>"
  have "tcp_inv w1" "next_fd w \<notin> fst ` set (connection_data w1)" "next_fd w \<notin> set (read_events w1)"
    using assms(1-3) by (simp_all add: w1_def)
  from new_connection_enters [OF this] obtain l w' where e: "on_connect (next_conn w1)
      (w1\<lparr>read_events := next_fd w # read_events w1,
        net_conns := (net_conns w1)(next_conn w1 \<mapsto> \<lparr>conn_fd = next_fd w, conn_local = 0\<rparr>),
        next_conn := Suc (next_conn w1)\<rparr>) = Inr (l, w')"
    and r: "let w'' = w'\<lparr>net_conns := (net_conns w')(next_conn w1 \<mapsto> \<lparr>conn_fd = next_fd w, conn_local = l\<rparr>),
         connection_data := map_put (next_fd w) (next_conn w1) (connection_data w')\<rparr> in
       tcp_inv w'' \<and> connection_data w'' = map_put (next_fd w) (next_conn w1) (connection_data w1)
       \<and> read_events w'' = next_fd w # read_events w1
       \<and> net_conns w'' = (net_conns w1)(next_conn w1 \<mapsto> \<lparr>conn_fd = next_fd w, conn_local = l\<rparr>)"
    by blast
  have h: "net_connect_handler w" using assms(1) by (simp add: tcp_inv_def)
  have swap: "w\<lparr>read_events := x, os_calls := y\<rparr> = w\<lparr>os_calls := y, read_events := x\<rparr>" for x y by simp
  from e r assms(4,5) h show ?thesis
    by (auto simp: net_on_new_connection_def accept_client_def os_call_def event_granted_def
        buffer_granted_def next_fd_def w1_def Let_def swap)
qed

text \<open>Teardown: every connection is closed, in the order of the descriptors, and the loop ends.\<close>

lemma teardown_ok:
  assumes "tcp_inv w" and "null_fds w = {}"
  shows "\<exists>w'. teardown_loop on_disconnect w = Some (Inr w') \<and> tcp_inv w'
    \<and> connection_data w' = [] \<and> net_conns w' = Map.empty
    \<and> closed_fds w' = closed_fds w @ map fst (connection_data w) \<and> sock w' = sock w"
  using assms
proof (induction "length (connection_data w)" arbitrary: w)
  case 0
  have "net_conns w = Map.empty"
  proof
    fix c show "net_conns w c = None"
      using 0 by (cases "net_conns w c") (auto simp: tcp_inv_def map_ok_def)
  qed
  with 0 show ?case by (subst teardown_loop.simps) simp
next
  case (Suc n)
  then obtain fd c rest where cd: "connection_data w = (fd, c) # rest"
    by (cases "connection_data w") auto
  from Suc.prems(2) cd have "c \<noteq> 0" by (auto simp: null_fds_def)
  with Suc.prems(1) cd obtain conn where conn: "net_conns w c = Some conn" "conn_fd conn = fd"
    by (auto simp: tcp_inv_def map_ok_def live_at_def)
  have er: "map_erase fd (connection_data w) = rest"
    using Suc.prems(1) unfolding cd tcp_inv_def map_ok_def by (intro map_erase_Cons_hd) simp
  from net_disconnect_ok [OF Suc.prems(1) conn(1)] conn(2) er obtain w1 where
    w1: "net_disconnect on_disconnect c w = Inr w1" "tcp_inv w1" "connection_data w1 = rest"
      "closed_fds w1 = closed_fds w @ [fd]" "sock w1 = sock w" by auto
  have "null_fds w1 = {}" using Suc.prems(2) by (auto simp: null_fds_def w1(3) cd)
  with Suc.hyps(1) [of w1] w1 cd Suc.hyps(2) show ?case
    by (subst teardown_loop.simps) auto
qed

text \<open>With a NULL entry it does not: \<^verbatim>\<open>net_disconnect(NULL)\<close> returns without erasing anything.\<close>

lemma null_survives:
  assumes inv: "tcp_inv w" and fd: "fd \<in> null_fds w" and cd: "connection_data w = (fd', c) # rest"
  shows "\<exists>w'. net_disconnect on_disconnect c w = Inr w' \<and> tcp_inv w' \<and> fd \<in> null_fds w'"
proof (cases "c = 0")
  case True
  with inv fd show ?thesis by (simp add: net_disconnect_def)
next
  case False
  from inv have m: "map_ok w" by (simp add: tcp_inv_def)
  with False cd obtain conn where conn: "net_conns w c = Some conn" "conn_fd conn = fd'"
    by (auto simp: map_ok_def live_at_def)
  have "fd \<noteq> fd'"
    using fd False m cd by (auto simp: null_fds_def map_ok_def) (metis fst_conv image_eqI)
  with net_disconnect_ok [OF inv conn(1)] conn(2) fd show ?thesis
    by (auto simp: null_fds_def)
qed

lemma teardown_stuck:
  assumes "tcp_inv w" and "fd \<in> null_fds w"
  shows "teardown_loop on_disconnect w = None"
proof (rule ccontr)
  assume "teardown_loop on_disconnect w \<noteq> None"
  then obtain y where y: "teardown_loop on_disconnect w = Some y" by auto
  have "on_disconnect = on_disconnect \<longrightarrow> \<not> (tcp_inv w \<and> fd \<in> null_fds w)"
  proof (rule teardown_loop.raw_induct [where P = "\<lambda>f w y. f = on_disconnect \<longrightarrow> \<not> (tcp_inv w \<and> fd \<in> null_fds w)",
        OF _ y], intro impI notI)
    fix loop f w y
    assume ih: "\<And>f w y. loop f w = Some y \<Longrightarrow> f = on_disconnect \<longrightarrow> \<not> (tcp_inv w \<and> fd \<in> null_fds w)"
      and step: "(case connection_data w of [] \<Rightarrow> Some (Inr w)
          | (fd, c) # _ \<Rightarrow> (case net_disconnect f c w of Inl e \<Rightarrow> Some (Inl e) | Inr w \<Rightarrow> loop f w)) = Some y"
      and f: "f = on_disconnect" and a: "tcp_inv w \<and> fd \<in> null_fds w"
    from a obtain fd' c rest where cd: "connection_data w = (fd', c) # rest"
      by (cases "connection_data w") (auto simp: null_fds_def)
    from null_survives [OF _ _ cd] a obtain w' where
      "net_disconnect on_disconnect c w = Inr w'" "tcp_inv w'" "fd \<in> null_fds w'" by blast
    with ih [of f w' y] step f cd show False by simp
  qed
  with assms show False by simp
qed

end

end
