(* ===== verification/Rtc3d.thy ===== *)
theory Rtc3d
  imports Net_Server
begin

text \<open>
  The RTC3D protocol, \<^verbatim>\<open>librtc3d/rtc3d.cc\<close>: one object per connection, in a store of its own like the
  connections of the TCP server; reassembly of packets, byte by byte; replies. What the sources
  call through a pointer, the handlers of the user of the library, are arguments.
\<close>

section \<open>Data\<close>

text \<open>A block of memory from \<^verbatim>\<open>malloc\<close>, and a pointer that may lead to one.\<close>

record block =
  block_len :: nat
  block_at :: "nat \<Rightarrow> u8 option"

datatype data_ptr = Data_null | Data_freed | Data_block block

record rtc3d_connection_t =
  net_conn :: nat
  user_context :: nat
  size_left :: u8
  packet_size :: u32
  data_left :: u8
  packet_data :: data_ptr
  byte_order :: byte_order_t

record rtc3d_env = tcp_env +
  rtc3d_conns :: "nat \<rightharpoonup> rtc3d_connection_t"
  next_rtc3d :: nat
  rtc3d_connect_handler :: bool
  rtc3d_disconnect_handler :: bool
  rtc3d_error_handler :: bool
  rtc3d_command_handler :: bool
  rtc3d_data_handler :: bool

section \<open>Memory\<close>

definition deref_rtc3d :: "nat \<Rightarrow> 'z rtc3d_env_scheme \<Rightarrow> rtc3d_connection_t outcome" where
  "deref_rtc3d l w =
     (if l = 0 then Inl (Undefined_behaviour Null_dereference)
      else case rtc3d_conns w l of
        None \<Rightarrow> Inl (Undefined_behaviour Use_after_free)
      | Some rc \<Rightarrow> Inr rc)"

definition put_rtc3d :: "nat \<Rightarrow> rtc3d_connection_t \<Rightarrow> 'z rtc3d_env_scheme \<Rightarrow> 'z rtc3d_env_scheme" where
  "put_rtc3d l rc w = w\<lparr>rtc3d_conns := (rtc3d_conns w)(l \<mapsto> rc)\<rparr>"

fun deref_data :: "data_ptr \<Rightarrow> block outcome" where
  "deref_data Data_null = Inl (Undefined_behaviour Null_dereference)"
| "deref_data Data_freed = Inl (Undefined_behaviour Use_after_free)"
| "deref_data (Data_block b) = Inr b"

definition load8 :: "nat \<Rightarrow> block \<Rightarrow> u8 outcome" where
  "load8 i b =
     (if block_len b \<le> i then Inl (Undefined_behaviour Out_of_bounds)
      else case block_at b i of
        None \<Rightarrow> Inl (Undefined_behaviour Indeterminate_read)
      | Some x \<Rightarrow> Inr x)"

definition store8 :: "nat \<Rightarrow> u8 \<Rightarrow> block \<Rightarrow> block outcome" where
  "store8 i x b =
     (if block_len b \<le> i then Inl (Undefined_behaviour Out_of_bounds)
      else Inr (b\<lparr>block_at := (block_at b)(i \<mapsto> x)\<rparr>))"

text \<open>The zero-terminated string at the start of a piece of memory.\<close>

fun c_string :: "u8 option list \<Rightarrow> u8 list outcome" where
  "c_string [] = Inl (Undefined_behaviour Out_of_bounds)"
| "c_string (None # bs) = Inl (Undefined_behaviour Indeterminate_read)"
| "c_string (Some b # bs) =
     (if b = 0 then Inr [] else bind_outcome (c_string bs) (\<lambda>s. Inr (b # s)))"

definition string_at :: "nat \<Rightarrow> block \<Rightarrow> u8 list outcome" where
  "string_at i b = c_string (map (block_at b) [i ..< block_len b])"

text \<open>\<^verbatim>\<open>((char *) &size)[k] = x\<close> on a little-endian host.\<close>

definition set_byte :: "nat \<Rightarrow> u8 \<Rightarrow> u32 \<Rightarrow> u32" where
  "set_byte k x v = (v AND NOT (push_bit (8 * k) 0xFF)) OR push_bit (8 * k) (ucast x)"

section \<open>Handlers for the TCP server\<close>

text \<open>
  The value-initialised object (\<^verbatim>\<open>new rtc3d_connection_t()\<close>), with the assignments that follow.
  \<^verbatim>\<open>new\<close> is taken to succeed.
\<close>

definition new_rtc3d_connection :: "nat \<Rightarrow> rtc3d_connection_t" where
  "new_rtc3d_connection c =
     \<lparr>net_conn = c, user_context = 0, size_left = 4, packet_size = 0, data_left = 0,
      packet_data = Data_null, byte_order = byo_big_endian\<rparr>"

definition connect_handler ::
    "(nat \<Rightarrow> 'z rtc3d_env_scheme \<Rightarrow> (nat \<times> 'z rtc3d_env_scheme) outcome) \<Rightarrow> nat
      \<Rightarrow> 'z rtc3d_env_scheme \<Rightarrow> (nat \<times> 'z rtc3d_env_scheme) outcome" where
  "connect_handler user_connect c w =
     (let l = next_rtc3d w;
          w = put_rtc3d l (new_rtc3d_connection c) (w\<lparr>next_rtc3d := Suc l\<rparr>) in
      if rtc3d_connect_handler w
      then bind_outcome (user_connect l w) (\<lambda>(ctx, w).
        bind_outcome (deref_rtc3d l w) (\<lambda>rc. Inr (l, put_rtc3d l (rc\<lparr>user_context := ctx\<rparr>) w)))
      else Inr (l, w))"

text \<open>\<^verbatim>\<open>free\<close>, applied to what \<^verbatim>\<open>new\<close> returned, is taken to release it.\<close>

definition free_rtc3d :: "nat \<Rightarrow> 'z rtc3d_env_scheme action" where
  "free_rtc3d l w =
     (if l = 0 then Inr w
      else bind_outcome (deref_rtc3d l w) (\<lambda>_. Inr (w\<lparr>rtc3d_conns := (rtc3d_conns w)(l := None)\<rparr>)))"

definition disconnect_handler ::
    "(nat \<Rightarrow> 'z rtc3d_env_scheme action) \<Rightarrow> nat \<Rightarrow> 'z rtc3d_env_scheme action" where
  "disconnect_handler user_disconnect c w =
     bind_outcome (net_get_local_data c w) (\<lambda>l.
       bind_outcome (when_step (rtc3d_disconnect_handler w) (user_disconnect l) w) (\<lambda>w.
         bind_outcome (net_get_local_data c w) (\<lambda>l.
           bind_outcome (free_rtc3d l w) (\<lambda>w.
             bind_outcome (deref_conn c w) (\<lambda>conn.
               Inr (w\<lparr>net_conns := (net_conns w)(c \<mapsto> conn\<lparr>conn_local := 0\<rparr>)\<rparr>))))))"

definition get_uint32 :: "rtc3d_connection_t \<Rightarrow> nat \<Rightarrow> u32 outcome" where
  "get_uint32 rc off =
     bind_outcome (deref_data (packet_data rc)) (\<lambda>b.
       bind_outcome (load8 off b) (\<lambda>b0. bind_outcome (load8 (off + 1) b) (\<lambda>b1.
       bind_outcome (load8 (off + 2) b) (\<lambda>b2. bind_outcome (load8 (off + 3) b) (\<lambda>b3.
         Inr (htonl (le32 b0 b1 b2 b3)))))))"

text \<open>
  The five other packet types, and unknown ones, are ignored. The text of a command is read for the
  log message, too.
\<close>

definition packet_handler ::
    "(nat \<Rightarrow> u8 list \<Rightarrow> 'z rtc3d_env_scheme action) \<Rightarrow> nat \<Rightarrow> 'z rtc3d_env_scheme action" where
  "packet_handler command l w =
     bind_outcome (deref_rtc3d l w) (\<lambda>rc.
       bind_outcome (deref_conn (net_conn rc) w) (\<lambda>_.
         bind_outcome (get_uint32 rc 0) (\<lambda>type.
           if type = PTYPE_COMMAND
           then bind_outcome (deref_data (packet_data rc)) (\<lambda>b.
             bind_outcome (store8 (unat (packet_size rc)) 0 b) (\<lambda>b.
               let w = put_rtc3d l (rc\<lparr>packet_data := Data_block b\<rparr>) w in
               bind_outcome (string_at 4 b) (\<lambda>text.
                 when_step (rtc3d_command_handler w) (command l text) w)))
           else Inr w)))"

text \<open>The body of the loop of \<^verbatim>\<open>read_handler\<close>, in its two parts.\<close>

definition read_header_byte ::
    "nat \<Rightarrow> u8 \<Rightarrow> rtc3d_connection_t \<Rightarrow> 'z rtc3d_env_scheme \<Rightarrow> 'z rtc3d_env_scheme" where
  "read_header_byte l x rc w =
     (let rc = rc\<lparr>packet_size := set_byte (unat (size_left rc) - 1) x (packet_size rc),
                  size_left := size_left rc - 1\<rparr> in
      if size_left rc = 0
      then let rc = rc\<lparr>packet_size := packet_size rc - 4\<rparr>;
               (granted, w) = os_call os_malloc w;
               p = (if granted
                    then Data_block \<lparr>block_len = unat (packet_size rc + 1), block_at = \<lambda>_. None\<rparr>
                    else Data_null) in
        put_rtc3d l (rc\<lparr>packet_data := p, data_left := ucast (packet_size rc)\<rparr>) w
      else put_rtc3d l rc w)"

definition read_payload_byte ::
    "(nat \<Rightarrow> u8 list \<Rightarrow> 'z rtc3d_env_scheme action) \<Rightarrow> nat \<Rightarrow> u8 \<Rightarrow> rtc3d_connection_t
      \<Rightarrow> 'z rtc3d_env_scheme action" where
  "read_payload_byte command l x rc w =
     bind_outcome (deref_data (packet_data rc)) (\<lambda>b.
       bind_outcome (store8 (unat (packet_size rc - ucast (data_left rc))) x b) (\<lambda>b.
         let rc = rc\<lparr>packet_data := Data_block b, data_left := data_left rc - 1\<rparr>;
             w = put_rtc3d l rc w in
         if data_left rc = 0
         then bind_outcome (packet_handler command l w) (\<lambda>w.
           bind_outcome (deref_rtc3d l w) (\<lambda>rc.
             Inr (put_rtc3d l (rc\<lparr>packet_data := Data_freed, packet_size := 0, size_left := 4\<rparr>) w)))
         else Inr w))"

definition read_byte ::
    "(nat \<Rightarrow> u8 list \<Rightarrow> 'z rtc3d_env_scheme action) \<Rightarrow> nat \<Rightarrow> u8 \<Rightarrow> 'z rtc3d_env_scheme action" where
  "read_byte command l x w =
     bind_outcome (deref_rtc3d l w) (\<lambda>rc.
       if size_left rc \<noteq> 0 then Inr (read_header_byte l x rc w)
       else if data_left rc \<noteq> 0 then read_payload_byte command l x rc w
       else Inr w)"

definition read_handler ::
    "(nat \<Rightarrow> u8 list \<Rightarrow> 'z rtc3d_env_scheme action) \<Rightarrow> nat \<Rightarrow> u8 list \<Rightarrow> 'z rtc3d_env_scheme action" where
  "read_handler command c bs w =
     bind_outcome (net_get_local_data c w) (\<lambda>l. run_steps (map (read_byte command l) bs) w)"

section \<open>Server functions\<close>

definition rtc3d_setup_server :: "'z rtc3d_env_scheme \<Rightarrow> (bool \<times> 'z rtc3d_env_scheme) outcome" where
  "rtc3d_setup_server w =
     (let w = w\<lparr>rtc3d_connect_handler := False, rtc3d_disconnect_handler := False,
                rtc3d_error_handler := False, rtc3d_command_handler := False,
                rtc3d_data_handler := False\<rparr> in
      bind_outcome (net_setup_server w) (\<lambda>(created, w).
        if \<not> created then Inr (False, w)
        else Inr (True, net_set_read_handler (net_set_disconnect_handler (net_set_connect_handler w)))))"

definition rtc3d_teardown_server ::
    "(nat \<Rightarrow> 'z rtc3d_env_scheme action) \<Rightarrow> 'z rtc3d_env_scheme \<Rightarrow> 'z rtc3d_env_scheme outcome option" where
  "rtc3d_teardown_server user_disconnect w = net_teardown_server (disconnect_handler user_disconnect) w"

definition rtc3d_set_connect_handler :: "'z rtc3d_env_scheme \<Rightarrow> 'z rtc3d_env_scheme" where
  "rtc3d_set_connect_handler w = w\<lparr>rtc3d_connect_handler := True\<rparr>"

definition rtc3d_set_disconnect_handler :: "'z rtc3d_env_scheme \<Rightarrow> 'z rtc3d_env_scheme" where
  "rtc3d_set_disconnect_handler w = w\<lparr>rtc3d_disconnect_handler := True\<rparr>"

definition rtc3d_set_error_handler :: "'z rtc3d_env_scheme \<Rightarrow> 'z rtc3d_env_scheme" where
  "rtc3d_set_error_handler w = w\<lparr>rtc3d_error_handler := True\<rparr>"

definition rtc3d_set_command_handler :: "'z rtc3d_env_scheme \<Rightarrow> 'z rtc3d_env_scheme" where
  "rtc3d_set_command_handler w = w\<lparr>rtc3d_command_handler := True\<rparr>"

definition rtc3d_set_data_handler :: "'z rtc3d_env_scheme \<Rightarrow> 'z rtc3d_env_scheme" where
  "rtc3d_set_data_handler w = w\<lparr>rtc3d_data_handler := True\<rparr>"

section \<open>Connection functions\<close>

definition rtc3d_set_byte_order :: "nat \<Rightarrow> byte_order_t \<Rightarrow> 'z rtc3d_env_scheme action" where
  "rtc3d_set_byte_order l bo w =
     bind_outcome (deref_rtc3d l w) (\<lambda>rc. Inr (put_rtc3d l (rc\<lparr>byte_order := bo\<rparr>) w))"

text \<open>The user's context is the rest of the state; only the two pointers on the way to it are followed.\<close>

definition rtc3d_get_global_data :: "nat \<Rightarrow> 'z rtc3d_env_scheme \<Rightarrow> unit outcome" where
  "rtc3d_get_global_data l w =
     bind_outcome (deref_rtc3d l w) (\<lambda>rc. bind_outcome (deref_conn (net_conn rc) w) (\<lambda>_. Inr ()))"

definition rtc3d_get_local_data :: "nat \<Rightarrow> 'z rtc3d_env_scheme \<Rightarrow> nat outcome" where
  "rtc3d_get_local_data l w = bind_outcome (deref_rtc3d l w) (\<lambda>rc. Inr (user_context rc))"

definition rtc3d_disconnect ::
    "(nat \<Rightarrow> 'z rtc3d_env_scheme action) \<Rightarrow> nat \<Rightarrow> 'z rtc3d_env_scheme action" where
  "rtc3d_disconnect user_disconnect l w =
     bind_outcome (deref_rtc3d l w) (\<lambda>rc.
       net_disconnect (disconnect_handler user_disconnect) (net_conn rc) w)"

text \<open>A packet is built in a block from \<^verbatim>\<open>malloc\<close>; without it nothing is sent.\<close>

definition send_packet :: "nat \<Rightarrow> buffer \<Rightarrow> 'z rtc3d_env_scheme action" where
  "send_packet l buf w =
     (let (granted, w) = os_call os_malloc w in
      if \<not> granted then Inr w
      else bind_outcome (deref_rtc3d l w) (\<lambda>rc. net_send (net_conn rc) buf w))"

definition rtc3d_send_command :: "nat \<Rightarrow> u8 list \<Rightarrow> 'z rtc3d_env_scheme action" where
  "rtc3d_send_command l command w = send_packet l (rtc3d_command_packet command) w"

definition rtc3d_send_error :: "nat \<Rightarrow> u8 list \<Rightarrow> 'z rtc3d_env_scheme action" where
  "rtc3d_send_error l error w = send_packet l (rtc3d_error_packet error) w"

definition rtc3d_send_data ::
    "nat \<Rightarrow> u32 \<Rightarrow> u64 \<Rightarrow> float_bits \<Rightarrow> 'z rtc3d_env_scheme action" where
  "rtc3d_send_data l frame tm point w =
     bind_outcome (deref_rtc3d l w) (\<lambda>rc. net_send (net_conn rc) (rtc3d_data_packet frame tm point) w)"

section \<open>The handlers fulfil the contract of the TCP server\<close>

definition rtc3d_owner :: "'z rtc3d_env_scheme \<Rightarrow> nat \<Rightarrow> nat option" where
  "rtc3d_owner w l = map_option net_conn (rtc3d_conns w l)"

definition addresses_ok :: "'z rtc3d_env_scheme \<Rightarrow> bool" where
  "addresses_ok w \<longleftrightarrow> 0 < next_rtc3d w
     \<and> (\<forall>l rc. rtc3d_conns w l = Some rc \<longrightarrow> 0 < l \<and> l < next_rtc3d w)"

definition same_rtc3d :: "'z rtc3d_env_scheme \<Rightarrow> 'z rtc3d_env_scheme \<Rightarrow> bool" where
  "same_rtc3d w w' \<longleftrightarrow> rtc3d_conns w' = rtc3d_conns w \<and> next_rtc3d w' = next_rtc3d w
     \<and> rtc3d_connect_handler w' = rtc3d_connect_handler w
     \<and> rtc3d_disconnect_handler w' = rtc3d_disconnect_handler w
     \<and> rtc3d_command_handler w' = rtc3d_command_handler w"

text \<open>
  The contract of the library's user, who installs a disconnect handler and a command handler but
  no connect handler: the disconnect handler touches neither server nor protocol, and afterwards
  the user has no more use for the connection.
\<close>

locale rtc3d_user =
  fixes user_connect :: "nat \<Rightarrow> 'z rtc3d_env_scheme \<Rightarrow> (nat \<times> 'z rtc3d_env_scheme) outcome"
    and user_disconnect :: "nat \<Rightarrow> 'z rtc3d_env_scheme action"
    and uinv :: "'z rtc3d_env_scheme \<Rightarrow> bool"
  assumes user_disconnect_ok: "uinv w \<Longrightarrow> l \<noteq> 0 \<Longrightarrow> rtc3d_conns w l = Some rc \<Longrightarrow>
      net_conn rc \<noteq> 0 \<Longrightarrow> net_conns w (net_conn rc) \<noteq> None \<Longrightarrow>
      \<exists>w'. user_disconnect l w = Inr w' \<and> same_net w w' \<and> same_rtc3d w w'
        \<and> uinv (w'\<lparr>rtc3d_conns := (rtc3d_conns w')(l := None)\<rparr>)"
    and uinv_new: "uinv w \<Longrightarrow> rtc3d_conns w l = None \<Longrightarrow>
      uinv (w\<lparr>next_rtc3d := n, rtc3d_conns := (rtc3d_conns w)(l \<mapsto> new_rtc3d_connection c)\<rparr>)"
    and uinv_frame: "uinv (w\<lparr>net_conns := x1\<rparr>) = uinv w" "uinv (w\<lparr>next_conn := x2\<rparr>) = uinv w"
      "uinv (w\<lparr>connection_data := x3\<rparr>) = uinv w" "uinv (w\<lparr>read_events := x4\<rparr>) = uinv w"
      "uinv (w\<lparr>closed_fds := x5\<rparr>) = uinv w" "uinv (w\<lparr>os_calls := x6\<rparr>) = uinv w"
      "uinv (w\<lparr>written := x7\<rparr>) = uinv w"
begin

definition rtc3d_inv :: "'z rtc3d_env_scheme \<Rightarrow> bool" where
  "rtc3d_inv w \<longleftrightarrow> uinv w \<and> addresses_ok w \<and> \<not> rtc3d_connect_handler w
     \<and> rtc3d_disconnect_handler w \<and> rtc3d_command_handler w"

lemma connect_contract:
  assumes "rtc3d_inv w"
  shows "\<exists>l w'. connect_handler user_connect c w = Inr (l, w') \<and> same_net w w' \<and> rtc3d_inv w'
        \<and> rtc3d_owner w l = None \<and> rtc3d_owner w' = (rtc3d_owner w)(l \<mapsto> c)"
proof -
  let ?l = "next_rtc3d w"
  let ?w = "put_rtc3d ?l (new_rtc3d_connection c) (w\<lparr>next_rtc3d := Suc ?l\<rparr>)"
  have fresh: "rtc3d_conns w ?l = None"
    using assms by (cases "rtc3d_conns w ?l") (auto simp: rtc3d_inv_def addresses_ok_def)
  have "connect_handler user_connect c w = Inr (?l, ?w)"
    using assms by (simp add: connect_handler_def rtc3d_inv_def put_rtc3d_def Let_def)
  moreover have "rtc3d_inv ?w"
    using assms uinv_new [OF _ fresh, where n = "Suc ?l" and c = c]
    by (auto simp: rtc3d_inv_def addresses_ok_def put_rtc3d_def split: if_splits)
  moreover have "same_net w ?w" by (simp add: same_net_def put_rtc3d_def)
  moreover have "rtc3d_owner ?w = (rtc3d_owner w)(?l \<mapsto> c)"
    by (rule ext) (simp add: rtc3d_owner_def put_rtc3d_def new_rtc3d_connection_def)
  ultimately show ?thesis using fresh by (auto simp: rtc3d_owner_def)
qed

lemma disconnect_contract:
  assumes inv: "rtc3d_inv w" and c: "net_conns w c = Some conn" "c \<noteq> 0"
    and own: "rtc3d_owner w (conn_local conn) = Some c"
  shows "\<exists>w' l'. disconnect_handler user_disconnect c w = Inr w'
    \<and> same_net (w\<lparr>net_conns := (net_conns w)(c \<mapsto> conn\<lparr>conn_local := l'\<rparr>)\<rparr>) w' \<and> rtc3d_inv w'
    \<and> rtc3d_owner w' = (rtc3d_owner w)(conn_local conn := None)"
proof -
  let ?l = "conn_local conn"
  from own obtain rc where rc: "rtc3d_conns w ?l = Some rc" "net_conn rc = c" by (auto simp: rtc3d_owner_def)
  with inv have l: "?l \<noteq> 0" by (auto simp: rtc3d_inv_def addresses_ok_def)
  from user_disconnect_ok [of w ?l rc] inv rc c l obtain w1 where w1: "user_disconnect ?l w = Inr w1"
    "same_net w w1" "same_rtc3d w w1" "uinv (w1\<lparr>rtc3d_conns := (rtc3d_conns w1)(?l := None)\<rparr>)"
    by (auto simp: rtc3d_inv_def)
  let ?w2 = "w1\<lparr>rtc3d_conns := (rtc3d_conns w1)(?l := None)\<rparr>"
  let ?w' = "?w2\<lparr>net_conns := (net_conns w1)(c \<mapsto> conn\<lparr>conn_local := 0\<rparr>)\<rparr>"
  have "disconnect_handler user_disconnect c w = Inr ?w'"
    using inv c l rc w1
    by (simp add: disconnect_handler_def net_get_local_data_def deref_conn_def rtc3d_inv_def
        free_rtc3d_def deref_rtc3d_def same_net_def same_rtc3d_def)
  moreover have "same_net (w\<lparr>net_conns := (net_conns w)(c \<mapsto> conn\<lparr>conn_local := 0\<rparr>)\<rparr>) ?w'"
    using w1(2) by (simp add: same_net_def)
  moreover have "rtc3d_inv ?w'"
    using inv w1 by (auto simp: rtc3d_inv_def uinv_frame addresses_ok_def same_rtc3d_def split: if_splits)
  moreover have "rtc3d_owner ?w' = (rtc3d_owner w)(?l := None)"
    using w1(3) by (auto simp: rtc3d_owner_def same_rtc3d_def)
  ultimately show ?thesis by blast
qed

end

lemma rtc3d_owner_frame:
  "rtc3d_owner (w\<lparr>net_conns := x1\<rparr>) = rtc3d_owner w" "rtc3d_owner (w\<lparr>next_conn := x2\<rparr>) = rtc3d_owner w"
  "rtc3d_owner (w\<lparr>connection_data := x3\<rparr>) = rtc3d_owner w" "rtc3d_owner (w\<lparr>read_events := x4\<rparr>) = rtc3d_owner w"
  "rtc3d_owner (w\<lparr>closed_fds := x5\<rparr>) = rtc3d_owner w" "rtc3d_owner (w\<lparr>os_calls := x6\<rparr>) = rtc3d_owner w"
  for w :: "'z rtc3d_env_scheme"
  by (rule ext, simp add: rtc3d_owner_def)+

sublocale rtc3d_user \<subseteq> srv: net_client "connect_handler user_connect" "disconnect_handler user_disconnect"
    rtc3d_owner rtc3d_inv
proof
  fix w c assume "rtc3d_inv w"
  then show "\<exists>l w'. connect_handler user_connect c w = Inr (l, w') \<and> same_net w w' \<and> rtc3d_inv w'
        \<and> rtc3d_owner w l = None \<and> rtc3d_owner w' = (rtc3d_owner w)(l \<mapsto> c)"
    by (rule connect_contract)
next
  fix w c conn assume "rtc3d_inv w" "net_conns w c = Some conn" "c \<noteq> 0"
    "rtc3d_owner w (conn_local conn) = Some c"
  then show "\<exists>w' l'. disconnect_handler user_disconnect c w = Inr w'
    \<and> same_net (w\<lparr>net_conns := (net_conns w)(c \<mapsto> conn\<lparr>conn_local := l'\<rparr>)\<rparr>) w' \<and> rtc3d_inv w'
    \<and> rtc3d_owner w' = (rtc3d_owner w)(conn_local conn := None)"
    by (rule disconnect_contract)
qed (simp_all add: rtc3d_owner_frame rtc3d_inv_def uinv_frame addresses_ok_def)

end
