(* ===== verification/Rtc3d_Reader.thy ===== *)
theory Rtc3d_Reader
  imports Rtc3d
begin

text \<open>
  What \<^verbatim>\<open>read_handler\<close> of \<^verbatim>\<open>librtc3d/rtc3d.cc\<close> means: an abstract reader, which cuts a stream of bytes
  into packets, and the simulation between the two. The handler runs on arbitrary fragments of the
  stream, with the state between fragments in four fields of the connection.
\<close>

section \<open>The abstract reader\<close>

datatype reader = Header "u8 list" | Payload nat "u8 list"

fun be_value :: "u8 list \<Rightarrow> u32" where
  "be_value [] = 0"
| "be_value [a] = le32 0 0 0 a"
| "be_value [a, b] = le32 0 0 b a"
| "be_value [a, b, c] = le32 0 c b a"
| "be_value (a # b # c # d # _) = le32 d c b a"

fun feed :: "reader \<Rightarrow> u8 \<Rightarrow> reader \<times> u8 list option" where
  "feed (Header hs) x =
     (if length hs < 3 then (Header (hs @ [x]), None)
      else (Payload (unat (be_value (hs @ [x])) - 4) [], None))"
| "feed (Payload n ps) x =
     (if Suc (length ps) < n then (Payload n (ps @ [x]), None) else (Header [], Some (ps @ [x])))"

primrec packets :: "reader \<Rightarrow> u8 list \<Rightarrow> u8 list list" where
  "packets r [] = []"
| "packets r (x # xs) =
     (case feed r x of (r', None) \<Rightarrow> packets r' xs | (r', Some p) \<Rightarrow> p # packets r' xs)"

primrec reader_after :: "reader \<Rightarrow> u8 list \<Rightarrow> reader" where
  "reader_after r [] = r"
| "reader_after r (x # xs) = reader_after (fst (feed r x)) xs"

text \<open>
  The streams that the code can handle: every packet announces between 4 and 255 bytes after the
  size field, so that the 8-bit counter holds the number and the type field is there.
\<close>

fun announced_ok :: "reader \<Rightarrow> bool" where
  "announced_ok (Payload n []) = (4 \<le> n \<and> n \<le> 255)"
| "announced_ok _ = True"

primrec polite :: "reader \<Rightarrow> u8 list \<Rightarrow> bool" where
  "polite r [] = True"
| "polite r (x # xs) = (announced_ok (fst (feed r x)) \<and> polite (fst (feed r x)) xs)"

text \<open>The text of a command packet, up to the first zero byte.\<close>

definition command_text :: "u8 list \<Rightarrow> u8 list option" where
  "command_text p =
     (if take 4 p = be32 PTYPE_COMMAND then Some (takeWhile (\<lambda>x. x \<noteq> 0) (drop 4 p)) else None)"

definition texts :: "reader \<Rightarrow> u8 list \<Rightarrow> u8 list list" where
  "texts r xs = List.map_filter command_text (packets r xs)"

section \<open>Calls of the command handler\<close>

text \<open>
  \<open>reader_step l w w'\<close>: nothing but the four fields in which connection \<open>l\<close> keeps its reader, and
  the count of calls of \<^verbatim>\<open>malloc\<close>, differs between \<open>w\<close> and \<open>w'\<close>.
\<close>

definition reader_step :: "nat \<Rightarrow> 'z rtc3d_env_scheme \<Rightarrow> 'z rtc3d_env_scheme \<Rightarrow> bool" where
  "reader_step l w w' \<longleftrightarrow> (\<exists>rc sl ps dl pd n. rtc3d_conns w l = Some rc
     \<and> w' = put_rtc3d l (rc\<lparr>size_left := sl, packet_size := ps, data_left := dl, packet_data := pd\<rparr>)
         (w\<lparr>os_calls := n\<rparr>))"

text \<open>
  \<open>served_by command l ts w res\<close>: the result \<open>res\<close> is reached from \<open>w\<close> by calls of the command handler
  with the texts \<open>ts\<close>, in this order, and reader steps between them, or the handler stopped the
  process in one of them.
\<close>

inductive served_by ::
    "(nat \<Rightarrow> u8 list \<Rightarrow> 'z rtc3d_env_scheme action) \<Rightarrow> nat \<Rightarrow> u8 list list
      \<Rightarrow> 'z rtc3d_env_scheme \<Rightarrow> 'z rtc3d_env_scheme outcome \<Rightarrow> bool"
  for command l where
  served_all: "reader_step l w w' \<Longrightarrow> served_by command l [] w (Inr w')"
| served_stop: "reader_step l w w1 \<Longrightarrow> command l t w1 = Inl e \<Longrightarrow> served_by command l (t # ts) w (Inl e)"
| served_call: "reader_step l w w1 \<Longrightarrow> command l t w1 = Inr w2 \<Longrightarrow> served_by command l ts w2 res \<Longrightarrow>
    served_by command l (t # ts) w res"

inductive_cases served_by_NilE: "served_by command l [] w res"
inductive_cases served_by_ConsE: "served_by command l (t # ts) w res"

lemma reader_stepI:
  "rtc3d_conns w l = Some rc \<Longrightarrow> reader_step l w (put_rtc3d l
     (rc\<lparr>size_left := sl, packet_size := ps, data_left := dl, packet_data := pd\<rparr>) (w\<lparr>os_calls := n\<rparr>))"
  unfolding reader_step_def by blast

lemma reader_step_trans:
  assumes "reader_step l w w1" and "reader_step l w1 w2"
  shows "reader_step l w w2"
proof -
  from assms(1) obtain rc sl ps dl pd n where rc: "rtc3d_conns w l = Some rc"
    and w1: "w1 = put_rtc3d l (rc\<lparr>size_left := sl, packet_size := ps, data_left := dl, packet_data := pd\<rparr>)
         (w\<lparr>os_calls := n\<rparr>)" by (auto simp: reader_step_def)
  from assms(2) obtain sl' ps' dl' pd' n' where
    "w2 = put_rtc3d l (rc\<lparr>size_left := sl', packet_size := ps', data_left := dl', packet_data := pd'\<rparr>)
         (w\<lparr>os_calls := n'\<rparr>)" unfolding w1 reader_step_def by (auto simp: put_rtc3d_def)
  with rc show ?thesis unfolding reader_step_def by blast
qed

lemma served_by_before:
  assumes "served_by command l ts w1 res" and "reader_step l w w1"
  shows "served_by command l ts w res"
  using assms by (cases rule: served_by.cases) (blast intro: served_by.intros reader_step_trans)+

section \<open>The simulation\<close>

fun reads :: "reader \<Rightarrow> rtc3d_connection_t \<Rightarrow> bool" where
  "reads (Header hs) rc =
     (length hs < 4 \<and> size_left rc = of_nat (4 - length hs) \<and> packet_size rc = be_value hs)"
| "reads (Payload n ps) rc =
     (size_left rc = 0 \<and> 4 \<le> n \<and> n \<le> 255 \<and> length ps < n \<and> packet_size rc = of_nat n
      \<and> data_left rc = of_nat (n - length ps)
      \<and> (\<exists>b. packet_data rc = Data_block b \<and> block_len b = Suc n
           \<and> (\<forall>i < length ps. block_at b i = Some (ps ! i))))"

lemma reads_fresh: "reads (Header []) (new_rtc3d_connection c)"
  by (simp add: new_rtc3d_connection_def)

lemma set_byte_le32:
  "set_byte 0 x (le32 a b c d) = le32 x b c d" "set_byte (Suc 0) x (le32 a b c d) = le32 a x c d"
  "set_byte 2 x (le32 a b c d) = le32 a b x d" "set_byte 3 x (le32 a b c d) = le32 a b c x"
proof -
  have m: "(0xFF :: u32) = mask 8" by (simp add: mask_eq_exp_minus_1)
  have eq: "set_byte k x (le32 a b c d) = v" if k: "k < 4"
    and v: "lo8 v (8 * k) = x" "\<And>j. j < 4 \<Longrightarrow> j \<noteq> k \<Longrightarrow> lo8 v (8 * j) = lo8 (le32 a b c d) (8 * j)" for k v
  proof (rule bit_word_eqI)
    fix n assume n: "n < LENGTH(32)"
    define j r where "j = n div 8" and "r = n mod 8"
    have nj: "n = 8 * j + r" "r < 8" "j < 4" using n by (auto simp: j_def r_def)
    have lo: "bit u n = bit (lo8 u (8 * j)) r" for u :: u32 using nj by (simp add: bit_lo8)
    show "bit (set_byte k x (le32 a b c d)) n = bit v n"
    proof (cases "j = k")
      case True
      then show ?thesis using nj n v(1) lo [of v]
        by (auto simp: set_byte_def m bit_simps)
    next
      case False
      then have far: "n < 8 * k \<or> 8 * k + 8 \<le> n" using nj by auto
      have "bit (set_byte k x (le32 a b c d)) n = bit (le32 a b c d) n"
        using far n by (auto simp: set_byte_def m bit_simps dest: bit_imp_le_length)
      also have "\<dots> = bit v n" using v(2) [OF nj(3) False] lo by simp
      finally show ?thesis .
    qed
  qed
  have j4: "j < 4 \<Longrightarrow> j = 0 \<or> j = 1 \<or> j = 2 \<or> j = 3" for j :: nat by auto
  show "set_byte 0 x (le32 a b c d) = le32 x b c d" by (rule eq) (auto dest!: j4)
  show "set_byte (Suc 0) x (le32 a b c d) = le32 a x c d" by (rule eq) (auto dest!: j4)
  show "set_byte 2 x (le32 a b c d) = le32 a b x d" by (rule eq) (auto dest!: j4)
  show "set_byte 3 x (le32 a b c d) = le32 a b c x" by (rule eq) (auto dest!: j4)
qed

lemma le32_0: "le32 0 0 0 0 = 0"
  by (simp add: le32_def)

lemma set_byte_header:
  "length hs < 4 \<Longrightarrow> set_byte (3 - length hs) x (be_value hs) = be_value (hs @ [x])"
  by (cases hs rule: be_value.cases) (auto simp: set_byte_le32 simp flip: le32_0)

text \<open>The three kinds of bytes: within the header, within the payload, and the last of the payload.\<close>

lemma word8_numbers: "of_nat (4 - k) \<noteq> (0 :: u8)" "unat (of_nat (4 - k) :: u8) - 1 = 3 - k"
  "(of_nat (4 - k) :: u8) - 1 = of_nat (3 - k)" if "k < 4" for k :: nat
proof -
  have "k = 0 \<or> k = 1 \<or> k = 2 \<or> k = 3" using that by auto
  then show "of_nat (4 - k) \<noteq> (0 :: u8)" "unat (of_nat (4 - k) :: u8) - 1 = 3 - k"
    "(of_nat (4 - k) :: u8) - 1 = of_nat (3 - k)" by auto
qed

lemma unat_small: "n < 2 ^ LENGTH('a) \<Longrightarrow> unat (of_nat n :: 'a::len word) = n"
  by (simp add: unat_of_nat take_bit_nat_eq_self)

lemma put_rtc3d_same [simp]: "rtc3d_conns (put_rtc3d l rc w) l = Some rc"
  by (simp add: put_rtc3d_def)

lemma reader_put:
  assumes "rtc3d_conns w l = Some rc" and "f w = Inr (put_rtc3d l
     (rc\<lparr>size_left := sl, packet_size := ps, data_left := dl, packet_data := pd\<rparr>) (w\<lparr>os_calls := n\<rparr>))"
    and "reads r (rc\<lparr>size_left := sl, packet_size := ps, data_left := dl, packet_data := pd\<rparr>)"
  shows "\<exists>w' rc'. f w = Inr w' \<and> reader_step l w w' \<and> rtc3d_conns w' l = Some rc' \<and> reads r rc'"
  using assms reader_stepI [OF assms(1)] put_rtc3d_same by blast

lemma reader_fields_order:
  "rc\<lparr>packet_size := a, size_left := b\<rparr> = rc\<lparr>size_left := b, packet_size := a\<rparr>"
  "rc\<lparr>packet_data := d, data_left := c\<rparr> = rc\<lparr>data_left := c, packet_data := d\<rparr>"
  for rc :: rtc3d_connection_t
  by simp_all

lemma header_byte:
  assumes rc: "rtc3d_conns w l = Some rc" "l \<noteq> 0" and r: "reads (Header hs) rc"
    and ok: "announced_ok (fst (feed (Header hs) x))" and m: "os_malloc (tcp_os w) (os_calls w)"
  shows "\<exists>w' rc'. read_byte command l x w = Inr w' \<and> reader_step l w w'
    \<and> rtc3d_conns w' l = Some rc' \<and> reads (fst (feed (Header hs) x)) rc'"
proof -
  from r have hs: "length hs < 4" "size_left rc = of_nat (4 - length hs)" "packet_size rc = be_value hs"
    by simp_all
  let ?v = "be_value (hs @ [x])"
  have sz: "set_byte (unat (size_left rc) - Suc 0) x (packet_size rc) = ?v"
    and sl: "size_left rc - 1 = of_nat (3 - length hs)" and nz: "size_left rc \<noteq> 0"
    using hs set_byte_header [OF hs(1)] word8_numbers [OF hs(1)] by simp_all
  have step: "read_byte command l x w = Inr (read_header_byte l x rc w)"
    using rc nz by (simp add: read_byte_def deref_rtc3d_def)
  show ?thesis
  proof (cases "length hs < 3")
    case True
    then have nz': "(of_nat (3 - length hs) :: u8) \<noteq> 0"
      using word8_numbers(1) [of "Suc (length hs)"] by simp
    have "read_header_byte l x rc w = put_rtc3d l (rc\<lparr>size_left := of_nat (3 - length hs),
        packet_size := ?v, data_left := data_left rc, packet_data := packet_data rc\<rparr>) (w\<lparr>os_calls := os_calls w\<rparr>)"
      using nz' by (simp add: read_header_byte_def sz sl Let_def reader_fields_order)
    with step have "read_byte command l x w = Inr (put_rtc3d l (rc\<lparr>size_left := of_nat (3 - length hs),
        packet_size := ?v, data_left := data_left rc, packet_data := packet_data rc\<rparr>) (w\<lparr>os_calls := os_calls w\<rparr>))"
      by (simp only:)
    from rc(1) this show ?thesis by (rule reader_put) (use True in simp)
  next
    case False
    with hs(1) have l3: "length hs = 3" by simp
    with ok have n: "4 \<le> unat ?v - 4" "unat ?v - 4 \<le> 255" by simp_all
    have sub: "?v - 4 = of_nat (unat ?v - 4)" using n(1) by (simp add: of_nat_diff)
    let ?n = "unat ?v - 4"
    have "of_nat ?n + 1 = (of_nat (Suc ?n) :: u32)" by simp
    moreover have "unat (of_nat (Suc ?n) :: u32) = Suc ?n"
      by (rule unat_small) (use n in simp)
    ultimately have len: "unat (of_nat ?n + 1 :: u32) = Suc ?n" by (simp only:)
    have cast: "ucast (of_nat ?n :: u32) = (of_nat ?n :: u8)"
      by (rule bit_word_eqI) (auto simp: bit_simps bit_of_nat_iff_bit)
    have "read_header_byte l x rc w = put_rtc3d l (rc\<lparr>size_left := 0, packet_size := of_nat ?n,
        data_left := of_nat ?n, packet_data := Data_block \<lparr>block_len = Suc ?n, block_at = \<lambda>_. None\<rparr>\<rparr>)
        (w\<lparr>os_calls := Suc (os_calls w)\<rparr>)"
      using l3 m by (simp add: read_header_byte_def sz sl sub len cast Let_def os_call_def reader_fields_order del: of_nat_Suc of_nat_diff)
    with step have "read_byte command l x w = Inr (put_rtc3d l (rc\<lparr>size_left := 0, packet_size := of_nat ?n,
        data_left := of_nat ?n, packet_data := Data_block \<lparr>block_len = Suc ?n, block_at = \<lambda>_. None\<rparr>\<rparr>)
        (w\<lparr>os_calls := Suc (os_calls w)\<rparr>))" by (simp only:)
    from rc(1) this show ?thesis by (rule reader_put) (use l3 n in \<open>simp del: of_nat_diff\<close>)
  qed
qed

lemma payload_index:
  assumes "k < n" and "n \<le> 255"
  shows "unat (of_nat n - ucast (of_nat (n - k) :: u8) :: u32) = k"
    and "(of_nat (n - k) :: u8) \<noteq> 0" and "(of_nat (n - k) :: u8) - 1 = of_nat (n - Suc k)"
proof -
  have u: "unat (of_nat (n - k) :: u8) = n - k" by (rule unat_small) (use assms in simp)
  have "ucast (of_nat (n - k) :: u8) = (of_nat (n - k) :: u32)"
    using assms by (simp add: unsigned_of_nat take_bit_nat_eq_self del: of_nat_diff)
  moreover have "of_nat n - of_nat (n - k) = (of_nat k :: u32)"
    using assms(1) by (simp add: of_nat_diff)
  moreover have "unat (of_nat k :: u32) = k" by (rule unat_small) (use assms in simp)
  ultimately show "unat (of_nat n - ucast (of_nat (n - k) :: u8) :: u32) = k" by simp
  show "(of_nat (n - k) :: u8) \<noteq> 0"
    using u assms(1) by (metis diff_is_0_eq not_le unat_0)
  show "(of_nat (n - k) :: u8) - 1 = of_nat (n - Suc k)"
    using assms(1) by (simp add: of_nat_diff)
qed

lemma payload_byte:
  assumes rc: "rtc3d_conns w l = Some rc" "l \<noteq> 0" and r: "reads (Payload n ps) rc"
    and more: "Suc (length ps) < n"
  shows "\<exists>w' rc'. read_byte command l x w = Inr w' \<and> reader_step l w w'
    \<and> rtc3d_conns w' l = Some rc' \<and> reads (Payload n (ps @ [x])) rc'"
proof -
  from r obtain b where n: "n \<le> 255" "length ps < n" and f: "size_left rc = 0" "packet_size rc = of_nat n"
    "data_left rc = of_nat (n - length ps)" "packet_data rc = Data_block b" "block_len b = Suc n"
    and b: "\<And>i. i < length ps \<Longrightarrow> block_at b i = Some (ps ! i)" by auto
  let ?b = "b\<lparr>block_at := (block_at b)(length ps \<mapsto> x)\<rparr>"
  have upd: "rc\<lparr>size_left := 0, packet_size := of_nat n\<rparr> = rc" using f by (cases rc) simp
  have nz: "(of_nat (n - Suc (length ps)) :: u8) \<noteq> 0" using payload_index(2) [OF more n(1)] .
  have "read_byte command l x w = Inr (put_rtc3d l (rc\<lparr>size_left := 0, packet_size := of_nat n,
      data_left := of_nat (n - Suc (length ps)), packet_data := Data_block ?b\<rparr>) (w\<lparr>os_calls := os_calls w\<rparr>))"
    using rc f n nz payload_index [OF n(2,1)]
    by (simp add: read_byte_def deref_rtc3d_def read_payload_byte_def store8_def Let_def
        reader_fields_order upd del: of_nat_diff)
  from rc(1) this show ?thesis
    by (rule reader_put) (use r n more f b in \<open>auto simp: nth_append less_Suc_eq simp del: of_nat_diff\<close>)
qed

text \<open>The complete packet, in the block with the terminator added, and the text it holds.\<close>

lemma c_string_zero:
  "c_string (map Some xs @ Some 0 # ys) = Inr (takeWhile (\<lambda>x. x \<noteq> 0) xs)"
  by (induction xs) simp_all

lemma packet_block:
  assumes "length p = n" "4 \<le> n" "block_len b = Suc n" "\<forall>i < n. block_at b i = Some (p ! i)"
  shows "packet_data rc = Data_block b \<Longrightarrow> get_uint32 rc 0 = Inr (le32 (p ! 3) (p ! 2) (p ! 1) (p ! 0))"
    and "string_at 4 (b\<lparr>block_at := (block_at b)(n \<mapsto> 0)\<rparr>) = Inr (takeWhile (\<lambda>x. x \<noteq> 0) (drop 4 p))"
proof -
  show "packet_data rc = Data_block b \<Longrightarrow> get_uint32 rc 0 = Inr (le32 (p ! 3) (p ! 2) (p ! 1) (p ! 0))"
    using assms by (simp add: get_uint32_def load8_def htonl_def numeral_2_eq_2)
  have "map (block_at (b\<lparr>block_at := (block_at b)(n \<mapsto> 0)\<rparr>)) [4 ..< Suc n] = map Some (drop 4 p) @ [Some 0]"
    using assms by (auto simp: list_eq_iff_nth_eq nth_append)
  then show "string_at 4 (b\<lparr>block_at := (block_at b)(n \<mapsto> 0)\<rparr>) = Inr (takeWhile (\<lambda>x. x \<noteq> 0) (drop 4 p))"
    using assms(3) by (simp add: string_at_def c_string_zero)
qed

lemma command_type_iff:
  assumes "4 \<le> length p"
  shows "le32 (p ! 3) (p ! 2) (p ! 1) (p ! 0) = PTYPE_COMMAND \<longleftrightarrow> take 4 p = be32 PTYPE_COMMAND"
proof -
  obtain a b c d p' where p: "p = a # b # c # d # p'"
    using assms by (cases p rule: get32.cases) auto
  have "le32 d c b a = x \<longleftrightarrow> [a, b, c, d] = be32 x" for x
    by (auto simp: be32_def)
  then show ?thesis by (simp add: p)
qed

lemma last_byte:
  assumes rc: "rtc3d_conns w l = Some rc" "l \<noteq> 0" and r: "reads (Payload n ps) rc"
    and last: "Suc (length ps) = n" and conn: "net_conns w (net_conn rc) \<noteq> None" "net_conn rc \<noteq> 0"
    and h: "rtc3d_command_handler w"
  shows "\<exists>w1. reader_step l w w1 \<and> read_byte command l x w =
    bind_outcome (case command_text (ps @ [x]) of None \<Rightarrow> Inr w1 | Some t \<Rightarrow> command l t w1) (\<lambda>w2.
      bind_outcome (deref_rtc3d l w2) (\<lambda>rc.
        Inr (put_rtc3d l (rc\<lparr>packet_data := Data_freed, packet_size := 0, size_left := 4\<rparr>) w2)))"
proof -
  let ?p = "ps @ [x]"
  from r obtain b where n: "4 \<le> n" "n \<le> 255" "length ps < n" and f: "size_left rc = 0" "packet_size rc = of_nat n"
    "data_left rc = of_nat (n - length ps)" "packet_data rc = Data_block b" "block_len b = Suc n"
    and b: "\<And>i. i < length ps \<Longrightarrow> block_at b i = Some (ps ! i)" by auto
  define b1 where "b1 = b\<lparr>block_at := (block_at b)(length ps \<mapsto> x)\<rparr>"
  have b1: "length ?p = n" "block_len b1 = Suc n" "\<forall>i < n. block_at b1 i = Some (?p ! i)"
    using last b f(5) by (auto simp: b1_def nth_append less_Suc_eq)
  note blk = packet_block [OF b1(1) n(1) b1(2,3)]
  define rc1 where "rc1 = rc\<lparr>size_left := 0, packet_size := of_nat n, data_left := 0, packet_data := Data_block b1\<rparr>"
  have upd: "rc\<lparr>size_left := 0, packet_size := of_nat n\<rparr> = rc" using f by (cases rc) simp
  have un: "unat (of_nat n :: u32) = n" by (rule unat_small) (use n in simp)
  have run: "read_byte command l x w = bind_outcome (packet_handler command l (put_rtc3d l rc1 w)) (\<lambda>w.
           bind_outcome (deref_rtc3d l w) (\<lambda>rc.
             Inr (put_rtc3d l (rc\<lparr>packet_data := Data_freed, packet_size := 0, size_left := 4\<rparr>) w)))"
    using rc f n payload_index [OF n(3,2)] last
    by (simp add: read_byte_def deref_rtc3d_def read_payload_byte_def store8_def Let_def
        reader_fields_order upd rc1_def b1_def del: of_nat_diff)
  have step: "reader_step l w (put_rtc3d l (rc1\<lparr>packet_data := q\<rparr>) w)" for q
    using reader_stepI [OF rc(1), where sl = 0 and ps = "of_nat n" and dl = 0 and pd = q and n = "os_calls w"] by (simp add: rc1_def)
  have "net_conns (put_rtc3d l rc1 w) = net_conns w" "rtc3d_command_handler (put_rtc3d l rc1 w)"
    "put_rtc3d l rc' (put_rtc3d l rc1 w) = put_rtc3d l rc' w" "net_conn rc1 = net_conn rc"
    "packet_size rc1 = of_nat n" "packet_data rc1 = Data_block b1" for rc'
    using h by (simp_all add: put_rtc3d_def rc1_def)
  note s1 = this
  have ph: "packet_handler command l (put_rtc3d l rc1 w) =
    (case command_text ?p of None \<Rightarrow> Inr (put_rtc3d l rc1 w)
     | Some t \<Rightarrow> command l t (put_rtc3d l (rc1\<lparr>packet_data := Data_block (b1\<lparr>block_at := (block_at b1)(n \<mapsto> 0)\<rparr>)\<rparr>) w))"
    using conn rc(2) s1 un blk(1) [OF s1(6)] blk(2) b1(2) command_type_iff [of ?p] n b1(1)
    by (auto simp: packet_handler_def deref_rtc3d_def deref_conn_def store8_def
        command_text_def Let_def simp del: length_append take_append drop_append)
       (simp_all add: put_rtc3d_def)
  show ?thesis
  proof (cases "command_text ?p")
    case None
    then show ?thesis using run ph step [of "Data_block b1"] by (auto simp: rc1_def)
  next
    case (Some t)
    then show ?thesis using run ph step by auto
  qed
qed

section \<open>The contract of the command handler\<close>

text \<open>
  \<open>fit l w\<close>: connection \<open>l\<close> is in use, a command handler is installed, and memory is available.
\<close>

definition fit :: "nat \<Rightarrow> 'z rtc3d_env_scheme \<Rightarrow> bool" where
  "fit l w \<longleftrightarrow> l \<noteq> 0 \<and> rtc3d_command_handler w \<and> (\<forall>n. os_malloc (tcp_os w) n)
     \<and> (\<exists>rc. rtc3d_conns w l = Some rc \<and> net_conn rc \<noteq> 0 \<and> net_conns w (net_conn rc) \<noteq> None)"

text \<open>
  A state of affairs, \<open>good\<close>, in which the connection is fit for use, whatever its reader's state: the
  handler, called with a text that is \<open>fine\<close>, keeps it.
\<close>

locale command_client =
  fixes command :: "nat \<Rightarrow> u8 list \<Rightarrow> 'z rtc3d_env_scheme action"
    and fine :: "u8 list \<Rightarrow> bool"
    and good :: "nat \<Rightarrow> 'z rtc3d_env_scheme \<Rightarrow> bool"
  assumes good_fit: "good l w \<Longrightarrow> fit l w"
    and good_step: "good l w \<Longrightarrow> reader_step l w w' \<Longrightarrow> good l w'"
    and command_good: "good l w \<Longrightarrow> fine t \<Longrightarrow> command l t w = Inr w' \<Longrightarrow> good l w'"
begin

text \<open>What follows the call of the handler: the packet is released, a new one expected.\<close>

lemma packet_done:
  assumes "good l w"
  shows "\<exists>w' rc'. bind_outcome (deref_rtc3d l w) (\<lambda>rc.
      Inr (put_rtc3d l (rc\<lparr>packet_data := Data_freed, packet_size := 0, size_left := 4\<rparr>) w)) = Inr w'
    \<and> reader_step l w w' \<and> good l w' \<and> rtc3d_conns w' l = Some rc' \<and> reads (Header []) rc'"
proof -
  obtain rc where rc: "rtc3d_conns w l = Some rc" "l \<noteq> 0" using good_fit [OF assms] by (auto simp: fit_def)
  let ?rc = "rc\<lparr>packet_data := Data_freed, packet_size := 0, size_left := 4\<rparr>"
  have "?rc = rc\<lparr>size_left := 4, packet_size := 0, data_left := data_left rc, packet_data := Data_freed\<rparr>"
    by simp
  moreover have "w = w\<lparr>os_calls := os_calls w\<rparr>" by simp
  ultimately have "reader_step l w (put_rtc3d l ?rc w)"
    using reader_stepI [OF rc(1)] by metis
  with good_step [OF assms] rc show ?thesis by (auto simp: deref_rtc3d_def)
qed

definition served_well :: "nat \<Rightarrow> u8 list list \<Rightarrow> reader \<Rightarrow> 'z rtc3d_env_scheme
    \<Rightarrow> 'z rtc3d_env_scheme outcome \<Rightarrow> bool" where
  "served_well l ts r w res \<longleftrightarrow> served_by command l ts w res
    \<and> (\<forall>w'. res = Inr w' \<longrightarrow> good l w' \<and> (\<exists>rc. rtc3d_conns w' l = Some rc \<and> reads r rc))"

lemma packet_served:
  assumes w1: "good l w" "reader_step l w w1" and fine: "\<And>t. command_text p = Some t \<Longrightarrow> fine t"
    and run: "res = bind_outcome (case command_text p of None \<Rightarrow> Inr w1 | Some t \<Rightarrow> command l t w1) (\<lambda>w2.
      bind_outcome (deref_rtc3d l w2) (\<lambda>rc.
        Inr (put_rtc3d l (rc\<lparr>packet_data := Data_freed, packet_size := 0, size_left := 4\<rparr>) w2)))"
  shows "served_well l (List.map_filter command_text [p]) (Header []) w res"
proof (cases "command_text p")
  case None
  from packet_done [OF good_step [OF w1]] obtain w' rc' where "res = Inr w'"
    "reader_step l w1 w'" "good l w'" "rtc3d_conns w' l = Some rc'" "reads (Header []) rc'"
    unfolding run None by auto
  then show ?thesis using None reader_step_trans [OF w1(2)]
    by (auto simp: served_well_def map_filter_simps intro: served_all)
next
  case (Some t)
  show ?thesis
  proof (cases "command l t w1")
    case (Inl e)
    with w1(2) Some run show ?thesis by (auto simp: served_well_def map_filter_simps intro: served_stop)
  next
    case (Inr w2)
    from command_good [OF good_step [OF w1] fine [OF Some] Inr] have "good l w2" .
    from packet_done [OF this] obtain w' rc' where "res = Inr w'"
      "reader_step l w2 w'" "good l w'" "rtc3d_conns w' l = Some rc'" "reads (Header []) rc'"
      unfolding run Some using Inr by auto
    with Some Inr w1(2) show ?thesis
      by (auto simp: served_well_def map_filter_simps intro!: served_call served_all)
  qed
qed

lemma byte_served:
  assumes good: "good l w" and rc: "rtc3d_conns w l = Some rc" and r: "reads r rc"
    and ok: "announced_ok (fst (feed r x))" and fine: "\<And>t. t \<in> set (texts r [x]) \<Longrightarrow> fine t"
  shows "served_well l (texts r [x]) (fst (feed r x)) w (read_byte command l x w)"
proof -
  from good_fit [OF good] rc have l: "l \<noteq> 0" and h: "rtc3d_command_handler w" and m: "os_malloc (tcp_os w) (os_calls w)"
    and conn: "net_conn rc \<noteq> 0" "net_conns w (net_conn rc) \<noteq> None" by (auto simp: fit_def)
  have quiet: ?thesis if "snd (feed r x) = None"
    and "\<exists>w' rc'. read_byte command l x w = Inr w' \<and> reader_step l w w'
      \<and> rtc3d_conns w' l = Some rc' \<and> reads (fst (feed r x)) rc'"
  proof -
    have "texts r [x] = []" using that(1)
      by (cases "feed r x") (simp add: texts_def map_filter_simps)
    with that(2) good_step [OF good] show ?thesis by (auto simp: served_well_def intro: served_all)
  qed
  show ?thesis
  proof (cases r)
    case (Header hs)
    with header_byte [OF rc l _ _ m, of hs] r ok show ?thesis
      by (intro quiet) (auto split: if_splits)
  next
    case (Payload n ps)
    show ?thesis
    proof (cases "Suc (length ps) < n")
      case True
      with payload_byte [OF rc l, of n ps] r Payload show ?thesis by (intro quiet) auto
    next
      case False
      with r Payload have last: "Suc (length ps) = n" by auto
      have fd: "feed r x = (Header [], Some (ps @ [x]))" using last Payload by simp
      then have tx: "texts r [x] = List.map_filter command_text [ps @ [x]]" by (simp add: texts_def)
      with fine have f: "command_text (ps @ [x]) = Some t \<Longrightarrow> fine t" for t by (simp add: map_filter_simps)
      from last_byte [OF rc l _ last conn(2,1) h] r Payload obtain w1 where "reader_step l w w1"
        "read_byte command l x w =
          bind_outcome (case command_text (ps @ [x]) of None \<Rightarrow> Inr w1 | Some t \<Rightarrow> command l t w1) (\<lambda>w2.
            bind_outcome (deref_rtc3d l w2) (\<lambda>rc.
              Inr (put_rtc3d l (rc\<lparr>packet_data := Data_freed, packet_size := 0, size_left := 4\<rparr>) w2)))"
        by blast
      from packet_served [OF good this(1) f this(2)] show ?thesis unfolding tx fd by simp
    qed
  qed
qed

end

lemma served_by_append:
  assumes "served_by command l ts w (Inr w')" and "served_by command l us w' res"
  shows "served_by command l (ts @ us) w res"
  using assms
proof (induction ts w "Inr w' :: 'a rtc3d_env_scheme outcome" rule: served_by.induct)
  case (served_all w)
  then show ?case by (simp add: served_by_before)
next
  case (served_call w w1 t w2 ts)
  then show ?case by (auto intro: served_by.served_call)
qed

lemma served_by_stop_append:
  "served_by command l ts w (Inl e) \<Longrightarrow> served_by command l (ts @ us) w (Inl e)"
  by (induction ts w "Inl e :: 'a rtc3d_env_scheme outcome" rule: served_by.induct)
    (auto intro: served_by.intros)

lemma texts_Cons: "texts r (x # xs) = texts r [x] @ texts (fst (feed r x)) xs"
  by (cases "feed r x") (auto simp: texts_def map_filter_def split: option.splits)

context command_client
begin

lemma stream_served:
  assumes "good l w" and "rtc3d_conns w l = Some rc" and "reads r rc"
    and "polite r xs" and "\<And>t. t \<in> set (texts r xs) \<Longrightarrow> fine t"
  shows "served_well l (texts r xs) (reader_after r xs) w (run_steps (map (read_byte command l) xs) w)"
  using assms
proof (induction xs arbitrary: r w rc)
  case Nil
  have "reader_step l w w"
    using reader_stepI [OF Nil.prems(2), where sl = "size_left rc" and ps = "packet_size rc" and dl = "data_left rc"
        and pd = "packet_data rc" and n = "os_calls w"] Nil.prems(2)
    by (simp add: put_rtc3d_def fun_upd_idem)
  with Nil show ?case by (auto simp: served_well_def texts_def map_filter_simps intro: served_all)
next
  case (Cons x xs)
  have fine: "t \<in> set (texts r [x]) \<Longrightarrow> fine t" "t \<in> set (texts (fst (feed r x)) xs) \<Longrightarrow> fine t" for t
    using Cons.prems(5) by (simp_all add: texts_Cons [of r x xs])
  have one: "served_well l (texts r [x]) (fst (feed r x)) w (read_byte command l x w)"
    by (rule byte_served [OF Cons.prems(1-3) _ fine(1)]) (use Cons.prems(4) in simp_all)
  show ?case
  proof (cases "read_byte command l x w")
    case (Inl e)
    with one show ?thesis
      by (auto simp: served_well_def texts_Cons [of r x xs] intro: served_by_stop_append)
  next
    case (Inr w1)
    with one obtain rc1 where w1: "good l w1" "rtc3d_conns w1 l = Some rc1" "reads (fst (feed r x)) rc1"
      by (auto simp: served_well_def)
    have "served_well l (texts (fst (feed r x)) xs) (reader_after (fst (feed r x)) xs) w1
        (run_steps (map (read_byte command l) xs) w1)"
      by (rule Cons.IH [OF w1 _ fine(2)]) (use Cons.prems(4) in simp_all)
    with one Inr show ?thesis
      by (auto simp: served_well_def texts_Cons [of r x xs] intro: served_by_append)
  qed
qed

end

section \<open>The reader of a connection\<close>

fun payload_so_far :: "nat \<Rightarrow> data_ptr \<Rightarrow> u8 list" where
  "payload_so_far k (Data_block b) = map (\<lambda>i. the (block_at b i)) [0 ..< k]"
| "payload_so_far k _ = []"

definition reader_of :: "rtc3d_connection_t \<Rightarrow> reader" where
  "reader_of rc =
     (if size_left rc \<noteq> 0 then Header (take (4 - unat (size_left rc)) (be32 (packet_size rc)))
      else Payload (unat (packet_size rc))
        (payload_so_far (unat (packet_size rc) - unat (data_left rc)) (packet_data rc)))"

lemma take_be32_be_value: "length hs < 4 \<Longrightarrow> take (length hs) (be32 (be_value hs)) = hs"
  by (cases hs rule: be_value.cases) (auto simp: be32_def)

lemma reader_of_reads:
  assumes "reads r rc"
  shows "reader_of rc = r"
proof (cases r)
  case (Header hs)
  with assms have hs: "length hs < 4" "size_left rc = of_nat (4 - length hs)" "packet_size rc = be_value hs"
    by simp_all
  have "unat (of_nat (4 - length hs) :: u8) = 4 - length hs" by (rule unat_small) simp
  then show ?thesis using Header hs word8_numbers(1) [OF hs(1)] take_be32_be_value [OF hs(1)]
    by (simp add: reader_of_def)
next
  case (Payload n ps)
  with assms obtain b where n: "n \<le> 255" "length ps < n" and f: "size_left rc = 0" "packet_size rc = of_nat n"
    "data_left rc = of_nat (n - length ps)" "packet_data rc = Data_block b"
    and b: "\<And>i. i < length ps \<Longrightarrow> block_at b i = Some (ps ! i)" by auto
  have "unat (of_nat n :: u32) = n" by (rule unat_small) (use n in simp)
  moreover have "unat (of_nat (n - length ps) :: u8) = n - length ps"
    by (rule unat_small) (use n in simp)
  moreover have "map (\<lambda>i. the (block_at b i)) [0 ..< length ps] = ps"
    by (rule nth_equalityI) (simp_all add: b)
  ultimately show ?thesis using Payload f n by (simp add: reader_of_def del: of_nat_diff)
qed

section \<open>Packets of clients\<close>

text \<open>A command as \<^verbatim>\<open>rtc3d_send_command\<close> and every client send it.\<close>

definition packet_bytes :: "u8 list \<Rightarrow> u8 list" where
  "packet_bytes t = be32 (of_nat (8 + length t)) @ be32 PTYPE_COMMAND @ t"

definition short_text :: "u8 list \<Rightarrow> bool" where
  "short_text t \<longleftrightarrow> length t \<le> 251 \<and> 0 \<notin> set t"

lemma rtc3d_command_packet_bytes: "rtc3d_command_packet t = map Some (packet_bytes t)"
  by (simp add: rtc3d_command_packet_def text_packet_bytes packet_bytes_def)

lemma feed_payload:
  assumes "length xs < n - length ps" and "length ps < n"
  shows "packets (Payload n ps) (xs @ ys) = packets (Payload n (ps @ xs)) ys"
    and "polite (Payload n ps) (xs @ ys) = polite (Payload n (ps @ xs)) ys"
  using assms
proof (induction xs arbitrary: ps)
  case (Cons x xs)
  { case 1
    then have "Suc (length ps) < n" by simp
    with 1 Cons.IH(1) [of "ps @ [x]"] show ?case by simp }
  { case 2
    then have "Suc (length ps) < n" by simp
    with 2 Cons.IH(2) [of "ps @ [x]"] show ?case by (cases ps) simp_all }
qed simp_all

lemma feed_packet:
  assumes "n \<noteq> 0" and "length p = n"
  shows "packets (Payload n []) (p @ ys) = p # packets (Header []) ys"
    and "polite (Payload n []) (p @ ys) = polite (Header []) ys"
proof -
  obtain xs x where p: "p = xs @ [x]" using assms by (cases p rule: rev_cases) auto
  have "length xs < n - length []" "length ([] :: u8 list) < n" using assms p by auto
  from feed_payload [OF this, of "x # ys"] assms p
  show "packets (Payload n []) (p @ ys) = p # packets (Header []) ys"
    and "polite (Payload n []) (p @ ys) = polite (Header []) ys" by simp_all
qed

lemma feed_header:
  "packets (Header []) (be32 v @ ys) = packets (Payload (unat v - 4) []) ys"
  "polite (Header []) (be32 v @ ys) = (announced_ok (Payload (unat v - 4) []) \<and> polite (Payload (unat v - 4) []) ys)"
  by (simp_all add: be32_def)

lemma texts_of_packets:
  assumes "\<forall>t \<in> set ts. short_text t"
  shows "texts (Header []) (concat (map packet_bytes ts)) = ts"
    and "polite (Header []) (concat (map packet_bytes ts))"
proof -
  have pk: "unat (of_nat (8 + length t) :: u32) - 4 = length (be32 PTYPE_COMMAND @ t)" if "short_text t" for t
    using unat_small [where 'a = 32, of "8 + length t"] that by (simp add: short_text_def)
  have tw: "takeWhile (\<lambda>x. x \<noteq> 0) t = t" if "short_text t" for t
    using that by (auto simp: short_text_def takeWhile_eq_all_conv)
  show "texts (Header []) (concat (map packet_bytes ts)) = ts"
    using assms
  proof (induction ts)
    case (Cons t ts)
    then have "packets (Header []) (packet_bytes t @ concat (map packet_bytes ts))
        = (be32 PTYPE_COMMAND @ t) # packets (Header []) (concat (map packet_bytes ts))"
      using feed_packet(1) [of "length (be32 PTYPE_COMMAND @ t)" "be32 PTYPE_COMMAND @ t"] pk
      by (simp add: packet_bytes_def feed_header)
    with Cons tw [of t] show ?case by (simp add: texts_def map_filter_simps command_text_def)
  qed (simp add: texts_def map_filter_simps)
  show "polite (Header []) (concat (map packet_bytes ts))"
    using assms
  proof (induction ts)
    case (Cons t ts)
    then show ?case
      using feed_packet(2) [of "length (be32 PTYPE_COMMAND @ t)" "be32 PTYPE_COMMAND @ t"] pk
      by (simp add: packet_bytes_def feed_header short_text_def)
  qed simp
qed

section \<open>Long packets\<close>

lemma header_run:
  assumes rc: "rtc3d_conns w l = Some rc" "l \<noteq> 0" "size_left rc = 4" "packet_size rc = 0"
    and m: "os_malloc (tcp_os w) (os_calls w)"
  shows "run_steps (map (read_byte command l) (be32 v)) w = Inr (put_rtc3d l
    (rc\<lparr>size_left := 0, packet_size := v - 4, data_left := ucast (v - 4),
       packet_data := Data_block \<lparr>block_len = unat (v - 4 + 1), block_at = \<lambda>_. None\<rparr>\<rparr>)
    (w\<lparr>os_calls := Suc (os_calls w)\<rparr>))"
proof -
  let ?rc = "\<lambda>k s. rc\<lparr>size_left := k, packet_size := s\<rparr>"
  have step: "read_byte command l x (put_rtc3d l (?rc k s) w) = Inr (put_rtc3d l (?rc (k - 1) (set_byte (unat k - 1) x s)) w)"
    if "k \<noteq> 0" "k - 1 \<noteq> 0" for k s x
    using that rc(2) by (simp add: read_byte_def deref_rtc3d_def read_header_byte_def Let_def put_rtc3d_def
        reader_fields_order)
  have w: "w = put_rtc3d l (?rc 4 (le32 0 0 0 0)) w"
    using rc by (cases rc) (simp add: put_rtc3d_def le32_0 fun_upd_idem)
  have last: "read_byte command l x (put_rtc3d l (?rc 1 s) w) = Inr (put_rtc3d l
    (rc\<lparr>size_left := 0, packet_size := set_byte 0 x s - 4, data_left := ucast (set_byte 0 x s - 4),
       packet_data := Data_block \<lparr>block_len = unat (set_byte 0 x s - 4 + 1), block_at = \<lambda>_. None\<rparr>\<rparr>)
    (w\<lparr>os_calls := Suc (os_calls w)\<rparr>))" for x s
    using rc(2) m by (simp add: read_byte_def deref_rtc3d_def read_header_byte_def Let_def put_rtc3d_def
        os_call_def reader_fields_order)
  have "run_steps (map (read_byte command l) (be32 v)) (put_rtc3d l (?rc 4 (le32 0 0 0 0)) w) = Inr (put_rtc3d l
    (rc\<lparr>size_left := 0, packet_size := v - 4, data_left := ucast (v - 4),
       packet_data := Data_block \<lparr>block_len = unat (v - 4 + 1), block_at = \<lambda>_. None\<rparr>\<rparr>)
    (w\<lparr>os_calls := Suc (os_calls w)\<rparr>))"
    by (simp add: be32_def step set_byte_le32 last)
  with w show ?thesis by simp
qed

lemma deaf: "rtc3d_conns w l = Some rc \<Longrightarrow> l \<noteq> 0 \<Longrightarrow> size_left rc = 0 \<Longrightarrow> data_left rc = 0 \<Longrightarrow>
    run_steps (map (read_byte command l) bs) w = Inr w"
  by (induction bs) (simp_all add: read_byte_def deref_rtc3d_def)

text \<open>\<open>first_byte_unset rc\<close>: a block of the full size, with nothing at its start.\<close>

definition first_byte_unset :: "rtc3d_connection_t \<Rightarrow> bool" where
  "first_byte_unset rc \<longleftrightarrow> (\<exists>b. packet_data rc = Data_block b \<and> block_len b = Suc (unat (packet_size rc))
     \<and> block_at b 0 = None)"

lemma long_payload:
  assumes "rtc3d_conns w l = Some rc" and "l \<noteq> 0" and "net_conn rc \<noteq> 0" and "net_conns w (net_conn rc) \<noteq> None"
    and "size_left rc = 0" and "unat (data_left rc) = length bs" and "bs \<noteq> []" and "length bs + 4 \<le> unat (packet_size rc)"
    and "first_byte_unset rc"
  shows "run_steps (map (read_byte command l) bs) w = Inl (Undefined_behaviour Indeterminate_read)"
  using assms
proof (induction bs arbitrary: w rc)
  case (Cons x bs)
  then obtain b where b: "packet_data rc = Data_block b" "block_len b = Suc (unat (packet_size rc))"
    "block_at b 0 = None" by (auto simp: first_byte_unset_def)
  let ?i = "unat (packet_size rc - ucast (data_left rc))"
  have u: "unat (ucast (data_left rc) :: u32) = Suc (length bs)"
    using Cons.prems(6) unsigned_less [of "data_left rc", where 'a = nat]
    by (simp add: unsigned_ucast_eq take_bit_nat_eq_self)
  then have "(ucast (data_left rc) :: u32) \<le> packet_size rc"
    using Cons.prems(8) by (simp add: word_le_nat_alt)
  then have i: "?i = unat (packet_size rc) - Suc (length bs)" using u by (simp add: unat_sub)
  then have ib: "?i < block_len b" "?i \<noteq> 0" using b(2) Cons.prems(8) by simp_all
  let ?b = "b\<lparr>block_at := (block_at b)(?i \<mapsto> x)\<rparr>"
  let ?rc = "rc\<lparr>data_left := data_left rc - 1, packet_data := Data_block ?b\<rparr>"
  have dl: "data_left rc \<noteq> 0" using Cons.prems(6) by auto
  then have dl1: "unat (data_left rc - 1) = length bs" using Cons.prems(6) by (simp add: unat_minus_one)
  have unset: "first_byte_unset ?rc" using b ib by (simp add: first_byte_unset_def)
  have run: "read_byte command l x w = (if data_left rc - 1 = 0
      then bind_outcome (packet_handler command l (put_rtc3d l ?rc w)) (\<lambda>w.
        bind_outcome (deref_rtc3d l w) (\<lambda>rc.
          Inr (put_rtc3d l (rc\<lparr>packet_data := Data_freed, packet_size := 0, size_left := 4\<rparr>) w)))
      else Inr (put_rtc3d l ?rc w))"
    using Cons.prems(1,2,5) b(1) ib(1) dl
    by (simp add: read_byte_def deref_rtc3d_def read_payload_byte_def store8_def Let_def reader_fields_order)
  show ?case
  proof (cases bs)
    case Nil
    with dl1 have "data_left rc - 1 = 0" by (simp add: unat_eq_0)
    moreover have "packet_handler command l (put_rtc3d l ?rc w) = Inl (Undefined_behaviour Indeterminate_read)"
      using Cons.prems(2-4) b ib
      by (auto simp: packet_handler_def deref_rtc3d_def deref_conn_def get_uint32_def load8_def put_rtc3d_def)
    ultimately show ?thesis using run by simp
  next
    case (Cons y ys)
    with dl1 have "data_left rc - 1 \<noteq> 0" by auto
    moreover have "run_steps (map (read_byte command l) bs) (put_rtc3d l ?rc w) = Inl (Undefined_behaviour Indeterminate_read)"
      by (rule Cons.IH [of _ ?rc]) (use Cons.prems dl1 Cons unset in \<open>simp_all add: put_rtc3d_def\<close>)
    ultimately show ?thesis using run by simp
  qed
qed simp

text \<open>
  C29: packets that are too long. The number of bytes still expected is kept in 8 bits. After the size
  field of a packet whose remaining length is a multiple of 256 (an empty packet, a command of 252
  characters), the connection ignores everything it receives. After any other with 256 or more
  bytes to come (or a size below 3, whose remaining length wraps around), the packet is taken for
  complete when it is not, and its type is read from memory that has not been written.
\<close>

theorem oversized_packet:
  assumes rc: "rtc3d_conns w l = Some rc" "l \<noteq> 0" "net_conn rc \<noteq> 0" "net_conns w (net_conn rc) \<noteq> None"
    and idle: "size_left rc = 4" "packet_size rc = 0" and m: "os_malloc (tcp_os w) (os_calls w)"
  shows "(unat (v - 4) mod 256 = 0 \<longrightarrow>
      (\<exists>w'. written w' = written w \<and> (\<forall>bs. run_steps (map (read_byte command l) (be32 v @ bs)) w = Inr w')))
    \<and> (256 \<le> unat (v - 4) \<and> v \<noteq> 3 \<and> length bs = unat (v - 4) mod 256 \<and> bs \<noteq> [] \<longrightarrow>
      run_steps (map (read_byte command l) (be32 v @ bs)) w = Inl (Undefined_behaviour Indeterminate_read))"
proof (intro conjI impI)
  let ?rc = "rc\<lparr>size_left := 0, packet_size := v - 4, data_left := ucast (v - 4),
    packet_data := Data_block \<lparr>block_len = unat (v - 4 + 1), block_at = \<lambda>_. None\<rparr>\<rparr>"
  let ?w = "put_rtc3d l ?rc (w\<lparr>os_calls := Suc (os_calls w)\<rparr>)"
  have run: "run_steps (map (read_byte command l) (be32 v @ bs)) w = run_steps (map (read_byte command l) bs) ?w" for bs
    using header_run [OF rc(1,2) idle m] by (simp add: run_steps_append)
  have dl: "unat (ucast (v - 4) :: u8) = unat (v - 4) mod 256"
    by (simp add: unsigned_ucast_eq take_bit_eq_mod)
  show "\<exists>w'. written w' = written w \<and> (\<forall>bs. run_steps (map (read_byte command l) (be32 v @ bs)) w = Inr w')"
    if "unat (v - 4) mod 256 = 0"
  proof (intro exI conjI allI)
    show "written ?w = written w" by (simp add: put_rtc3d_def)
    have "data_left ?rc = 0" using that dl by (simp add: unat_eq_0)
    with deaf [of ?w l ?rc] rc(2) show "run_steps (map (read_byte command l) (be32 v @ bs)) w = Inr ?w" for bs
      unfolding run by simp
  qed
  show "run_steps (map (read_byte command l) (be32 v @ bs)) w = Inl (Undefined_behaviour Indeterminate_read)"
    if v: "256 \<le> unat (v - 4) \<and> v \<noteq> 3 \<and> length bs = unat (v - 4) mod 256 \<and> bs \<noteq> []"
    unfolding run
  proof (rule long_payload [of _ l ?rc])
    have "n mod 256 + 4 \<le> n" if "256 \<le> n" for n :: nat
    proof -
      have "1 \<le> n div 256" using div_le_mono [OF that, of 256] by simp
      with mult_div_mod_eq [of 256 n] show ?thesis by linarith
    qed
    with v show "length bs + 4 \<le> unat (packet_size ?rc)" by simp
    have "v - 4 + 1 \<noteq> 0" using v by (simp add: algebra_simps) 
    then have "unat (v - 4 + 1) = Suc (unat (v - 4))" using unatSuc [of "v - 4"] by (simp add: add.commute)
    then show "first_byte_unset ?rc" by (simp add: first_byte_unset_def)
  qed (use rc v dl in \<open>simp_all add: put_rtc3d_def\<close>)
qed

end
