(* ===== verification/Can_Interface.thy ===== *)
theory Can_Interface
  imports Prelude
begin

text \<open>
  The CAN interface, \<^verbatim>\<open>libsled/interface.cc\<close>: frames, the interface record, NMT commands, SDO
  requests, and the dispatch of received frames. The PEAK driver library is not part of the
  repository; its answers are the record \<open>can_driver\<close>, a parameter that every definition takes
  inside its environment. An answer may differ from call to call: it is indexed by the number of
  driver calls made so far.

  \<open>intf_open\<close> and \<open>intf_close\<close> end in the close handler, which re-enters the interface state
  machine; the part of each that precedes the handler is defined here (\<open>intf_open_core\<close>,
  \<open>intf_close_core\<close>) and the whole functions in theory \<open>Mch_Intf\<close>.
\<close>

section \<open>Data\<close>

text \<open>\<^verbatim>\<open>uint8_t data[8]\<close>: an array that always has eight bytes.\<close>

datatype bytes8 = Bytes8 (byte0: u8) (byte1: u8) (byte2: u8) (byte3: u8)
  (byte4: u8) (byte5: u8) (byte6: u8) (byte7: u8)

datatype message_type_t = mt_status | mt_extended | mt_rtr | mt_standard

fun message_type_code :: "message_type_t \<Rightarrow> u8" where
  "message_type_code mt_status = 0x80"
| "message_type_code mt_extended = 0x02"
| "message_type_code mt_rtr = 0x01"
| "message_type_code mt_standard = 0x00"

record can_message_t =
  msg_id :: u16
  msg_type :: u8
  msg_len :: u8
  msg_data :: bytes8

text \<open>\<^verbatim>\<open>TPCANMsg\<close> inside a \<^verbatim>\<open>TPCANRdMsg\<close>, as the driver fills it.\<close>

record can_rdmsg =
  rd_ID :: u32
  rd_MSGTYPE :: u8
  rd_LEN :: u8
  rd_DATA :: bytes8

record can_driver =
  CAN_ERR_OK :: u32
  CAN_ERR_QRCVEMPTY :: u32
  MSGTYPE_STATUS :: u8
  stat_device :: "nat \<Rightarrow> bool option"
  LINUX_CAN_Open :: "nat \<Rightarrow> nat"
  CAN_Init :: "nat \<Rightarrow> u32"
  LINUX_CAN_FileHandle :: "nat \<Rightarrow> int"
  CAN_Close :: "nat \<Rightarrow> u32"
  CAN_Write :: "nat \<Rightarrow> can_message_t \<Rightarrow> u32"
  LINUX_CAN_Read :: "nat \<Rightarrow> u32 \<times> can_rdmsg"
  CAN_Status :: "nat \<Rightarrow> u32"

text \<open>
  \<^verbatim>\<open>intf_t\<close>. A function pointer of this record is only ever NULL or one particular function
  (\<^verbatim>\<open>intf_on_nmt\<close>, \<^verbatim>\<open>intf_on_tpdo\<close>, \<^verbatim>\<open>intf_on_close\<close> of \<^verbatim>\<open>sled.cc\<close>, and the three callbacks of
  \<^verbatim>\<open>mch_sdo.cc\<close>), so it is a Boolean: whether it is set.
\<close>

record intf_t =
  handle :: nat
  fd :: int
  read_event :: bool
  nmt_state_handler :: bool
  tpdo_handler :: bool
  close_handler :: bool
  sdo_callback_data :: bool
  intf_write_callback :: bool
  intf_read_callback :: bool
  intf_abort_callback :: bool

text \<open>The interface with its surroundings: the driver, and the frames given to \<^verbatim>\<open>CAN_Write\<close>.\<close>

record io_env =
  driver :: can_driver
  calls :: nat
  sent :: "can_message_t list"
  interface :: intf_t

datatype intf_upcall =
    Nmt_state_handler u8
  | Tpdo_handler nat bytes8
  | Write_callback u16 u8
  | Read_callback u16 u8 u32
  | Abort_callback u16 u8 u32

section \<open>Object dictionary\<close>

definition NMT_ENTERPREOPERATIONAL :: u8 where "NMT_ENTERPREOPERATIONAL = 0x80"
definition NMT_STARTREMOTENODE :: u8 where "NMT_STARTREMOTENODE = 0x01"

definition OB_O_P :: u16 where "OB_O_P = 0x35BE"
definition OB_O_V :: u16 where "OB_O_V = 0x35BF"
definition OB_O_C :: u16 where "OB_O_C = 0x35B9"
definition OB_O_ACC :: u16 where "OB_O_ACC = 0x35B7"
definition OB_O_DEC :: u16 where "OB_O_DEC = 0x35BA"
definition OB_O_TAB :: u16 where "OB_O_TAB = 0x35B8"
definition OB_O_FN :: u16 where "OB_O_FN = 0x35BC"
definition OB_O_FT :: u16 where "OB_O_FT = 0x35BD"
definition OB_O_O1 :: u16 where "OB_O_O1 = 0x35AE"
definition OB_MOTION_TASK :: u16 where "OB_MOTION_TASK = 0x2080"
definition OB_COPY_MOTION_TASK :: u16 where "OB_COPY_MOTION_TASK = 0x2082"
definition OB_CONTROL_WORD :: u16 where "OB_CONTROL_WORD = 0x6040"

lemmas OB_defs = OB_O_P_def OB_O_V_def OB_O_C_def OB_O_ACC_def OB_O_DEC_def OB_O_TAB_def
  OB_O_FN_def OB_O_FT_def OB_O_O1_def OB_MOTION_TASK_def OB_COPY_MOTION_TASK_def
  OB_CONTROL_WORD_def

section \<open>Opening and closing\<close>

definition intf_clear_sdo_callbacks :: "intf_t \<Rightarrow> intf_t" where
  "intf_clear_sdo_callbacks intf = intf\<lparr>sdo_callback_data := False, intf_read_callback := False,
     intf_write_callback := False, intf_abort_callback := False\<rparr>"

definition intf_create :: intf_t where
  "intf_create = intf_clear_sdo_callbacks
     \<lparr>handle = 0, fd = 0, read_event = False, nmt_state_handler = False, tpdo_handler = False,
      close_handler = False, sdo_callback_data = False, intf_write_callback = False,
      intf_read_callback = False, intf_abort_callback = False\<rparr>"

definition intf_set_nmt_state_handler :: "intf_t \<Rightarrow> intf_t" where
  "intf_set_nmt_state_handler intf = intf\<lparr>nmt_state_handler := True\<rparr>"

definition intf_set_tpdo_handler :: "intf_t \<Rightarrow> intf_t" where
  "intf_set_tpdo_handler intf = intf\<lparr>tpdo_handler := True\<rparr>"

definition intf_set_close_handler :: "intf_t \<Rightarrow> intf_t" where
  "intf_set_close_handler intf = intf\<lparr>close_handler := True\<rparr>"

definition set_interface :: "(intf_t \<Rightarrow> intf_t) \<Rightarrow> 'z io_env_scheme \<Rightarrow> 'z io_env_scheme" where
  "set_interface f w = w\<lparr>interface := f (interface w)\<rparr>"

text \<open>One call of the driver.\<close>

definition driver_call :: "(can_driver \<Rightarrow> nat \<Rightarrow> 'r) \<Rightarrow> 'z io_env_scheme \<Rightarrow> 'r \<times> 'z io_env_scheme" where
  "driver_call f w = (f (driver w) (calls w), w\<lparr>calls := Suc (calls w)\<rparr>)"

text \<open>
  \<open>Open_init_failed\<close>: \<^verbatim>\<open>CAN_Init\<close> failed, so \<^verbatim>\<open>intf_close\<close> is called before -1 is returned.
\<close>

datatype open_result = Open_done | Open_failed | Open_init_failed

definition intf_open_core :: "'z io_env_scheme \<Rightarrow> open_result \<times> 'z io_env_scheme" where
  "intf_open_core w =
     (if handle (interface w) \<noteq> 0 then (Open_done, w)
      else let (st, w) = driver_call stat_device w in
      (case st of
         None \<Rightarrow> (Open_failed, w)
       | Some is_chr \<Rightarrow>
           if \<not> is_chr then (Open_failed, w)
           else let (h, w) = driver_call LINUX_CAN_Open w;
                    w = set_interface (\<lambda>i. i\<lparr>handle := h\<rparr>) w in
           if h = 0 then (Open_failed, w)
           else let (result, w) = driver_call CAN_Init w in
           if result \<noteq> CAN_ERR_OK (driver w) \<and> result \<noteq> CAN_ERR_QRCVEMPTY (driver w)
           then (Open_init_failed, w)
           else let (f, w) = driver_call LINUX_CAN_FileHandle w in
             (Open_done, set_interface (\<lambda>i. i\<lparr>fd := f, read_event := True\<rparr>) w)))"

text \<open>\<open>True\<close>: the device is closed, and the close handler runs next. \<open>False\<close>: -1 is returned.\<close>

definition intf_close_core :: "'z io_env_scheme \<Rightarrow> bool \<times> 'z io_env_scheme" where
  "intf_close_core w =
     (let w = set_interface (\<lambda>i. i\<lparr>read_event := False\<rparr>) w in
      if handle (interface w) \<noteq> 0
      then let (result, w) = driver_call CAN_Close w in
        if result \<noteq> CAN_ERR_OK (driver w) then (False, w)
        else (True, set_interface (\<lambda>i. i\<lparr>handle := 0, fd := 0\<rparr>) w)
      else (True, w))"

section \<open>Sending\<close>

definition intf_write :: "can_message_t \<Rightarrow> 'z io_env_scheme \<Rightarrow> int \<times> 'z io_env_scheme" where
  "intf_write msg w =
     (let (result, w) = driver_call (\<lambda>d n. CAN_Write d n msg) w;
          w = w\<lparr>sent := sent w @ [msg]\<rparr> in
      if result = - 1 then (- 1, w) else (0, w))"

definition nmt_frame :: "u8 \<Rightarrow> can_message_t" where
  "nmt_frame command = \<lparr>msg_id = 0, msg_type = message_type_code mt_standard, msg_len = 2,
     msg_data = Bytes8 command 1 0 0 0 0 0 0\<rparr>"

definition intf_send_nmt_command :: "u8 \<Rightarrow> 'z io_env_scheme \<Rightarrow> int \<times> 'z io_env_scheme" where
  "intf_send_nmt_command command w = intf_write (nmt_frame command) w"

definition read_req_frame :: "u16 \<Rightarrow> u8 \<Rightarrow> can_message_t" where
  "read_req_frame index subindex =
     \<lparr>msg_id = push_bit 7 0x0C + 1, msg_type = message_type_code mt_standard, msg_len = 8,
      msg_data = Bytes8 0x40 (ucast (index AND 0x00FF)) (ucast (drop_bit 8 (index AND 0xFF00)))
        subindex 0 0 0 0\<rparr>"

definition write_req_frame :: "u16 \<Rightarrow> u8 \<Rightarrow> u32 \<Rightarrow> u8 \<Rightarrow> can_message_t" where
  "write_req_frame index subindex val sz =
     \<lparr>msg_id = push_bit 7 0x0C + 1, msg_type = message_type_code mt_standard, msg_len = 8,
      msg_data = Bytes8 (0x2F - ((sz - 1) * 4))
        (ucast (index AND 0x00FF)) (ucast (drop_bit 8 (index AND 0xFF00))) subindex
        (ucast (val AND 0x000000FF)) (ucast (drop_bit 8 (val AND 0x0000FF00)))
        (ucast (drop_bit 16 (val AND 0x00FF0000))) (ucast (drop_bit 24 (val AND 0xFF000000)))\<rparr>"

definition intf_send_read_req :: "u16 \<Rightarrow> u8 \<Rightarrow> 'z io_env_scheme \<Rightarrow> int \<times> 'z io_env_scheme" where
  "intf_send_read_req index subindex w =
     intf_write (read_req_frame index subindex)
       (set_interface (\<lambda>i. i\<lparr>intf_read_callback := True, intf_write_callback := False,
          intf_abort_callback := True, sdo_callback_data := True\<rparr>) w)"

definition intf_send_write_req ::
    "u16 \<Rightarrow> u8 \<Rightarrow> u32 \<Rightarrow> u8 \<Rightarrow> 'z io_env_scheme \<Rightarrow> int \<times> 'z io_env_scheme" where
  "intf_send_write_req index subindex val sz w =
     intf_write (write_req_frame index subindex val sz)
       (set_interface (\<lambda>i. i\<lparr>intf_read_callback := False, intf_write_callback := True,
          intf_abort_callback := True, sdo_callback_data := True\<rparr>) w)"

section \<open>Receiving\<close>

text \<open>The part of \<^verbatim>\<open>intf_dispatch_msg\<close> that handles a frame of function 0x0B.\<close>

definition sdo_response_value :: "bytes8 \<Rightarrow> u32" where
  "sdo_response_value d =
     (if byte0 d = 0x80 \<or> byte0 d = 0x43
      then ucast (byte4 d) + push_bit 8 (ucast (byte5 d)) + push_bit 16 (ucast (byte6 d))
        + push_bit 24 (ucast (byte7 d))
      else if byte0 d = 0x47
      then ucast (byte4 d) + push_bit 8 (ucast (byte5 d)) + push_bit 16 (ucast (byte6 d))
      else if byte0 d = 0x4B then ucast (byte4 d) + push_bit 8 (ucast (byte5 d))
      else ucast (byte4 d))"

definition dispatch_sdo_response :: "intf_t \<Rightarrow> bytes8 \<Rightarrow> intf_upcall list" where
  "dispatch_sdo_response intf d =
     (let index = ucast (byte1 d) + push_bit 8 (ucast (byte2 d)); subindex = byte3 d;
          val = sdo_response_value d in
      (if byte0 d = 0x60 \<and> intf_write_callback intf then [Write_callback index subindex] else [])
      @ (if (byte0 d = 0x43 \<or> byte0 d = 0x47 \<or> byte0 d = 0x4B \<or> byte0 d = 0x4F)
            \<and> intf_read_callback intf then [Read_callback index subindex val] else [])
      @ (if byte0 d = 0x80 \<and> intf_abort_callback intf then [Abort_callback index subindex val]
         else []))"

text \<open>The calls that \<^verbatim>\<open>intf_dispatch_msg\<close> makes, in order (emergencies are only logged).\<close>

definition intf_dispatch_msg :: "intf_t \<Rightarrow> can_message_t \<Rightarrow> intf_upcall list" where
  "intf_dispatch_msg intf msg =
     (let function = unat (drop_bit 7 (msg_id msg)); d = msg_data msg in
      (if (function = 0x03 \<or> function = 0x05 \<or> function = 0x07 \<or> function = 0x09)
          \<and> tpdo_handler intf then [Tpdo_handler ((function - 1) div 2) d] else [])
      @ (if function = 0x0E \<and> nmt_state_handler intf
         then [Nmt_state_handler (byte0 d AND 0x7F)] else [])
      @ (if function = 0x0B then dispatch_sdo_response intf d else []))"

datatype read_result = Read_nothing | Read_close | Read_dispatch can_message_t

text \<open>
  \<^verbatim>\<open>intf_on_read\<close> up to the calls it makes last. The status test is written
  \<^verbatim>\<open>MSGTYPE & MSGTYPE_STATUS == MSGTYPE_STATUS\<close>; in C++ the comparison binds tighter.
\<close>

definition intf_on_read_core :: "'z io_env_scheme \<Rightarrow> read_result \<times> 'z io_env_scheme" where
  "intf_on_read_core w =
     (if fd (interface w) = 0 then (Read_nothing, w)
      else let ((result, message), w) = driver_call LINUX_CAN_Read w in
      if result = CAN_ERR_QRCVEMPTY (driver w) then (Read_nothing, w)
      else if result \<noteq> CAN_ERR_OK (driver w) then (Read_close, w)
      else if rd_MSGTYPE message
              AND (if MSGTYPE_STATUS (driver w) = MSGTYPE_STATUS (driver w) then 1 else 0) \<noteq> 0
      then let (status, w) = driver_call CAN_Status w in
        if sint status < 0 then (Read_close, w) else (Read_nothing, w)
      else (Read_dispatch \<lparr>msg_id = ucast (rd_ID message), msg_type = rd_MSGTYPE message,
              msg_len = rd_LEN message, msg_data = rd_DATA message\<rparr>, w))"

section \<open>Frames of driver calls\<close>

lemma driver_call_simps [simp]:
  "fst (driver_call f w) = f (driver w) (calls w)"
  "snd (driver_call f w) = w\<lparr>calls := Suc (calls w)\<rparr>"
  by (simp_all add: driver_call_def)

lemma set_interface_simps [simp]:
  "interface (set_interface f w) = f (interface w)"
  "driver (set_interface f w) = driver w"
  "calls (set_interface f w) = calls w"
  "sent (set_interface f w) = sent w"
  "io_env.more (set_interface f w) = io_env.more w"
  by (simp_all add: set_interface_def)

lemma intf_write_frame [frame_simps]:
  "sent (snd (intf_write msg w)) = sent w @ [msg]"
  "driver (snd (intf_write msg w)) = driver w"
  "interface (snd (intf_write msg w)) = interface w"
  "io_env.more (snd (intf_write msg w)) = io_env.more w"
  by (simp_all add: intf_write_def driver_call_def Let_def)

lemma intf_close_core_frame [frame_simps]:
  "driver (snd (intf_close_core w)) = driver w"
  "sent (snd (intf_close_core w)) = sent w"
  "io_env.more (snd (intf_close_core w)) = io_env.more w"
  by (simp_all add: intf_close_core_def driver_call_def Let_def)

lemma intf_open_core_frame [frame_simps]:
  "driver (snd (intf_open_core w)) = driver w"
  "sent (snd (intf_open_core w)) = sent w"
  "io_env.more (snd (intf_open_core w)) = io_env.more w"
  by (simp_all add: intf_open_core_def driver_call_def Let_def split: option.split)

lemma intf_on_read_core_frame [frame_simps]:
  "interface (snd (intf_on_read_core w)) = interface w"
  "sent (snd (intf_on_read_core w)) = sent w"
  "io_env.more (snd (intf_on_read_core w)) = io_env.more w"
  by (simp_all add: intf_on_read_core_def driver_call_def Let_def split: prod.split)

section \<open>SDO requests on the wire\<close>

text \<open>
  The expedited SDO transfers of CiA 301, as the drive reads them: the command byte carries the
  command specifier in its top three bits, the number of unused data bytes in bits 3 and 2, and
  the expedited and size flags in bits 1 and 0; then index, subindex and data, all little-endian.
\<close>

definition cia301_expedited_command :: "u8 \<Rightarrow> nat \<Rightarrow> u8" where
  "cia301_expedited_command specifier n_bytes =
     push_bit 5 specifier OR push_bit 2 (of_nat (4 - n_bytes)) OR 3"

definition frame_index :: "bytes8 \<Rightarrow> u16" where
  "frame_index d = le16 (byte1 d) (byte2 d)"

definition frame_value :: "bytes8 \<Rightarrow> u32" where
  "frame_value d = le32 (byte4 d) (byte5 d) (byte6 d) (byte7 d)"

definition cia301_upload_response :: "u16 \<Rightarrow> u8 \<Rightarrow> nat \<Rightarrow> u32 \<Rightarrow> bytes8" where
  "cia301_upload_response index subindex n_bytes val =
     Bytes8 (cia301_expedited_command 2 n_bytes) (lo8 index 0) (lo8 index 8) subindex
       (lo8 val 0) (lo8 val 8) (lo8 val 16) (lo8 val 24)"

lemma push_bit_7_0x0C: "push_bit 7 0x0C + 1 = (0x601 :: u16)"
  by simp

lemma write_req_frame_bytes:
  "write_req_frame index subindex val sz =
     \<lparr>msg_id = 0x601, msg_type = 0, msg_len = 8,
      msg_data = Bytes8 (0x2F - ((sz - 1) * 4)) (lo8 index 0) (lo8 index 8) subindex
        (lo8 val 0) (lo8 val 8) (lo8 val 16) (lo8 val 24)\<rparr>"
  by (simp add: write_req_frame_def lo8_masks lo8_masks32)

lemma sdo_size_cases:
  assumes "n \<in> {1, 2, 3, 4 :: nat}"
  obtains "n = 1" | "n = 2" | "n = 3" | "n = 4"
  using assms by auto

text \<open>
  C23: every SDO write request the interface sends is the CiA 301 expedited download request for
  its index, subindex, value and size: the command byte is the one the standard prescribes for 1
  to 4 data bytes, and index, subindex and value can be read back from the frame.
\<close>

theorem write_req_frame_roundtrip:
  assumes "n \<in> {1, 2, 3, 4 :: nat}"
  shows "byte0 (msg_data (write_req_frame index subindex val (of_nat n)))
           = cia301_expedited_command 1 n
       \<and> frame_index (msg_data (write_req_frame index subindex val (of_nat n))) = index
       \<and> byte3 (msg_data (write_req_frame index subindex val (of_nat n))) = subindex
       \<and> frame_value (msg_data (write_req_frame index subindex val (of_nat n))) = val
       \<and> msg_id (write_req_frame index subindex val (of_nat n)) = 0x600 + 1"
proof -
  have "0x2F - ((of_nat n - 1) * 4) = cia301_expedited_command 1 n"
    using assms by (rule sdo_size_cases) (simp_all add: cia301_expedited_command_def)
  then show ?thesis
    by (simp add: write_req_frame_bytes frame_index_def frame_value_def)
qed

theorem write_req_frame_roundtrip_witness:
  "frame_value (msg_data (write_req_frame 0x6040 0 0x1F (of_nat 2))) = 0x1F
   \<and> byte0 (msg_data (write_req_frame 0x6040 0 0x1F (of_nat 2))) = 0x2B"
  using write_req_frame_roundtrip [of 2 "0x6040" 0 "0x1F"]
  by (simp add: cia301_expedited_command_def)

lemma sdo_response_value_upload:
  assumes "n \<in> {1, 2, 3, 4 :: nat}"
  shows "sdo_response_value (cia301_upload_response index subindex n val) = take_bit (8 * n) val"
  using assms
proof (rule sdo_size_cases)
  assume "n = 1"
  then show ?thesis
    using le32_lo8_take(1) [of val]
    by (simp add: sdo_response_value_def cia301_upload_response_def
        cia301_expedited_command_def le32_def)
next
  assume "n = 2"
  then show ?thesis
    using le32_lo8_take(2) [of val]
    by (simp add: sdo_response_value_def cia301_upload_response_def
        cia301_expedited_command_def le32_def)
next
  assume "n = 3"
  then show ?thesis
    using le32_lo8_take(3) [of val]
    by (simp add: sdo_response_value_def cia301_upload_response_def
        cia301_expedited_command_def le32_def)
next
  assume "n = 4"
  then show ?thesis
    using le32_lo8 [of val]
    by (simp add: take_bit_word_eq_self sdo_response_value_def cia301_upload_response_def
        cia301_expedited_command_def le32_def)
qed

text \<open>
  C25: an expedited upload response of the drive with 1 to 4 data bytes, received while a read
  callback is installed, makes the dispatcher call that callback exactly once, with the index and
  subindex of the response and the value cut to the announced number of bytes.
\<close>

theorem dispatch_upload_response:
  assumes "n \<in> {1, 2, 3, 4 :: nat}" and "intf_read_callback intf"
  shows "intf_dispatch_msg intf
           \<lparr>msg_id = 0x581, msg_type = t, msg_len = 8,
            msg_data = cia301_upload_response index subindex n val\<rparr>
         = [Read_callback index subindex (take_bit (8 * n) val)]"
proof -
  have idx: "(ucast (lo8 index 0) :: u16) + push_bit 8 (ucast (lo8 index 8)) = index"
    using le16_lo8 [of index] by (simp add: le16_def)
  show ?thesis
    using assms sdo_response_value_upload [OF assms(1), of index subindex val]
    by (auto simp: intf_dispatch_msg_def dispatch_sdo_response_def Let_def idx
        cia301_upload_response_def cia301_expedited_command_def)
qed

theorem dispatch_upload_response_witness:
  "intf_dispatch_msg (intf_create\<lparr>intf_read_callback := True\<rparr>)
     \<lparr>msg_id = 0x581, msg_type = 0, msg_len = 8,
      msg_data = cia301_upload_response 0x3518 1 2 0x12345678\<rparr>
   = [Read_callback 0x3518 1 0x5678]"
  using dispatch_upload_response [of 2 "intf_create\<lparr>intf_read_callback := True\<rparr>" 0 "0x3518" 1
      "0x12345678"]
  by simp

section \<open>Dispatch\<close>

lemma dispatch_sdo_response_length: "length (dispatch_sdo_response intf d) \<le> 1"
  by (auto simp: dispatch_sdo_response_def Let_def)

text \<open>
  One received frame makes at most one call out of the interface, and none at all when no
  handler and no callback is installed.
\<close>

lemma dispatch_at_most_one:
  "length (intf_dispatch_msg intf msg) \<le> 1
   \<and> intf_dispatch_msg intf_create msg = []"
  using dispatch_sdo_response_length [of intf "msg_data msg"]
  by (auto simp: intf_dispatch_msg_def intf_create_def intf_clear_sdo_callbacks_def
      dispatch_sdo_response_def Let_def)

text \<open>
  A transmit PDO of node 1 with number k in 1..4 (identifier 0x180 + 0x100 * (k - 1) + 1)
  reaches the PDO handler with that number and the eight data bytes.
\<close>

lemma dispatch_tpdo_number:
  assumes "k \<in> {1, 2, 3, 4 :: nat}" and "tpdo_handler intf"
  shows "intf_dispatch_msg intf
           \<lparr>msg_id = of_nat (0x180 + 0x100 * (k - 1) + 1), msg_type = t, msg_len = l, msg_data = d\<rparr>
         = [Tpdo_handler k d]"
  using assms(1) by (rule sdo_size_cases) (simp_all add: intf_dispatch_msg_def assms(2))

lemma and_1_eq_0_iff: "(x :: u8) AND 1 = 0 \<longleftrightarrow> \<not> bit x 0"
  by (simp add: and_one_eq odd_iff_mod_2_eq_one bit_0 flip: not_mod_2_eq_1_eq_0)

text \<open>
  The status test of the reader looks at bit 0 of the message type only. So a driver status
  message (type 0x80) is dispatched as if it were a data frame, and a remote request frame (type
  0x01) is taken for a status message.
\<close>

lemma on_read_status_misread:
  assumes "fd (interface w) \<noteq> 0"
    and "LINUX_CAN_Read (driver w) (calls w) = (CAN_ERR_OK (driver w), message)"
    and "CAN_ERR_OK (driver w) \<noteq> CAN_ERR_QRCVEMPTY (driver w)"
  shows "fst (intf_on_read_core w) =
      (if bit (rd_MSGTYPE message) 0
       then if sint (CAN_Status (driver w) (Suc (calls w))) < 0 then Read_close else Read_nothing
       else Read_dispatch \<lparr>msg_id = ucast (rd_ID message), msg_type = rd_MSGTYPE message,
              msg_len = rd_LEN message, msg_data = rd_DATA message\<rparr>)
    \<and> \<not> bit (message_type_code mt_status) 0 \<and> bit (message_type_code mt_rtr) 0"
  using assms
  by (simp add: intf_on_read_core_def driver_call_def Let_def and_1_eq_0_iff)

text \<open>A concrete driver for the witnesses: the device opens, and one frame is pending.\<close>

definition sample_driver :: "can_rdmsg \<Rightarrow> can_driver" where
  "sample_driver m = \<lparr>CAN_ERR_OK = 0, CAN_ERR_QRCVEMPTY = 0x20, MSGTYPE_STATUS = 0x80,
     stat_device = (\<lambda>_. Some True), LINUX_CAN_Open = (\<lambda>_. 1), CAN_Init = (\<lambda>_. 0),
     LINUX_CAN_FileHandle = (\<lambda>_. 5), CAN_Close = (\<lambda>_. 0), CAN_Write = (\<lambda>_ _. 0),
     LINUX_CAN_Read = (\<lambda>_. (0, m)), CAN_Status = (\<lambda>_. 0)\<rparr>"

definition sample_io :: "can_rdmsg \<Rightarrow> io_env" where
  "sample_io m = \<lparr>driver = sample_driver m, calls = 0, sent = [],
     interface = intf_create\<lparr>handle := 1, fd := 5, read_event := True\<rparr>\<rparr>"

end
