(* ===== verification/Mch_Sdo.thy ===== *)
theory Mch_Sdo
  imports Can_Interface
begin

text \<open>
  The SDO machine, \<^verbatim>\<open>libsled/machines/mch_sdo.cc\<close>: a queue of SDO requests of which at most one
  is in flight. Entering \<^verbatim>\<open>SENDING\<close> takes the front of the queue and transmits it; a response
  frees the slot; leaving \<^verbatim>\<open>DISABLED\<close> or \<^verbatim>\<open>ERROR\<close> drops what has been queued meanwhile, calling
  the abort callback of every dropped request. The callbacks of the sources are constructors;
  both abort callbacks end the process.
\<close>

section \<open>Data\<close>

datatype mch_sdo_state_t = ST_SDO_DISABLED | ST_SDO_ERROR | ST_SDO_WAITING | ST_SDO_SENDING

datatype mch_sdo_event_t =
    EV_NET_SDO_DISABLED
  | EV_NET_SDO_ENABLED
  | EV_SDO_ITEM_AVAILABLE
  | EV_SDO_READ_RESPONSE
  | EV_SDO_WRITE_RESPONSE
  | EV_SDO_ABORT_RESPONSE

text \<open>What a \<^verbatim>\<open>void *data\<close> points to, and the functions installed as callbacks.\<close>

datatype sdo_data = Data_null | Data_mch_net | Data_profile nat

datatype sdo_write_callback_t = Mch_net_sdo_write_callback | On_success_callback

datatype sdo_abort_callback_t = Mch_net_sdo_abort_callback | On_failure_callback

text \<open>No function of the sources is a \<^verbatim>\<open>sdo_read_callback_t\<close>: the field only says whether one is set.\<close>

record sdo_t =
  is_write :: bool
  sdo_index :: u16
  sdo_subindex :: u8
  sdo_val :: u32
  sdo_size :: u8
  sdo_dat :: sdo_data
  abort_callback :: "sdo_abort_callback_t option"
  write_callback :: "sdo_write_callback_t option"
  read_callback :: bool

record mch_sdo_t =
  sdo_state :: mch_sdo_state_t
  sdo_queue :: "sdo_t list"
  sdo_active :: "sdo_t option"

record sdo_env = io_env +
  mch_sdo :: mch_sdo_t

definition mch_sdo_create :: mch_sdo_t where
  "mch_sdo_create = \<lparr>sdo_state = ST_SDO_DISABLED, sdo_queue = [], sdo_active = None\<rparr>"

definition set_sdo_state :: "mch_sdo_state_t \<Rightarrow> 'z sdo_env_scheme \<Rightarrow> 'z sdo_env_scheme" where
  "set_sdo_state s w = w\<lparr>mch_sdo := (mch_sdo w)\<lparr>sdo_state := s\<rparr>\<rparr>"

abbreviation sdo_state_of :: "'z sdo_env_scheme \<Rightarrow> mch_sdo_state_t" where
  "sdo_state_of w \<equiv> sdo_state (mch_sdo w)"

abbreviation sdo_queue_of :: "'z sdo_env_scheme \<Rightarrow> sdo_t list" where
  "sdo_queue_of w \<equiv> sdo_queue (mch_sdo w)"

abbreviation sdo_active_of :: "'z sdo_env_scheme \<Rightarrow> sdo_t option" where
  "sdo_active_of w \<equiv> sdo_active (mch_sdo w)"

definition push_sdo :: "sdo_t \<Rightarrow> 'z sdo_env_scheme \<Rightarrow> 'z sdo_env_scheme" where
  "push_sdo sdo w = w\<lparr>mch_sdo := (mch_sdo w)\<lparr>sdo_queue := sdo_queue_of w @ [sdo]\<rparr>\<rparr>"

section \<open>Abort callbacks\<close>

text \<open>
  Both print a message and call \<^verbatim>\<open>exit(1)\<close>. The callback of a profile first marks the field as
  invalid, which nothing can observe any more.
\<close>

definition mch_net_sdo_abort_callback :: "sdo_data \<Rightarrow> u16 \<Rightarrow> u8 \<Rightarrow> u32 \<Rightarrow> 'w action" where
  "mch_net_sdo_abort_callback dat index subindex abort w = Inl (Exit 1)"

definition on_failure_callback :: "sdo_data \<Rightarrow> u16 \<Rightarrow> u8 \<Rightarrow> u32 \<Rightarrow> 'w action" where
  "on_failure_callback dat index subindex abort w = Inl (Exit 1)"

fun call_abort :: "sdo_abort_callback_t \<Rightarrow> sdo_data \<Rightarrow> u16 \<Rightarrow> u8 \<Rightarrow> u32 \<Rightarrow> 'w action" where
  "call_abort Mch_net_sdo_abort_callback = mch_net_sdo_abort_callback"
| "call_abort On_failure_callback = on_failure_callback"

lemma call_abort_exits [simp]: "call_abort cb dat index subindex abort w = Inl (Exit 1)"
  by (cases cb) (simp_all add: mch_net_sdo_abort_callback_def on_failure_callback_def)

section \<open>The machine\<close>

fun mch_sdo_next_state_given_event ::
    "mch_sdo_state_t \<Rightarrow> mch_sdo_event_t \<Rightarrow> mch_sdo_state_t" where
  "mch_sdo_next_state_given_event ST_SDO_DISABLED event =
     (if event = EV_NET_SDO_ENABLED then ST_SDO_WAITING else ST_SDO_DISABLED)"
| "mch_sdo_next_state_given_event ST_SDO_ERROR event =
     (if event = EV_NET_SDO_ENABLED then ST_SDO_WAITING else ST_SDO_ERROR)"
| "mch_sdo_next_state_given_event ST_SDO_WAITING event =
     (if event = EV_NET_SDO_DISABLED then ST_SDO_DISABLED
      else if event = EV_SDO_ITEM_AVAILABLE then ST_SDO_SENDING
      else ST_SDO_WAITING)"
| "mch_sdo_next_state_given_event ST_SDO_SENDING event =
     (if event = EV_NET_SDO_DISABLED then ST_SDO_DISABLED
      else if event = EV_SDO_READ_RESPONSE then ST_SDO_WAITING
      else if event = EV_SDO_WRITE_RESPONSE then ST_SDO_WAITING
      else if event = EV_SDO_ABORT_RESPONSE then ST_SDO_ERROR
      else ST_SDO_SENDING)"

definition mch_sdo_send :: "sdo_t \<Rightarrow> 'z sdo_env_scheme \<Rightarrow> 'z sdo_env_scheme" where
  "mch_sdo_send sdo w =
     (if is_write sdo
      then snd (intf_send_write_req (sdo_index sdo) (sdo_subindex sdo) (sdo_val sdo)
             (sdo_size sdo) w)
      else snd (intf_send_read_req (sdo_index sdo) (sdo_subindex sdo) w))"

function mch_sdo_clear_queue :: "'z sdo_env_scheme action" where
  "mch_sdo_clear_queue w =
     (case sdo_queue_of w of
        [] \<Rightarrow> Inr w
      | sdo # rest \<Rightarrow>
          let w = w\<lparr>mch_sdo := (mch_sdo w)\<lparr>sdo_queue := rest\<rparr>\<rparr> in
          (case abort_callback sdo of
             None \<Rightarrow> mch_sdo_clear_queue w
           | Some cb \<Rightarrow>
               bind_outcome (call_abort cb (sdo_dat sdo) (sdo_index sdo) (sdo_subindex sdo) 0 w)
                 mch_sdo_clear_queue))"
  by pat_completeness auto
termination
  by (relation "measure (\<lambda>w. length (sdo_queue_of w))") auto

definition mch_sdo_on_exit :: "'z sdo_env_scheme action" where
  "mch_sdo_on_exit w =
     (case sdo_state_of w of
        ST_SDO_DISABLED \<Rightarrow> mch_sdo_clear_queue w
      | ST_SDO_ERROR \<Rightarrow> mch_sdo_clear_queue w
      | _ \<Rightarrow> Inr w)"

definition sdo_enter_rank :: "mch_sdo_state_t \<Rightarrow> nat" where
  "sdo_enter_rank s = (if s = ST_SDO_WAITING then 2 else 0)"

definition sdo_event_rank :: "mch_sdo_event_t \<Rightarrow> nat" where
  "sdo_event_rank e = (if e = EV_SDO_ITEM_AVAILABLE then 1 else 3)"

function mch_sdo_on_enter :: "'z sdo_env_scheme action"
  and mch_sdo_handle_event :: "mch_sdo_event_t \<Rightarrow> 'z sdo_env_scheme action" where
  "mch_sdo_on_enter w =
     (case sdo_state_of w of
        ST_SDO_SENDING \<Rightarrow>
          (case sdo_queue_of w of
             [] \<Rightarrow> Inl (Undefined_behaviour Out_of_bounds)
           | sdo # rest \<Rightarrow>
               Inr (mch_sdo_send sdo
                 (w\<lparr>mch_sdo := (mch_sdo w)\<lparr>sdo_active := Some sdo, sdo_queue := rest\<rparr>\<rparr>)))
      | ST_SDO_WAITING \<Rightarrow>
          if sdo_queue_of w \<noteq> [] then mch_sdo_handle_event EV_SDO_ITEM_AVAILABLE w else Inr w
      | _ \<Rightarrow> Inr w)"
| "mch_sdo_handle_event event w =
     (let next_state = mch_sdo_next_state_given_event (sdo_state_of w) event in
      if sdo_state_of w \<noteq> next_state
      then bind_outcome (mch_sdo_on_exit w) (\<lambda>w. mch_sdo_on_enter (set_sdo_state next_state w))
      else Inr w)"
  by pat_completeness auto
termination
proof (relation "measure (\<lambda>x. case x of Inl w \<Rightarrow> sdo_enter_rank (sdo_state_of w)
    | Inr (e, w) \<Rightarrow> sdo_event_rank e)", goal_cases)
  case (3 event w ns w1)
  then show ?case
    by (cases event; cases "sdo_state_of w")
      (simp_all add: sdo_enter_rank_def sdo_event_rank_def set_sdo_state_def)
qed (simp_all add: sdo_enter_rank_def sdo_event_rank_def)

declare mch_sdo_clear_queue.simps [simp del]
declare mch_sdo_on_enter.simps [simp del] mch_sdo_handle_event.simps [simp del]

section \<open>Responses\<close>

text \<open>
  The callbacks the interface calls for a response. \<open>call\<close> runs the callback of the request, a
  function of another component.
\<close>

definition finish_active :: "mch_sdo_event_t \<Rightarrow> 'z sdo_env_scheme action" where
  "finish_active event w =
     mch_sdo_handle_event event (w\<lparr>mch_sdo := (mch_sdo w)\<lparr>sdo_active := None\<rparr>\<rparr>)"

definition mch_sdo_read_callback ::
    "(sdo_data \<Rightarrow> u16 \<Rightarrow> u8 \<Rightarrow> u32 \<Rightarrow> 'z sdo_env_scheme action) \<Rightarrow> u16 \<Rightarrow> u8 \<Rightarrow> u32
      \<Rightarrow> 'z sdo_env_scheme action" where
  "mch_sdo_read_callback call index subindex val w =
     (if \<not> sdo_callback_data (interface w) then Inl Assert_failed
      else case sdo_active_of w of
        None \<Rightarrow> Inl Assert_failed
      | Some sdo \<Rightarrow>
          if is_write sdo \<or> sdo_index sdo \<noteq> index \<or> sdo_subindex sdo \<noteq> subindex
          then Inl Assert_failed
          else run_steps
            [when_step (read_callback sdo) (call (sdo_dat sdo) index subindex val),
             finish_active EV_SDO_READ_RESPONSE] w)"

definition mch_sdo_write_callback ::
    "(sdo_write_callback_t \<Rightarrow> sdo_data \<Rightarrow> u16 \<Rightarrow> u8 \<Rightarrow> 'z sdo_env_scheme action) \<Rightarrow> u16 \<Rightarrow> u8
      \<Rightarrow> 'z sdo_env_scheme action" where
  "mch_sdo_write_callback call index subindex w =
     (if \<not> sdo_callback_data (interface w) then Inl Assert_failed
      else case sdo_active_of w of
        None \<Rightarrow> Inl Assert_failed
      | Some sdo \<Rightarrow>
          if \<not> is_write sdo \<or> sdo_index sdo \<noteq> index \<or> sdo_subindex sdo \<noteq> subindex
          then Inl Assert_failed
          else run_steps
            [(case write_callback sdo of
                None \<Rightarrow> Inr
              | Some cb \<Rightarrow> call cb (sdo_dat sdo) index subindex),
             finish_active EV_SDO_WRITE_RESPONSE] w)"

definition mch_sdo_abort_callback :: "u16 \<Rightarrow> u8 \<Rightarrow> u32 \<Rightarrow> 'z sdo_env_scheme action" where
  "mch_sdo_abort_callback index subindex code w =
     (if \<not> sdo_callback_data (interface w) then Inl Assert_failed
      else case sdo_active_of w of
        None \<Rightarrow> Inl Assert_failed
      | Some sdo \<Rightarrow>
          if sdo_index sdo \<noteq> index \<or> sdo_subindex sdo \<noteq> subindex then Inl Assert_failed
          else run_steps
            [(case abort_callback sdo of
                None \<Rightarrow> Inr
              | Some cb \<Rightarrow> call_abort cb (sdo_dat sdo) index subindex code),
             finish_active EV_SDO_ABORT_RESPONSE] w)"

section \<open>Requests\<close>

definition queue_sdo :: "sdo_t \<Rightarrow> 'z sdo_env_scheme action" where
  "queue_sdo sdo w = mch_sdo_handle_event EV_SDO_ITEM_AVAILABLE (push_sdo sdo w)"

definition write_request ::
    "u16 \<Rightarrow> u8 \<Rightarrow> u32 \<Rightarrow> u8 \<Rightarrow> sdo_write_callback_t option \<Rightarrow> sdo_abort_callback_t option
      \<Rightarrow> sdo_data \<Rightarrow> sdo_t" where
  "write_request index subindex val sz wcb acb dat =
     \<lparr>is_write = True, sdo_index = index, sdo_subindex = subindex, sdo_val = val, sdo_size = sz,
      sdo_dat = dat, abort_callback = acb, write_callback = wcb, read_callback = False\<rparr>"

definition mch_sdo_queue_write_with_cb ::
    "u16 \<Rightarrow> u8 \<Rightarrow> u32 \<Rightarrow> u8 \<Rightarrow> sdo_write_callback_t option \<Rightarrow> sdo_abort_callback_t option
      \<Rightarrow> sdo_data \<Rightarrow> 'z sdo_env_scheme action" where
  "mch_sdo_queue_write_with_cb index subindex val sz wcb acb dat =
     queue_sdo (write_request index subindex val sz wcb acb dat)"

definition mch_sdo_queue_write ::
    "u16 \<Rightarrow> u8 \<Rightarrow> u32 \<Rightarrow> u8 \<Rightarrow> 'z sdo_env_scheme action" where
  "mch_sdo_queue_write index subindex val sz =
     mch_sdo_queue_write_with_cb index subindex val sz None None Data_null"

text \<open>The \<^verbatim>\<open>data\<close> argument is not stored: the request carries NULL.\<close>

definition mch_sdo_queue_read_with_cb ::
    "u16 \<Rightarrow> u8 \<Rightarrow> bool \<Rightarrow> sdo_abort_callback_t option \<Rightarrow> sdo_data \<Rightarrow> 'z sdo_env_scheme action" where
  "mch_sdo_queue_read_with_cb index subindex rcb acb dat =
     queue_sdo \<lparr>is_write = False, sdo_index = index, sdo_subindex = subindex, sdo_val = 0,
       sdo_size = 0, sdo_dat = Data_null, abort_callback = acb, write_callback = None,
       read_callback = rcb\<rparr>"

definition mch_sdo_queue_read :: "u16 \<Rightarrow> u8 \<Rightarrow> 'z sdo_env_scheme action" where
  "mch_sdo_queue_read index subindex = mch_sdo_queue_read_with_cb index subindex False None Data_null"

section \<open>The machine contract\<close>

lemma set_sdo_state_simps [simp]:
  "sdo_state_of (set_sdo_state s w) = s"
  "sdo_queue_of (set_sdo_state s w) = sdo_queue_of w"
  "sdo_active_of (set_sdo_state s w) = sdo_active_of w"
  "driver (set_sdo_state s w) = driver w"
  "sent (set_sdo_state s w) = sent w"
  "interface (set_sdo_state s w) = interface w"
  "sdo_env.more (set_sdo_state s w) = sdo_env.more w"
  by (simp_all add: set_sdo_state_def)

interpretation sdo_machine: event_machine "sdo_state_of" set_sdo_state
  mch_sdo_next_state_given_event mch_sdo_on_exit mch_sdo_on_enter mch_sdo_handle_event
  by unfold_locales (simp_all add: mch_sdo_handle_event.simps Let_def)

text \<open>The frame a request puts on the bus.\<close>

definition sdo_frame :: "sdo_t \<Rightarrow> can_message_t" where
  "sdo_frame sdo =
     (if is_write sdo
      then write_req_frame (sdo_index sdo) (sdo_subindex sdo) (sdo_val sdo) (sdo_size sdo)
      else read_req_frame (sdo_index sdo) (sdo_subindex sdo))"

text \<open>Every SDO request so far: the frames that have been sent, then those that still wait.\<close>

definition sdo_frames :: "can_message_t list \<Rightarrow> can_message_t list" where
  "sdo_frames ms = filter (\<lambda>m. msg_id m = 0x601) ms"

definition sdo_backlog :: "'z sdo_env_scheme \<Rightarrow> can_message_t list" where
  "sdo_backlog w = sdo_frames (sent w) @ map sdo_frame (sdo_queue_of w)"

text \<open>
  Between two calls, nothing waits while the machine is idle, a request is in flight while it is
  sending, and the callbacks installed in the interface are those of the request in flight.
\<close>

definition sdo_armed :: "intf_t \<Rightarrow> sdo_t \<Rightarrow> bool" where
  "sdo_armed intf sdo \<longleftrightarrow> sdo_callback_data intf \<and> intf_abort_callback intf
     \<and> intf_write_callback intf = is_write sdo \<and> intf_read_callback intf = (\<not> is_write sdo)"

definition sdo_quiet :: "'z sdo_env_scheme \<Rightarrow> bool" where
  "sdo_quiet w \<longleftrightarrow> (sdo_state_of w = ST_SDO_WAITING \<longrightarrow> sdo_queue_of w = [])
     \<and> (sdo_state_of w = ST_SDO_SENDING \<longrightarrow> sdo_active_of w \<noteq> None)
     \<and> (\<forall>sdo. sdo_active_of w = Some sdo \<longrightarrow> sdo_armed (interface w) sdo)"

section \<open>What the operations do\<close>

lemma sdo_frames_simps [simp]:
  "sdo_frames [] = []"
  "sdo_frames [sdo_frame sdo] = [sdo_frame sdo]"
  "sdo_frames (ms @ [sdo_frame sdo]) = sdo_frames ms @ [sdo_frame sdo]"
  "sdo_frames (ms @ [nmt_frame c]) = sdo_frames ms"
  by (simp_all add: sdo_frames_def sdo_frame_def write_req_frame_def read_req_frame_def
      nmt_frame_def)

lemma mch_sdo_send_frame [simp]:
  "sent (mch_sdo_send sdo w) = sent w @ [sdo_frame sdo]"
  "mch_sdo (mch_sdo_send sdo w) = mch_sdo w"
  "driver (mch_sdo_send sdo w) = driver w"
  "sdo_env.more (mch_sdo_send sdo w) = sdo_env.more w"
  by (simp_all add: mch_sdo_send_def sdo_frame_def intf_send_write_req_def intf_send_read_req_def
      intf_write_def driver_call_def set_interface_def Let_def)

lemma mch_sdo_send_armed [simp]: "sdo_armed (interface (mch_sdo_send sdo w)) sdo"
  by (simp add: mch_sdo_send_def sdo_armed_def intf_send_write_req_def intf_send_read_req_def
      intf_write_def driver_call_def set_interface_def Let_def)

lemma push_sdo_simps [simp]:
  "sdo_state_of (push_sdo sdo w) = sdo_state_of w"
  "sdo_queue_of (push_sdo sdo w) = sdo_queue_of w @ [sdo]"
  "sdo_active_of (push_sdo sdo w) = sdo_active_of w"
  "interface (push_sdo sdo w) = interface w"
  "sent (push_sdo sdo w) = sent w"
  "driver (push_sdo sdo w) = driver w"
  "sdo_env.more (push_sdo sdo w) = sdo_env.more w"
  by (simp_all add: push_sdo_def)

text \<open>Transmission of the front of the queue: the state after entering \<^verbatim>\<open>SENDING\<close>.\<close>

definition send_front :: "sdo_t \<Rightarrow> sdo_t list \<Rightarrow> 'z sdo_env_scheme \<Rightarrow> 'z sdo_env_scheme" where
  "send_front sdo rest w = mch_sdo_send sdo
     (w\<lparr>mch_sdo := (mch_sdo w)\<lparr>sdo_state := ST_SDO_SENDING, sdo_active := Some sdo,
        sdo_queue := rest\<rparr>\<rparr>)"

lemma send_front_simps [simp]:
  "sdo_state_of (send_front sdo rest w) = ST_SDO_SENDING"
  "sdo_queue_of (send_front sdo rest w) = rest"
  "sdo_active_of (send_front sdo rest w) = Some sdo"
  "sent (send_front sdo rest w) = sent w @ [sdo_frame sdo]"
  "driver (send_front sdo rest w) = driver w"
  "sdo_env.more (send_front sdo rest w) = sdo_env.more w"
  "sdo_armed (interface (send_front sdo rest w)) sdo"
  by (simp_all add: send_front_def)

lemma send_front_quiet [simp]: "sdo_quiet (send_front sdo rest w)"
  by (simp add: sdo_quiet_def)

lemma item_available_waiting:
  assumes "sdo_state_of w = ST_SDO_WAITING" and "sdo_queue_of w = sdo # rest"
  shows "mch_sdo_handle_event EV_SDO_ITEM_AVAILABLE w = Inr (send_front sdo rest w)"
  using assms
  by (simp add: sdo_machine.handle_changed mch_sdo_on_exit_def mch_sdo_on_enter.simps
      set_sdo_state_def send_front_def)

lemma item_available_ignored:
  assumes "sdo_state_of w \<noteq> ST_SDO_WAITING"
  shows "mch_sdo_handle_event EV_SDO_ITEM_AVAILABLE w = Inr w"
  using assms by (intro sdo_machine.handle_ignored) (cases "sdo_state_of w", simp_all)

lemma enter_waiting:
  assumes "sdo_state_of w = ST_SDO_WAITING"
  shows "mch_sdo_on_enter w =
    (case sdo_queue_of w of [] \<Rightarrow> Inr w | sdo # rest \<Rightarrow> Inr (send_front sdo rest w))"
  using assms
  by (auto simp: mch_sdo_on_enter.simps item_available_waiting split: list.split)

lemma mch_sdo_clear_queue_eq:
  "mch_sdo_clear_queue w =
     (if \<exists>sdo \<in> set (sdo_queue_of w). abort_callback sdo \<noteq> None then Inl (Exit 1)
      else Inr (w\<lparr>mch_sdo := (mch_sdo w)\<lparr>sdo_queue := []\<rparr>\<rparr>))"
proof (induction w rule: mch_sdo_clear_queue.induct)
  case (1 w)
  show ?case
  proof (cases "sdo_queue_of w")
    case Nil
    then show ?thesis by (simp add: mch_sdo_clear_queue.simps [of w])
  next
    case (Cons sdo rest)
    then show ?thesis
      using "1.IH"(1) [OF Cons refl]
      by (cases "abort_callback sdo") (simp_all add: mch_sdo_clear_queue.simps [of w])
  qed
qed

lemma queue_sdo_eq:
  assumes "sdo_quiet w"
  shows "queue_sdo sdo w =
    Inr (if sdo_state_of w = ST_SDO_WAITING then send_front sdo [] (push_sdo sdo w)
         else push_sdo sdo w)"
proof (cases "sdo_state_of w = ST_SDO_WAITING")
  case True
  with assms have "sdo_queue_of (push_sdo sdo w) = [sdo]" by (simp add: sdo_quiet_def)
  with True show ?thesis by (simp add: queue_sdo_def item_available_waiting)
next
  case False
  then show ?thesis by (simp add: queue_sdo_def item_available_ignored)
qed

lemma queue_sdo_frame:
  assumes "sdo_quiet w" and "queue_sdo sdo w = Inr w'"
  shows "sdo_quiet w'" and "sdo_backlog w' = sdo_backlog w @ [sdo_frame sdo]"
    and "sdo_env.more w' = sdo_env.more w" and "driver w' = driver w"
proof -
  from assms have w': "w' = (if sdo_state_of w = ST_SDO_WAITING
      then send_front sdo [] (push_sdo sdo w) else push_sdo sdo w)"
    by (simp add: queue_sdo_eq)
  from assms(1) show "sdo_quiet w'" by (auto simp: w' sdo_quiet_def)
  from assms(1) show "sdo_backlog w' = sdo_backlog w @ [sdo_frame sdo]"
    by (auto simp: w' sdo_quiet_def sdo_backlog_def)
  show "sdo_env.more w' = sdo_env.more w" and "driver w' = driver w" by (simp_all add: w')
qed

section \<open>The queue as other components see it\<close>

text \<open>
  The contract on which the drive, motion, network and profile components rely: a request is
  always accepted, it joins the end of the backlog, and the rest of the state is untouched. The
  client lemma covers a whole series of requests.
\<close>

locale request_queue =
  fixes inv :: "'w \<Rightarrow> bool"
    and enqueue :: "'r \<Rightarrow> 'w action"
    and backlog :: "'w \<Rightarrow> 'f list"
    and frame :: "'r \<Rightarrow> 'f"
    and rest :: "'w \<Rightarrow> 'x"
  assumes enqueue_accepts: "inv w \<Longrightarrow> \<exists>w'. enqueue r w = Inr w'"
    and enqueue_inv: "inv w \<Longrightarrow> enqueue r w = Inr w' \<Longrightarrow> inv w'"
    and enqueue_backlog: "inv w \<Longrightarrow> enqueue r w = Inr w' \<Longrightarrow> backlog w' = backlog w @ [frame r]"
    and enqueue_rest: "inv w \<Longrightarrow> enqueue r w = Inr w' \<Longrightarrow> rest w' = rest w"
begin

lemma enqueue_total: "total_on inv (enqueue r)"
  by (rule total_onI) (blast dest: enqueue_accepts enqueue_inv)

lemma enqueue_all:
  assumes "inv w"
  shows "\<exists>w'. run_steps (map enqueue rs) w = Inr w' \<and> inv w'
     \<and> backlog w' = backlog w @ map frame rs \<and> rest w' = rest w"
  using assms
proof (induction rs arbitrary: w)
  case Nil
  then show ?case by simp
next
  case (Cons r rs)
  then obtain w1 where w1: "enqueue r w = Inr w1" using enqueue_accepts by blast
  with Cons.prems have "inv w1" by (rule enqueue_inv)
  from Cons.IH [OF this] obtain w2 where
    "run_steps (map enqueue rs) w1 = Inr w2" "inv w2"
    "backlog w2 = backlog w1 @ map frame rs" "rest w2 = rest w1" by blast
  with w1 Cons.prems show ?case
    using enqueue_backlog [OF Cons.prems w1] enqueue_rest [OF Cons.prems w1] by simp
qed

end

interpretation sdo_requests: request_queue sdo_quiet queue_sdo sdo_backlog sdo_frame sdo_env.more
  by unfold_locales (use queue_sdo_eq queue_sdo_frame in blast)+

text \<open>
  What an action that only makes requests does: it returns, the requested frames join the
  backlog, and everything outside the SDO machine is as before.
\<close>

definition sdo_ext :: "'z sdo_env_scheme \<Rightarrow> can_message_t list \<Rightarrow> 'z sdo_env_scheme \<Rightarrow> bool" where
  "sdo_ext w fs w' \<longleftrightarrow> sdo_quiet w' \<and> sdo_backlog w' = sdo_backlog w @ fs
     \<and> sdo_env.more w' = sdo_env.more w \<and> driver w' = driver w"

lemma sdo_ext_refl: "sdo_quiet w \<Longrightarrow> sdo_ext w [] w"
  by (simp add: sdo_ext_def)

lemma sdo_extD:
  assumes "sdo_ext w fs w'"
  shows "sdo_quiet w'" and "sdo_backlog w' = sdo_backlog w @ fs"
    and "sdo_env.more w' = sdo_env.more w" and "driver w' = driver w"
  using assms by (simp_all add: sdo_ext_def)

lemma queue_sdo_ext:
  assumes "sdo_quiet w"
  shows "\<exists>w'. queue_sdo sdo w = Inr w' \<and> sdo_ext w [sdo_frame sdo] w'"
proof -
  from sdo_requests.enqueue_accepts [OF assms] obtain w' where w': "queue_sdo sdo w = Inr w'" ..
  from queue_sdo_frame [OF assms w'] have "sdo_ext w [sdo_frame sdo] w'"
    unfolding sdo_ext_def by blast
  with w' show ?thesis by blast
qed

section \<open>Order and progress\<close>

text \<open>
  The traffic of an enabled machine: requests of other components, and completions, which is what
  the read and write callbacks do to the machine once the drive has answered.
\<close>

datatype sdo_op = Request sdo_t | Completion mch_sdo_event_t

fun sdo_op_action :: "sdo_op \<Rightarrow> 'z sdo_env_scheme action" where
  "sdo_op_action (Request sdo) = queue_sdo sdo"
| "sdo_op_action (Completion event) = finish_active event"

fun sdo_op_requests :: "sdo_op list \<Rightarrow> sdo_t list" where
  "sdo_op_requests [] = []"
| "sdo_op_requests (Request sdo # ops) = sdo # sdo_op_requests ops"
| "sdo_op_requests (Completion event # ops) = sdo_op_requests ops"

definition sdo_op_ok :: "sdo_op \<Rightarrow> bool" where
  "sdo_op_ok x \<longleftrightarrow> (case x of Request _ \<Rightarrow> True
     | Completion event \<Rightarrow> event = EV_SDO_READ_RESPONSE \<or> event = EV_SDO_WRITE_RESPONSE)"

lemma finish_active_eq:
  assumes "event = EV_SDO_READ_RESPONSE \<or> event = EV_SDO_WRITE_RESPONSE"
  shows "finish_active event w =
    (let w1 = w\<lparr>mch_sdo := (mch_sdo w)\<lparr>sdo_active := None\<rparr>\<rparr> in
     if sdo_state_of w = ST_SDO_SENDING
     then case sdo_queue_of w of
         [] \<Rightarrow> Inr (set_sdo_state ST_SDO_WAITING w1)
       | sdo # rest \<Rightarrow> Inr (send_front sdo rest (set_sdo_state ST_SDO_WAITING w1))
     else Inr w1)"
proof (cases "sdo_state_of w = ST_SDO_SENDING")
  case True
  with assms show ?thesis
    by (auto simp: finish_active_def sdo_machine.handle_changed mch_sdo_on_exit_def enter_waiting
        Let_def split: list.split)
next
  case False
  then have "mch_sdo_next_state_given_event (sdo_state_of w) event = sdo_state_of w"
    using assms by (cases "sdo_state_of w") auto
  with False show ?thesis
    by (simp add: finish_active_def sdo_machine.handle_ignored)
qed

lemma finish_active_step:
  assumes "sdo_quiet w" and "event = EV_SDO_READ_RESPONSE \<or> event = EV_SDO_WRITE_RESPONSE"
  shows "\<exists>w'. finish_active event w = Inr w' \<and> sdo_quiet w' \<and> sdo_backlog w' = sdo_backlog w
     \<and> sdo_env.more w' = sdo_env.more w \<and> driver w' = driver w"
  using assms(1)
  by (auto simp: finish_active_eq [OF assms(2)] Let_def sdo_quiet_def sdo_backlog_def
      split: list.split)

lemma sdo_op_step:
  assumes "sdo_quiet w" and "sdo_op_ok x"
  shows "\<exists>w'. sdo_op_action x w = Inr w' \<and> sdo_quiet w'
     \<and> sdo_backlog w' = sdo_backlog w @ map sdo_frame (sdo_op_requests [x])"
proof (cases x)
  case (Request sdo)
  with assms(1) sdo_requests.enqueue_accepts [of w sdo] queue_sdo_frame [of w sdo]
  show ?thesis by auto
next
  case (Completion event)
  with assms finish_active_step [of w event] show ?thesis by (auto simp: sdo_op_ok_def)
qed

lemma sdo_op_requests_Cons: "sdo_op_requests (x # ops) = sdo_op_requests [x] @ sdo_op_requests ops"
  by (cases x) simp_all

text \<open>
  C8: no SDO request is lost, duplicated or overtaken: for every interleaving of requests and
  completed transfers, the machine handles all of them without failing, and the SDO frames sent
  together with those still queued are the earlier backlog followed by the frames of the new
  requests, in the order in which they were made.
\<close>

theorem sdo_fifo:
  assumes "sdo_quiet w" and "\<forall>x \<in> set ops. sdo_op_ok x"
  shows "\<exists>w'. run_steps (map sdo_op_action ops) w = Inr w' \<and> sdo_quiet w'
     \<and> sdo_backlog w' = sdo_backlog w @ map sdo_frame (sdo_op_requests ops)"
  using assms
proof (induction ops arbitrary: w)
  case Nil
  then show ?case by simp
next
  case (Cons x ops)
  then have "sdo_op_ok x" by simp
  from sdo_op_step [OF Cons.prems(1) this] obtain w1 where w1: "sdo_op_action x w = Inr w1"
    "sdo_quiet w1" "sdo_backlog w1 = sdo_backlog w @ map sdo_frame (sdo_op_requests [x])" by blast
  from Cons.IH [OF w1(2)] Cons.prems(2) obtain w2 where
    "run_steps (map sdo_op_action ops) w1 = Inr w2" "sdo_quiet w2"
    "sdo_backlog w2 = sdo_backlog w1 @ map sdo_frame (sdo_op_requests ops)" by auto
  with w1 show ?case by (simp add: sdo_op_requests_Cons [of x ops])
qed

text \<open>Concrete states for the witnesses.\<close>

definition sample_sdo_env :: "mch_sdo_state_t \<Rightarrow> sdo_env" where
  "sample_sdo_env s =
     \<lparr>driver = sample_driver \<lparr>rd_ID = 0, rd_MSGTYPE = 0, rd_LEN = 8,
        rd_DATA = Bytes8 0 0 0 0 0 0 0 0\<rparr>, calls = 0, sent = [],
      interface = intf_create\<lparr>handle := 1, fd := 5\<rparr>,
      mch_sdo = mch_sdo_create\<lparr>sdo_state := s\<rparr>\<rparr>"

definition sample_write :: "u16 \<Rightarrow> sdo_t" where
  "sample_write v = write_request OB_CONTROL_WORD 0 (ucast v) 2 None None Data_null"

theorem sdo_fifo_witness:
  "\<exists>w'. run_steps (map sdo_op_action
       [Request (sample_write 6), Request (sample_write 7), Completion EV_SDO_WRITE_RESPONSE])
       (sample_sdo_env ST_SDO_WAITING) = Inr w'
     \<and> sdo_backlog w' = [sdo_frame (sample_write 6), sdo_frame (sample_write 7)]"
  using sdo_fifo [of "sample_sdo_env ST_SDO_WAITING"
      "[Request (sample_write 6), Request (sample_write 7), Completion EV_SDO_WRITE_RESPONSE]"]
  by (auto simp: sample_sdo_env_def sdo_quiet_def sdo_op_ok_def mch_sdo_create_def
      sdo_backlog_def)

lemma finish_active_progress:
  assumes "sdo_quiet w" and "sdo_state_of w = ST_SDO_SENDING"
    and "event = EV_SDO_READ_RESPONSE \<or> event = EV_SDO_WRITE_RESPONSE"
  obtains w' where "finish_active event w = Inr w'" "sdo_quiet w'"
    "sdo_backlog w' = sdo_backlog w" "sdo_queue_of w' = tl (sdo_queue_of w)"
    "sdo_state_of w' = (if sdo_queue_of w = [] then ST_SDO_WAITING else ST_SDO_SENDING)"
proof -
  from finish_active_step [OF assms(1,3)] obtain w' where
    w': "finish_active event w = Inr w'" "sdo_quiet w'" "sdo_backlog w' = sdo_backlog w" by blast
  moreover from w'(1) assms(2) have "sdo_queue_of w' = tl (sdo_queue_of w)"
    "sdo_state_of w' = (if sdo_queue_of w = [] then ST_SDO_WAITING else ST_SDO_SENDING)"
    by (auto simp: finish_active_eq [OF assms(3)] Let_def split: list.splits)
  ultimately show ?thesis by (rule that)
qed

text \<open>
  C17: the queue drains: from a state in which a transfer is in flight and n requests wait, n + 1
  completed transfers bring the machine to rest with every requested frame sent and nothing left.
\<close>

theorem sdo_drains:
  assumes "sdo_quiet w" and "sdo_state_of w = ST_SDO_SENDING"
    and "event = EV_SDO_READ_RESPONSE \<or> event = EV_SDO_WRITE_RESPONSE"
  shows "\<exists>w'. run_steps (replicate (Suc (length (sdo_queue_of w))) (finish_active event)) w = Inr w'
     \<and> sdo_state_of w' = ST_SDO_WAITING \<and> sdo_queue_of w' = []
     \<and> sdo_frames (sent w') = sdo_backlog w"
  using assms(1,2)
proof (induction "length (sdo_queue_of w)" arbitrary: w)
  case 0
  then have e: "sdo_queue_of w = []" by simp
  obtain w1 where
    "finish_active event w = Inr w1" "sdo_backlog w1 = sdo_backlog w"
    "sdo_queue_of w1 = []" "sdo_state_of w1 = ST_SDO_WAITING"
    by (rule finish_active_progress [OF "0.prems" assms(3)]) (simp add: e)
  then show ?case by (simp add: e sdo_backlog_def)
next
  case (Suc n)
  from Suc.hyps(2) have ne: "sdo_queue_of w \<noteq> []" by auto
  obtain w1 where
    w1: "finish_active event w = Inr w1" "sdo_quiet w1" "sdo_backlog w1 = sdo_backlog w"
      "sdo_queue_of w1 = tl (sdo_queue_of w)" "sdo_state_of w1 = ST_SDO_SENDING"
    by (rule finish_active_progress [OF Suc.prems assms(3)]) (simp add: ne)
  from w1(4) Suc.hyps(2) have n: "n = length (sdo_queue_of w1)"
    and len: "length (sdo_queue_of w) = Suc (length (sdo_queue_of w1))" by simp_all
  from Suc.hyps(1) [OF n w1(2,5)] show ?case by (simp add: len w1(1,3))
qed

theorem sdo_drains_witness:
  "\<exists>w'. run_steps (replicate (Suc 1) (finish_active EV_SDO_WRITE_RESPONSE))
       (send_front (sample_write 6) [sample_write 7] (sample_sdo_env ST_SDO_WAITING)) = Inr w'
     \<and> sdo_frames (sent w') = [sdo_frame (sample_write 6), sdo_frame (sample_write 7)]"
  using sdo_drains [of "send_front (sample_write 6) [sample_write 7] (sample_sdo_env ST_SDO_WAITING)"
      EV_SDO_WRITE_RESPONSE]
  by (auto simp: sdo_backlog_def sample_sdo_env_def)

section \<open>Responses of the drive\<close>

text \<open>The acknowledgement of a download and the abort of a transfer, as CiA 301 frames.\<close>

definition cia301_download_response :: "u16 \<Rightarrow> u8 \<Rightarrow> can_message_t" where
  "cia301_download_response index subindex =
     \<lparr>msg_id = 0x581, msg_type = 0, msg_len = 8,
      msg_data = Bytes8 0x60 (lo8 index 0) (lo8 index 8) subindex 0 0 0 0\<rparr>"

lemma dispatch_download_response:
  assumes "intf_write_callback intf"
  shows "intf_dispatch_msg intf (cia301_download_response index subindex)
    = [Write_callback index subindex]"
proof -
  have "(ucast (lo8 index 0) :: u16) + push_bit 8 (ucast (lo8 index 8)) = index"
    using le16_lo8 [of index] by (simp add: le16_def)
  with assms show ?thesis
    by (simp add: intf_dispatch_msg_def dispatch_sdo_response_def cia301_download_response_def
        Let_def)
qed

text \<open>
  The drive's acknowledgement of the write in flight is routed to the write callback and
  accepted by it: none of the assertions fails, and the machine goes on exactly as after a
  completed transfer. (Stated for requests without a callback of their own; those of the
  profiles and of the network are covered where these are defined.)
\<close>

lemma write_ack_accepted:
  assumes "sdo_quiet w" and "sdo_active_of w = Some sdo" and "is_write sdo"
    and "write_callback sdo = None"
  shows "intf_dispatch_msg (interface w)
           (cia301_download_response (sdo_index sdo) (sdo_subindex sdo))
         = [Write_callback (sdo_index sdo) (sdo_subindex sdo)]
       \<and> (\<exists>w'. mch_sdo_write_callback call (sdo_index sdo) (sdo_subindex sdo) w = Inr w'
            \<and> finish_active EV_SDO_WRITE_RESPONSE w = Inr w' \<and> sdo_quiet w')"
proof -
  from assms have armed: "sdo_armed (interface w) sdo" by (simp add: sdo_quiet_def)
  from finish_active_step [OF assms(1), of EV_SDO_WRITE_RESPONSE] obtain w' where
    "finish_active EV_SDO_WRITE_RESPONSE w = Inr w'" "sdo_quiet w'" by blast
  with assms armed show ?thesis
    by (simp add: dispatch_download_response sdo_armed_def mch_sdo_write_callback_def)
qed

text \<open>
  An acknowledgement that arrives twice ends the server. The first one completes the
  transfer; the interface keeps the callback installed, so the same frame reaches it again, and
  with no transfer in flight its assertion fails.
\<close>

lemma duplicate_ack_asserts:
  assumes "sdo_quiet w" and "sdo_state_of w = ST_SDO_SENDING" and "sdo_queue_of w = []"
    and "sdo_active_of w = Some sdo" and "is_write sdo" and "write_callback sdo = None"
  shows "\<exists>w'. mch_sdo_write_callback call (sdo_index sdo) (sdo_subindex sdo) w = Inr w'
     \<and> intf_dispatch_msg (interface w')
          (cia301_download_response (sdo_index sdo) (sdo_subindex sdo))
        = [Write_callback (sdo_index sdo) (sdo_subindex sdo)]
     \<and> mch_sdo_write_callback call (sdo_index sdo) (sdo_subindex sdo) w' = Inl Assert_failed"
proof -
  from assms have armed: "sdo_armed (interface w) sdo" by (simp add: sdo_quiet_def)
  with assms show ?thesis
    by (simp add: mch_sdo_write_callback_def sdo_armed_def finish_active_eq Let_def
        dispatch_download_response)
qed

text \<open>
  Enabling a disabled or failed machine either ends the process with status 1, namely when
  any request that was queued meanwhile carries an abort callback, or discards what was queued
  and leaves the machine idle; nothing that was queued while disabled is ever sent.
\<close>

lemma enable_after_disabled:
  assumes "sdo_state_of w = ST_SDO_DISABLED \<or> sdo_state_of w = ST_SDO_ERROR"
  shows "mch_sdo_handle_event EV_NET_SDO_ENABLED w =
    (if \<exists>sdo \<in> set (sdo_queue_of w). abort_callback sdo \<noteq> None then Inl (Exit 1)
     else Inr (w\<lparr>mch_sdo := (mch_sdo w)\<lparr>sdo_queue := [], sdo_state := ST_SDO_WAITING\<rparr>\<rparr>))"
  using assms
  by (elim disjE; simp add: sdo_machine.handle_changed mch_sdo_on_exit_def
      mch_sdo_clear_queue_eq enter_waiting set_sdo_state_def)

end
