(* ===== verification/Mch_Mp.thy ===== *)
theory Mch_Mp
  imports Mch_Sdo "HOL-Library.Sublist"
begin

text \<open>
  The motion machine, \<^verbatim>\<open>libsled/machines/mch_mp.cc\<close>: homing first, then the set-point handshake of
  the profile position mode. The sources compile it without \<^verbatim>\<open>DIRTY_SINUSOID\<close> (\<^verbatim>\<open>config.h\<close>), so
  the interpolated states exist but no transition leads to them.
\<close>

section \<open>Data\<close>

datatype mch_mp_state_t =
    ST_MP_DISABLED
  | ST_MP_SWITCH_MODE_HOMING
  | ST_MP_HH_UNKNOWN
  | ST_MP_HH_HOMING
  | ST_MP_SWITCH_MODE_PP
  | ST_MP_PP_IDLE
  | ST_MP_PP_SP_NACK
  | ST_MP_PP_SP_ACK
  | ST_MP_SWITCH_MODE_IP
  | ST_MP_IP_SINUSOID
  | ST_MP_IP_SINUSOID_STOP

datatype mch_mp_event_t =
    EV_MP_DS_OPERATIONAL
  | EV_MP_DS_INOPERATIONAL
  | EV_MP_MODE_HOMING
  | EV_MP_MODE_PP
  | EV_MP_MODE_IP
  | EV_MP_HOMED
  | EV_MP_NOTHOMED
  | EV_MP_SETPOINT_SET
  | EV_MP_SETPOINT_ACK
  | EV_MP_SETPOINT_NACK
  | EV_MP_TARGET_REACHED
  | EV_MP_SINUSOID_START
  | EV_MP_SINUSOID_STOP

text \<open>The integer value of an enumerator, for the C negation in the transition function.\<close>

fun mp_state_num :: "mch_mp_state_t \<Rightarrow> nat" where
  "mp_state_num ST_MP_DISABLED = 0"
| "mp_state_num ST_MP_SWITCH_MODE_HOMING = 1"
| "mp_state_num ST_MP_HH_UNKNOWN = 2"
| "mp_state_num ST_MP_HH_HOMING = 3"
| "mp_state_num ST_MP_SWITCH_MODE_PP = 4"
| "mp_state_num ST_MP_PP_IDLE = 5"
| "mp_state_num ST_MP_PP_SP_NACK = 6"
| "mp_state_num ST_MP_PP_SP_ACK = 7"
| "mp_state_num ST_MP_SWITCH_MODE_IP = 8"
| "mp_state_num ST_MP_IP_SINUSOID = 9"
| "mp_state_num ST_MP_IP_SINUSOID_STOP = 10"

record mch_mp_t =
  mp_state :: mch_mp_state_t

record mp_env = sdo_env +
  mch_mp :: mch_mp_t

definition mch_mp_create :: mch_mp_t where
  "mch_mp_create = \<lparr>mp_state = ST_MP_DISABLED\<rparr>"

abbreviation mp_state_of :: "'z mp_env_scheme \<Rightarrow> mch_mp_state_t" where
  "mp_state_of w \<equiv> mp_state (mch_mp w)"

definition set_mp_state :: "mch_mp_state_t \<Rightarrow> 'z mp_env_scheme \<Rightarrow> 'z mp_env_scheme" where
  "set_mp_state s w = w\<lparr>mch_mp := (mch_mp w)\<lparr>mp_state := s\<rparr>\<rparr>"

section \<open>The machine\<close>

definition mch_mp_send_mode_switch :: "u8 \<Rightarrow> 'z mp_env_scheme action" where
  "mch_mp_send_mode_switch mode = mch_sdo_queue_write 0x6060 0x00 (ucast mode) 0x01"

definition mch_mp_send_control_word :: "u16 \<Rightarrow> 'z mp_env_scheme action" where
  "mch_mp_send_control_word control_word =
     mch_sdo_queue_write OB_CONTROL_WORD 0x00 (ucast control_word) 0x02"

definition mch_mp_next_state_given_event ::
    "mch_mp_state_t \<Rightarrow> mch_mp_event_t \<Rightarrow> mch_mp_state_t" where
  "mch_mp_next_state_given_event s event =
     (if c_not (mp_state_num s) = mp_state_num ST_MP_DISABLED \<and> event = EV_MP_DS_INOPERATIONAL
      then ST_MP_DISABLED
      else case s of
        ST_MP_DISABLED \<Rightarrow> if event = EV_MP_DS_OPERATIONAL then ST_MP_SWITCH_MODE_HOMING else s
      | ST_MP_SWITCH_MODE_HOMING \<Rightarrow> if event = EV_MP_MODE_HOMING then ST_MP_HH_UNKNOWN else s
      | ST_MP_HH_UNKNOWN \<Rightarrow>
          if event = EV_MP_NOTHOMED then ST_MP_HH_HOMING
          else if event = EV_MP_HOMED then ST_MP_SWITCH_MODE_PP else s
      | ST_MP_SWITCH_MODE_PP \<Rightarrow> if event = EV_MP_MODE_PP then ST_MP_PP_IDLE else s
      | ST_MP_HH_HOMING \<Rightarrow> if event = EV_MP_HOMED then ST_MP_SWITCH_MODE_PP else s
      | ST_MP_PP_IDLE \<Rightarrow> if event = EV_MP_SETPOINT_SET then ST_MP_PP_SP_NACK else s
      | ST_MP_PP_SP_NACK \<Rightarrow> if event = EV_MP_SETPOINT_ACK then ST_MP_PP_SP_ACK else s
      | ST_MP_PP_SP_ACK \<Rightarrow> if event = EV_MP_SETPOINT_NACK then ST_MP_PP_IDLE else s
      | _ \<Rightarrow> s)"

definition mch_mp_on_enter :: "'z mp_env_scheme action" where
  "mch_mp_on_enter w =
     (case mp_state_of w of
        ST_MP_SWITCH_MODE_HOMING \<Rightarrow> mch_mp_send_mode_switch 0x06 w
      | ST_MP_SWITCH_MODE_PP \<Rightarrow> mch_mp_send_mode_switch 0x01 w
      | ST_MP_HH_HOMING \<Rightarrow> mch_mp_send_control_word (0x1F OR 0x20) w
      | ST_MP_PP_SP_ACK \<Rightarrow> mch_mp_send_control_word (0x0F OR 0x20) w
      | _ \<Rightarrow> Inr w)"

definition mch_mp_on_exit :: "'z mp_env_scheme action" where
  "mch_mp_on_exit w =
     (case mp_state_of w of
        ST_MP_HH_HOMING \<Rightarrow> mch_mp_send_control_word (0x0F OR 0x20) w
      | _ \<Rightarrow> Inr w)"

definition mch_mp_handle_event :: "mch_mp_event_t \<Rightarrow> 'z mp_env_scheme action" where
  "mch_mp_handle_event event w =
     (let next_state = mch_mp_next_state_given_event (mp_state_of w) event in
      if mp_state_of w \<noteq> next_state
      then bind_outcome (mch_mp_on_exit w) (\<lambda>w. mch_mp_on_enter (set_mp_state next_state w))
      else Inr w)"

section \<open>The machine contract\<close>

lemma mp_state_num_0 [simp]: "mp_state_num s = 0 \<longleftrightarrow> s = ST_MP_DISABLED"
  by (cases s) simp_all

lemma set_mp_state_simps [simp]:
  "mp_state_of (set_mp_state s w) = s"
  "mch_sdo (set_mp_state s w) = mch_sdo w"
  "interface (set_mp_state s w) = interface w"
  "sent (set_mp_state s w) = sent w"
  "driver (set_mp_state s w) = driver w"
  "mp_env.more (set_mp_state s w) = mp_env.more w"
  by (simp_all add: set_mp_state_def)

lemma mp_env_of_sdo_more:
  assumes "sdo_env.more w' = sdo_env.more w"
  shows "mch_mp w' = mch_mp w" and "mp_env.more w' = mp_env.more w"
  using assms by (cases w; cases w'; simp)+

text \<open>The requests that leaving and entering a state make.\<close>

definition plain_write :: "u16 \<Rightarrow> u8 \<Rightarrow> u32 \<Rightarrow> u8 \<Rightarrow> sdo_t" where
  "plain_write index subindex val sz = write_request index subindex val sz None None Data_null"

lemma mch_sdo_queue_write_eq:
  "mch_sdo_queue_write index subindex val sz = queue_sdo (plain_write index subindex val sz)"
  by (simp add: mch_sdo_queue_write_def mch_sdo_queue_write_with_cb_def plain_write_def)

fun mp_exit_out :: "mch_mp_state_t \<Rightarrow> can_message_t list" where
  "mp_exit_out ST_MP_HH_HOMING = [sdo_frame (plain_write OB_CONTROL_WORD 0 0x2F 2)]"
| "mp_exit_out _ = []"

fun mp_enter_out :: "mch_mp_state_t \<Rightarrow> can_message_t list" where
  "mp_enter_out ST_MP_SWITCH_MODE_HOMING = [sdo_frame (plain_write 0x6060 0 6 1)]"
| "mp_enter_out ST_MP_SWITCH_MODE_PP = [sdo_frame (plain_write 0x6060 0 1 1)]"
| "mp_enter_out ST_MP_HH_HOMING = [sdo_frame (plain_write OB_CONTROL_WORD 0 0x3F 2)]"
| "mp_enter_out ST_MP_PP_SP_ACK = [sdo_frame (plain_write OB_CONTROL_WORD 0 0x2F 2)]"
| "mp_enter_out _ = []"

lemma mp_exit: "sdo_quiet w \<Longrightarrow>
    \<exists>w'. mch_mp_on_exit w = Inr w' \<and> sdo_ext w (mp_exit_out (mp_state_of w)) w'"
  using queue_sdo_ext [of w "plain_write OB_CONTROL_WORD 0 0x2F 2"]
  by (cases "mp_state_of w")
    (simp_all add: mch_mp_on_exit_def mch_mp_send_control_word_def mch_sdo_queue_write_eq
      sdo_ext_refl)

lemma mp_enter: "sdo_quiet w \<Longrightarrow>
    \<exists>w'. mch_mp_on_enter w = Inr w' \<and> sdo_ext w (mp_enter_out (mp_state_of w)) w'"
  by (cases "mp_state_of w")
    (simp_all add: mch_mp_on_enter_def mch_mp_send_control_word_def mch_mp_send_mode_switch_def
      mch_sdo_queue_write_eq sdo_ext_refl queue_sdo_ext)

lemma set_mp_state_quiet [simp]: "sdo_quiet (set_mp_state s w) = sdo_quiet w"
  by (simp add: sdo_quiet_def)

lemma set_mp_state_backlog [simp]: "sdo_backlog (set_mp_state s w) = sdo_backlog w"
  by (simp add: sdo_backlog_def)

text \<open>Leaving one state and entering another, with all the effects on the environment.\<close>

definition mp_moved ::
    "'z mp_env_scheme \<Rightarrow> mch_mp_state_t \<Rightarrow> 'z mp_env_scheme \<Rightarrow> bool" where
  "mp_moved w s w' \<longleftrightarrow> mp_state_of w' = s \<and> sdo_quiet w' \<and> mp_env.more w' = mp_env.more w
     \<and> driver w' = driver w
     \<and> sdo_backlog w' = sdo_backlog w @ mp_exit_out (mp_state_of w) @ mp_enter_out s"

lemma mp_exit_enter:
  assumes "sdo_quiet w"
  shows "\<exists>w1. mch_mp_on_exit w = Inr w1 \<and> mp_state_of w1 = mp_state_of w
    \<and> (\<forall>s. \<exists>w2. mch_mp_on_enter (set_mp_state s w1) = Inr w2 \<and> mp_moved w s w2)"
proof -
  from mp_exit [OF assms] obtain w1 where w1: "mch_mp_on_exit w = Inr w1"
    and x1: "sdo_ext w (mp_exit_out (mp_state_of w)) w1" by blast
  note e1 = sdo_extD [OF x1]
  note f1 = mp_env_of_sdo_more [OF e1(3)]
  have "\<exists>w2. mch_mp_on_enter (set_mp_state s w1) = Inr w2 \<and> mp_moved w s w2" for s
  proof -
    have "sdo_quiet (set_mp_state s w1)" by (simp add: e1(1))
    from mp_enter [OF this] obtain w2 where w2: "mch_mp_on_enter (set_mp_state s w1) = Inr w2"
      and "sdo_ext (set_mp_state s w1) (mp_enter_out (mp_state_of (set_mp_state s w1))) w2" by blast
    then have x2: "sdo_ext (set_mp_state s w1) (mp_enter_out s) w2" by simp
    note e2 = sdo_extD [OF x2]
    note f2 = mp_env_of_sdo_more [OF e2(3)]
    have "mp_moved w s w2" unfolding mp_moved_def by (simp add: e1 e2 f1 f2)
    with w2 show ?thesis by blast
  qed
  with w1 f1(1) show ?thesis by simp
qed

lemma mp_moved_eq:
  assumes "sdo_quiet w" and "mch_mp_on_exit w = Inr w1"
    and "mch_mp_on_enter (set_mp_state s w1) = Inr w2"
  shows "mp_moved w s w2"
  using mp_exit_enter [OF assms(1)] assms(2,3) by (metis sum.inject(2))

lemma mp_movedD:
  assumes "mp_moved w s w'"
  shows "mp_state_of w' = s" and "sdo_quiet w'" and "mp_env.more w' = mp_env.more w"
    and "driver w' = driver w"
    and "sdo_backlog w' = sdo_backlog w @ mp_exit_out (mp_state_of w) @ mp_enter_out s"
  using assms by (simp_all add: mp_moved_def)

interpretation mp_machine: output_machine "mp_state_of" set_mp_state
  mch_mp_next_state_given_event mch_mp_on_exit mch_mp_on_enter mch_mp_handle_event
  sdo_quiet sdo_backlog mp_exit_out mp_enter_out
proof unfold_locales
  fix w :: "'a mp_env_scheme" and e
  show "mch_mp_next_state_given_event (mp_state_of w) e = mp_state_of w \<Longrightarrow>
      mch_mp_handle_event e w = Inr w"
    by (simp add: mch_mp_handle_event_def)
  show "mch_mp_next_state_given_event (mp_state_of w) e \<noteq> mp_state_of w \<Longrightarrow>
      mch_mp_handle_event e w = bind_outcome (mch_mp_on_exit w)
        (\<lambda>w1. mch_mp_on_enter (set_mp_state (mch_mp_next_state_given_event (mp_state_of w) e) w1))"
    by (simp add: mch_mp_handle_event_def)
next
  fix w :: "'a mp_env_scheme" and s
  show "mp_state_of (set_mp_state s w) = s" by simp
next
  fix w :: "'a mp_env_scheme"
  assume "sdo_quiet w"
  from mp_exit_enter [OF this]
  show "\<exists>w'. mch_mp_on_exit w = Inr w' \<and> mp_state_of w' = mp_state_of w \<and>
      (\<forall>s. s \<noteq> mp_state_of w \<longrightarrow> (\<exists>w''. mch_mp_on_enter (set_mp_state s w') = Inr w''
        \<and> mp_state_of w'' = s \<and> sdo_quiet w''))"
    by (meson mp_movedD)
next
  fix w w' w'' :: "'a mp_env_scheme" and s
  assume "sdo_quiet w" "mch_mp_on_exit w = Inr w'" "mch_mp_on_enter (set_mp_state s w') = Inr w''"
  then have "mp_moved w s w''" by (rule mp_moved_eq)
  then show "sdo_backlog w'' = sdo_backlog w @ mp_exit_out (mp_state_of w) @ mp_enter_out s"
    by (rule mp_movedD)
qed

lemma mp_handle_cases:
  assumes "sdo_quiet w" and "mch_mp_handle_event e w = Inr w'"
  shows "w' = w \<or> mp_moved w (mch_mp_next_state_given_event (mp_state_of w) e) w'"
proof (cases "mch_mp_next_state_given_event (mp_state_of w) e = mp_state_of w")
  case True
  with assms(2) show ?thesis by (simp add: mp_machine.handle_ignored)
next
  case False
  with assms(2) obtain w1 where "mch_mp_on_exit w = Inr w1" and
    "mch_mp_on_enter (set_mp_state (mch_mp_next_state_given_event (mp_state_of w) e) w1) = Inr w'"
    by (auto simp: mp_machine.handle_changed bind_outcome_eq_Inr)
  with mp_moved_eq [OF assms(1)] show ?thesis by blast
qed

lemma mp_handle_more:
  assumes "sdo_quiet w" and "mch_mp_handle_event e w = Inr w'"
  shows "mp_env.more w' = mp_env.more w" and "driver w' = driver w"
  using mp_handle_cases [OF assms] by (auto dest: mp_movedD)

section \<open>Transitions\<close>

lemmas mp_next_def = mch_mp_next_state_given_event_def

lemma mp_next_inoperational:
  "mch_mp_next_state_given_event s EV_MP_DS_INOPERATIONAL = ST_MP_DISABLED"
  by (cases s) (simp_all add: mp_next_def c_not_def)

lemma mp_next_disabled_iff:
  "mch_mp_next_state_given_event s e = ST_MP_DISABLED \<longleftrightarrow>
     e = EV_MP_DS_INOPERATIONAL \<or> s = ST_MP_DISABLED \<and> e \<noteq> EV_MP_DS_OPERATIONAL"
  by (cases s) (auto simp: mp_next_def c_not_def)

text \<open>The milestones that must have been passed to be in a state.\<close>

fun mp_phase :: "mch_mp_state_t \<Rightarrow> mch_mp_event_t list" where
  "mp_phase ST_MP_DISABLED = []"
| "mp_phase ST_MP_SWITCH_MODE_HOMING = [EV_MP_DS_OPERATIONAL]"
| "mp_phase ST_MP_HH_UNKNOWN = [EV_MP_DS_OPERATIONAL, EV_MP_MODE_HOMING]"
| "mp_phase ST_MP_HH_HOMING = [EV_MP_DS_OPERATIONAL, EV_MP_MODE_HOMING]"
| "mp_phase _ = [EV_MP_DS_OPERATIONAL, EV_MP_MODE_HOMING, EV_MP_HOMED]"

definition mp_interpolated :: "mch_mp_state_t \<Rightarrow> bool" where
  "mp_interpolated s \<longleftrightarrow>
     s = ST_MP_SWITCH_MODE_IP \<or> s = ST_MP_IP_SINUSOID \<or> s = ST_MP_IP_SINUSOID_STOP"

lemma mp_phase_step:
  assumes "\<not> mp_interpolated s" and "mch_mp_next_state_given_event s e \<noteq> ST_MP_DISABLED"
  shows "\<not> mp_interpolated (mch_mp_next_state_given_event s e)
     \<and> e \<noteq> EV_MP_DS_INOPERATIONAL
     \<and> (mp_phase (mch_mp_next_state_given_event s e) = mp_phase s
        \<or> mp_phase (mch_mp_next_state_given_event s e) = mp_phase s @ [e])
     \<and> (s = ST_MP_DISABLED \<longrightarrow>
          mch_mp_next_state_given_event s e = ST_MP_SWITCH_MODE_HOMING \<and> e = EV_MP_DS_OPERATIONAL)"
  using assms by (cases s) (auto simp: mp_next_def mp_interpolated_def c_not_def split: if_splits)

lemma mp_phase_reached:
  "\<not> mp_interpolated (foldl mch_mp_next_state_given_event ST_MP_DISABLED es)
   \<and> (foldl mch_mp_next_state_given_event ST_MP_DISABLED es \<noteq> ST_MP_DISABLED \<longrightarrow>
      (\<exists>es1 es2. es = es1 @ es2 \<and> EV_MP_DS_INOPERATIONAL \<notin> set es2
        \<and> subseq (mp_phase (foldl mch_mp_next_state_given_event ST_MP_DISABLED es)) es2))"
proof (induction es rule: rev_induct)
  case Nil
  then show ?case by (simp add: mp_interpolated_def)
next
  case (snoc e es)
  let ?s = "foldl mch_mp_next_state_given_event ST_MP_DISABLED es"
  let ?s' = "mch_mp_next_state_given_event ?s e"
  have fold: "foldl mch_mp_next_state_given_event ST_MP_DISABLED (es @ [e]) = ?s'" by simp
  show ?case
  proof (cases "?s' = ST_MP_DISABLED")
    case True
    then show ?thesis unfolding fold by (simp add: mp_interpolated_def)
  next
    case False
    note step = mp_phase_step [OF conjunct1 [OF snoc.IH] False]
    show ?thesis
    proof (cases "?s = ST_MP_DISABLED")
      case True
      from step True have e: "e = EV_MP_DS_OPERATIONAL"
        and s': "?s' = ST_MP_SWITCH_MODE_HOMING" by blast+
      have "subseq (mp_phase ?s') [e]" unfolding s' unfolding e by simp
      moreover have "EV_MP_DS_INOPERATIONAL \<notin> set [e]" unfolding e by simp
      ultimately show ?thesis using step unfolding fold by blast
    next
      case nd: False
      with snoc.IH obtain es1 es2 where es: "es = es1 @ es2" "EV_MP_DS_INOPERATIONAL \<notin> set es2"
        "subseq (mp_phase ?s) es2" by blast
      from step es(3) have "subseq (mp_phase ?s') (es2 @ [e])"
        by (metis list_emb_append_mono subseq_order.refl subseq_rev_drop_many)
      moreover from es step have "EV_MP_DS_INOPERATIONAL \<notin> set (es2 @ [e])" by auto
      moreover from es(1) have "es @ [e] = es1 @ (es2 @ [e])" by simp
      ultimately show ?thesis using step unfolding fold by blast
    qed
  qed
qed

text \<open>
  C14: no set-point is accepted before homing. Whatever events a disabled motion machine is given,
  it handles all of them, and when it ends up in one of the states of the profile position mode,
  then since the last loss of the drive it has seen the drive become operational, the homing
  mode confirmed and the homed flag, in this order.
\<close>

theorem mp_homed_before_motion:
  assumes "sdo_quiet w" and "mp_state_of w = ST_MP_DISABLED"
  shows "\<exists>w'. run_steps (map mch_mp_handle_event es) w = Inr w'
     \<and> (mp_state_of w' \<in> {ST_MP_SWITCH_MODE_PP, ST_MP_PP_IDLE, ST_MP_PP_SP_NACK, ST_MP_PP_SP_ACK} \<longrightarrow>
        (\<exists>es1 es2. es = es1 @ es2 \<and> EV_MP_DS_INOPERATIONAL \<notin> set es2
          \<and> subseq [EV_MP_DS_OPERATIONAL, EV_MP_MODE_HOMING, EV_MP_HOMED] es2))"
proof -
  from mp_machine.run_ok [OF assms(1), of es] obtain w' where
    w': "run_steps (map mch_mp_handle_event es) w = Inr w'"
    and st: "mp_state_of w' = foldl mch_mp_next_state_given_event ST_MP_DISABLED es"
    by (auto simp: assms(2))
  have "\<exists>es1 es2. es = es1 @ es2 \<and> EV_MP_DS_INOPERATIONAL \<notin> set es2
      \<and> subseq [EV_MP_DS_OPERATIONAL, EV_MP_MODE_HOMING, EV_MP_HOMED] es2"
    if "mp_state_of w' \<in> {ST_MP_SWITCH_MODE_PP, ST_MP_PP_IDLE, ST_MP_PP_SP_NACK, ST_MP_PP_SP_ACK}"
  proof -
    from that have "mp_state_of w' \<noteq> ST_MP_DISABLED" and
      "mp_phase (mp_state_of w') = [EV_MP_DS_OPERATIONAL, EV_MP_MODE_HOMING, EV_MP_HOMED]" by auto
    with mp_phase_reached [of es] st show ?thesis by auto
  qed
  with w' show ?thesis by blast
qed

definition sample_mp_env :: "mch_mp_state_t \<Rightarrow> mp_env" where
  "sample_mp_env s = sdo_env.extend (sample_sdo_env ST_SDO_WAITING) \<lparr>mch_mp = \<lparr>mp_state = s\<rparr>\<rparr>"

theorem mp_homed_before_motion_witness:
  "\<exists>w'. run_steps (map mch_mp_handle_event
       [EV_MP_DS_OPERATIONAL, EV_MP_MODE_HOMING, EV_MP_HOMED, EV_MP_MODE_PP])
       (sample_mp_env ST_MP_DISABLED) = Inr w'"
  using mp_homed_before_motion [of "sample_mp_env ST_MP_DISABLED"
      "[EV_MP_DS_OPERATIONAL, EV_MP_MODE_HOMING, EV_MP_HOMED, EV_MP_MODE_PP]"]
  by (auto simp: sample_mp_env_def sample_sdo_env_def sdo_env.defs mch_sdo_create_def
      sdo_quiet_def)

text \<open>
  C30: the set-point handshake. From the idle state, a set-point event followed by the drive's
  acknowledgement and its withdrawal brings the machine back to idle, and the only request it
  makes is one write of 0x2F to the control word, which withdraws the new-set-point bit; while a
  handshake is under way a further set-point event changes nothing.
\<close>

theorem mp_setpoint_handshake:
  assumes "sdo_quiet w" and "mp_state_of w = ST_MP_PP_IDLE"
  shows "\<exists>w'. run_steps (map mch_mp_handle_event
        [EV_MP_SETPOINT_SET, EV_MP_SETPOINT_SET, EV_MP_SETPOINT_ACK, EV_MP_SETPOINT_SET,
         EV_MP_SETPOINT_NACK]) w = Inr w'
     \<and> mp_state_of w' = ST_MP_PP_IDLE
     \<and> sdo_backlog w' = sdo_backlog w @ [write_req_frame OB_CONTROL_WORD 0 0x2F 2]"
proof -
  let ?es = "[EV_MP_SETPOINT_SET, EV_MP_SETPOINT_SET, EV_MP_SETPOINT_ACK, EV_MP_SETPOINT_SET,
         EV_MP_SETPOINT_NACK]"
  from mp_machine.run_ok [OF assms(1), of ?es] obtain w' where
    w': "run_steps (map mch_mp_handle_event ?es) w = Inr w'"
    and st: "mp_state_of w' = foldl mch_mp_next_state_given_event ST_MP_PP_IDLE ?es"
    by (auto simp: assms(2))
  from mp_machine.run_log [OF assms(1) w'] assms(2)
  have "sdo_backlog w' = sdo_backlog w @ [sdo_frame (plain_write OB_CONTROL_WORD 0 0x2F 2)]"
    by (simp add: mp_machine.step_out_def mp_next_def c_not_def)
  with w' st show ?thesis
    by (simp add: mp_next_def c_not_def plain_write_def write_request_def sdo_frame_def)
qed

theorem mp_setpoint_handshake_witness:
  "\<exists>w'. run_steps (map mch_mp_handle_event
        [EV_MP_SETPOINT_SET, EV_MP_SETPOINT_SET, EV_MP_SETPOINT_ACK, EV_MP_SETPOINT_SET,
         EV_MP_SETPOINT_NACK]) (sample_mp_env ST_MP_PP_IDLE) = Inr w'
     \<and> sdo_backlog w' = [write_req_frame OB_CONTROL_WORD 0 0x2F 2]"
  using mp_setpoint_handshake [of "sample_mp_env ST_MP_PP_IDLE"]
  by (auto simp: sample_mp_env_def sample_sdo_env_def sdo_env.defs mch_sdo_create_def
      sdo_quiet_def sdo_backlog_def)

end
