(* ===== verification/Mch_Ds.thy ===== *)
theory Mch_Ds
  imports Mch_Mp
begin

text \<open>
  The drive state machine of DS 402, \<^verbatim>\<open>libsled/machines/mch_ds.cc\<close>. It follows the drive's status
  word, walks the drive to \<^verbatim>\<open>OPERATION_ENABLED\<close> with control words, and tells the motion machine
  when that state is entered and left (the callbacks \<^verbatim>\<open>mch_ds_on_operation_enabled\<close> and
  \<^verbatim>\<open>mch_ds_on_operation_disabled\<close> of \<^verbatim>\<open>libsled/sled.cc\<close>). The machine's handlers are function
  pointers with one candidate each: the model keeps whether they are set.
\<close>

section \<open>Data\<close>

datatype mch_ds_state_t =
    ST_DS_DISABLED
  | ST_DS_UNKNOWN
  | ST_DS_FAULT
  | ST_DS_CLEARING_FAULT
  | ST_DS_READY_TO_SWITCH_ON
  | ST_DS_SWITCH_ON
  | ST_DS_SWITCHED_ON
  | ST_DS_PREPARE_SWITCH_ON
  | ST_DS_SHUTDOWN
  | ST_DS_SWITCH_ON_DISABLED
  | ST_DS_ENABLE_OPERATION
  | ST_DS_DISABLE_OPERATION
  | ST_DS_OPERATION_ENABLED

datatype mch_ds_event_t =
    EV_DS_NET_OPERATIONAL
  | EV_DS_NET_INOPERATIONAL
  | EV_DS_NOT_READY_TO_SWITCH_ON
  | EV_DS_READY_TO_SWITCH_ON
  | EV_DS_SWITCHED_ON
  | EV_DS_OPERATION_ENABLED
  | EV_DS_FAULT
  | EV_DS_FAULT_REACTION_ACTIVE
  | EV_DS_QUICK_STOP_ACTIVE
  | EV_DS_VOLTAGE_ENABLED
  | EV_DS_VOLTAGE_DISABLED

fun ds_state_num :: "mch_ds_state_t \<Rightarrow> nat" where
  "ds_state_num ST_DS_DISABLED = 0"
| "ds_state_num ST_DS_UNKNOWN = 1"
| "ds_state_num ST_DS_FAULT = 2"
| "ds_state_num ST_DS_CLEARING_FAULT = 3"
| "ds_state_num ST_DS_READY_TO_SWITCH_ON = 4"
| "ds_state_num ST_DS_SWITCH_ON = 5"
| "ds_state_num ST_DS_SWITCHED_ON = 6"
| "ds_state_num ST_DS_PREPARE_SWITCH_ON = 7"
| "ds_state_num ST_DS_SHUTDOWN = 8"
| "ds_state_num ST_DS_SWITCH_ON_DISABLED = 9"
| "ds_state_num ST_DS_ENABLE_OPERATION = 10"
| "ds_state_num ST_DS_DISABLE_OPERATION = 11"
| "ds_state_num ST_DS_OPERATION_ENABLED = 12"

record mch_ds_t =
  ds_state :: mch_ds_state_t
  operation_enabled_handler :: bool
  operation_disabled_handler :: bool

record ds_env = mp_env +
  mch_ds :: mch_ds_t

definition mch_ds_create :: mch_ds_t where
  "mch_ds_create = \<lparr>ds_state = ST_DS_DISABLED, operation_enabled_handler = False,
     operation_disabled_handler = False\<rparr>"

abbreviation ds_state_of :: "'z ds_env_scheme \<Rightarrow> mch_ds_state_t" where
  "ds_state_of w \<equiv> ds_state (mch_ds w)"

definition set_ds_state :: "mch_ds_state_t \<Rightarrow> 'z ds_env_scheme \<Rightarrow> 'z ds_env_scheme" where
  "set_ds_state s w = w\<lparr>mch_ds := (mch_ds w)\<lparr>ds_state := s\<rparr>\<rparr>"

section \<open>The machine\<close>

definition mch_ds_send_control_word :: "u16 \<Rightarrow> 'z ds_env_scheme action" where
  "mch_ds_send_control_word control_word =
     mch_sdo_queue_write OB_CONTROL_WORD 0x00 (ucast control_word) 0x02"

definition mch_ds_next_state_given_event ::
    "mch_ds_state_t \<Rightarrow> mch_ds_event_t \<Rightarrow> mch_ds_state_t" where
  "mch_ds_next_state_given_event s event =
     (if c_not (ds_state_num s) = ds_state_num ST_DS_DISABLED \<and> event = EV_DS_NET_INOPERATIONAL
      then ST_DS_DISABLED
      else if c_not (ds_state_num s) = ds_state_num ST_DS_DISABLED \<and> event = EV_DS_FAULT
      then ST_DS_CLEARING_FAULT
      else if c_not (ds_state_num s) = ds_state_num ST_DS_DISABLED
        \<and> event = EV_DS_FAULT_REACTION_ACTIVE
      then ST_DS_FAULT
      else case s of
        ST_DS_DISABLED \<Rightarrow> if event = EV_DS_NET_OPERATIONAL then ST_DS_UNKNOWN else s
      | ST_DS_FAULT \<Rightarrow> if event = EV_DS_FAULT then ST_DS_CLEARING_FAULT else s
      | ST_DS_CLEARING_FAULT \<Rightarrow>
          if event = EV_DS_NOT_READY_TO_SWITCH_ON then ST_DS_SWITCH_ON_DISABLED
          else if event = EV_DS_READY_TO_SWITCH_ON then ST_DS_READY_TO_SWITCH_ON
          else if event = EV_DS_SWITCHED_ON then ST_DS_SWITCHED_ON else s
      | ST_DS_UNKNOWN \<Rightarrow>
          if event = EV_DS_NOT_READY_TO_SWITCH_ON then ST_DS_SWITCH_ON_DISABLED
          else if event = EV_DS_READY_TO_SWITCH_ON then ST_DS_READY_TO_SWITCH_ON else s
      | ST_DS_SWITCH_ON_DISABLED \<Rightarrow>
          if event = EV_DS_VOLTAGE_ENABLED then ST_DS_PREPARE_SWITCH_ON else s
      | ST_DS_PREPARE_SWITCH_ON \<Rightarrow>
          if event = EV_DS_READY_TO_SWITCH_ON then ST_DS_READY_TO_SWITCH_ON else s
      | ST_DS_READY_TO_SWITCH_ON \<Rightarrow>
          if event = EV_DS_VOLTAGE_ENABLED then ST_DS_SWITCH_ON else s
      | ST_DS_SWITCH_ON \<Rightarrow>
          if event = EV_DS_SWITCHED_ON then ST_DS_SWITCHED_ON
          else if event = EV_DS_VOLTAGE_DISABLED then ST_DS_SHUTDOWN else s
      | ST_DS_SHUTDOWN \<Rightarrow>
          if event = EV_DS_NOT_READY_TO_SWITCH_ON then ST_DS_SWITCH_ON_DISABLED
          else if event = EV_DS_READY_TO_SWITCH_ON then ST_DS_READY_TO_SWITCH_ON else s
      | ST_DS_SWITCHED_ON \<Rightarrow>
          if event = EV_DS_VOLTAGE_ENABLED then ST_DS_ENABLE_OPERATION
          else if event = EV_DS_VOLTAGE_DISABLED then ST_DS_SHUTDOWN else s
      | ST_DS_DISABLE_OPERATION \<Rightarrow>
          if event = EV_DS_SWITCHED_ON then ST_DS_SWITCHED_ON else s
      | ST_DS_ENABLE_OPERATION \<Rightarrow>
          if event = EV_DS_OPERATION_ENABLED then ST_DS_OPERATION_ENABLED else s
      | ST_DS_OPERATION_ENABLED \<Rightarrow>
          if event = EV_DS_VOLTAGE_DISABLED then ST_DS_DISABLE_OPERATION else s)"

text \<open>The two callbacks that \<^verbatim>\<open>setup_state_machines\<close> registers with the machine.\<close>

definition mch_ds_on_operation_enabled :: "'z ds_env_scheme action" where
  "mch_ds_on_operation_enabled = mch_mp_handle_event EV_MP_DS_OPERATIONAL"

definition mch_ds_on_operation_disabled :: "'z ds_env_scheme action" where
  "mch_ds_on_operation_disabled = mch_mp_handle_event EV_MP_DS_INOPERATIONAL"

definition mch_ds_on_enter :: "'z ds_env_scheme action" where
  "mch_ds_on_enter w =
     (case ds_state_of w of
        ST_DS_UNKNOWN \<Rightarrow> mch_ds_send_control_word 0x06 w
      | ST_DS_PREPARE_SWITCH_ON \<Rightarrow> mch_ds_send_control_word 0x06 w
      | ST_DS_SWITCH_ON \<Rightarrow> mch_ds_send_control_word 0x07 w
      | ST_DS_SHUTDOWN \<Rightarrow> mch_ds_send_control_word 0x06 w
      | ST_DS_ENABLE_OPERATION \<Rightarrow> mch_ds_send_control_word 0x0F w
      | ST_DS_DISABLE_OPERATION \<Rightarrow> mch_ds_send_control_word 0x07 w
      | ST_DS_OPERATION_ENABLED \<Rightarrow>
          when_step (operation_enabled_handler (mch_ds w)) mch_ds_on_operation_enabled w
      | ST_DS_CLEARING_FAULT \<Rightarrow> mch_sdo_queue_read 0x3518 0x01 w
      | _ \<Rightarrow> Inr w)"

definition mch_ds_on_exit :: "'z ds_env_scheme action" where
  "mch_ds_on_exit w =
     (case ds_state_of w of
        ST_DS_OPERATION_ENABLED \<Rightarrow>
          when_step (operation_disabled_handler (mch_ds w)) mch_ds_on_operation_disabled w
      | _ \<Rightarrow> Inr w)"

definition mch_ds_handle_event :: "mch_ds_event_t \<Rightarrow> 'z ds_env_scheme action" where
  "mch_ds_handle_event event w =
     (let next_state = mch_ds_next_state_given_event (ds_state_of w) event in
      if ds_state_of w \<noteq> next_state
      then bind_outcome (mch_ds_on_exit w) (\<lambda>w. mch_ds_on_enter (set_ds_state next_state w))
      else Inr w)"

section \<open>The machine contract\<close>

lemma ds_state_num_0 [simp]: "ds_state_num s = 0 \<longleftrightarrow> s = ST_DS_DISABLED"
  by (cases s) simp_all

lemma set_ds_state_simps [simp]:
  "ds_state_of (set_ds_state s w) = s"
  "operation_enabled_handler (mch_ds (set_ds_state s w)) = operation_enabled_handler (mch_ds w)"
  "operation_disabled_handler (mch_ds (set_ds_state s w)) = operation_disabled_handler (mch_ds w)"
  "mch_mp (set_ds_state s w) = mch_mp w"
  "mch_sdo (set_ds_state s w) = mch_sdo w"
  "interface (set_ds_state s w) = interface w"
  "sent (set_ds_state s w) = sent w"
  "driver (set_ds_state s w) = driver w"
  "ds_env.more (set_ds_state s w) = ds_env.more w"
  by (simp_all add: set_ds_state_def)

lemma set_ds_state_quiet [simp]:
  "sdo_quiet (set_ds_state s w) = sdo_quiet w"
  "sdo_backlog (set_ds_state s w) = sdo_backlog w"
  by (simp_all add: sdo_quiet_def sdo_backlog_def)

lemma ds_env_of_mp_more:
  assumes "mp_env.more w' = mp_env.more w"
  shows "mch_ds w' = mch_ds w" and "ds_env.more w' = ds_env.more w"
  using assms by (cases w; cases w'; simp)+

lemma ds_env_of_sdo_more:
  assumes "sdo_env.more w' = sdo_env.more w"
  shows "mch_mp w' = mch_mp w" and "mch_ds w' = mch_ds w" and "ds_env.more w' = ds_env.more w"
  using assms by (cases w; cases w'; simp)+

definition plain_read :: "u16 \<Rightarrow> u8 \<Rightarrow> sdo_t" where
  "plain_read index subindex = \<lparr>is_write = False, sdo_index = index, sdo_subindex = subindex,
     sdo_val = 0, sdo_size = 0, sdo_dat = Data_null, abort_callback = None, write_callback = None,
     read_callback = False\<rparr>"

lemma mch_sdo_queue_read_eq:
  "mch_sdo_queue_read index subindex = queue_sdo (plain_read index subindex)"
  by (simp add: mch_sdo_queue_read_def mch_sdo_queue_read_with_cb_def plain_read_def)

text \<open>The requests that entering a state makes, apart from those of the motion machine.\<close>

fun ds_enter_out :: "mch_ds_state_t \<Rightarrow> can_message_t list" where
  "ds_enter_out ST_DS_UNKNOWN = [sdo_frame (plain_write OB_CONTROL_WORD 0 0x06 2)]"
| "ds_enter_out ST_DS_PREPARE_SWITCH_ON = [sdo_frame (plain_write OB_CONTROL_WORD 0 0x06 2)]"
| "ds_enter_out ST_DS_SWITCH_ON = [sdo_frame (plain_write OB_CONTROL_WORD 0 0x07 2)]"
| "ds_enter_out ST_DS_SHUTDOWN = [sdo_frame (plain_write OB_CONTROL_WORD 0 0x06 2)]"
| "ds_enter_out ST_DS_ENABLE_OPERATION = [sdo_frame (plain_write OB_CONTROL_WORD 0 0x0F 2)]"
| "ds_enter_out ST_DS_DISABLE_OPERATION = [sdo_frame (plain_write OB_CONTROL_WORD 0 0x07 2)]"
| "ds_enter_out ST_DS_CLEARING_FAULT = [sdo_frame (plain_read 0x3518 1)]"
| "ds_enter_out _ = []"

text \<open>
  The motion machine is enabled exactly while the drive is, between two calls: \<open>ds_mp_tied\<close>. It
  needs the two handlers.
\<close>

definition ds_handlers_set :: "'z ds_env_scheme \<Rightarrow> bool" where
  "ds_handlers_set w \<longleftrightarrow>
     operation_enabled_handler (mch_ds w) \<and> operation_disabled_handler (mch_ds w)"

definition ds_mp_tied :: "'z ds_env_scheme \<Rightarrow> bool" where
  "ds_mp_tied w \<longleftrightarrow> (ds_state_of w = ST_DS_OPERATION_ENABLED \<longleftrightarrow> mp_state_of w \<noteq> ST_MP_DISABLED)"

definition ds_inv :: "'z ds_env_scheme \<Rightarrow> bool" where
  "ds_inv w \<longleftrightarrow> sdo_quiet w \<and> ds_handlers_set w \<and> ds_mp_tied w"

text \<open>The part of the environment that the drive and motion machines never touch.\<close>

definition ds_frame :: "'z ds_env_scheme \<Rightarrow> 'z ds_env_scheme \<Rightarrow> bool" where
  "ds_frame w w' \<longleftrightarrow> ds_env.more w' = ds_env.more w \<and> driver w' = driver w
     \<and> operation_enabled_handler (mch_ds w') = operation_enabled_handler (mch_ds w)
     \<and> operation_disabled_handler (mch_ds w') = operation_disabled_handler (mch_ds w)"

lemma ds_frame_refl [simp]: "ds_frame w w"
  by (simp add: ds_frame_def)

lemma ds_frame_trans: "ds_frame w w1 \<Longrightarrow> ds_frame w1 w2 \<Longrightarrow> ds_frame w w2"
  by (simp add: ds_frame_def)

lemma ds_frame_handlers: "ds_frame w w' \<Longrightarrow> ds_handlers_set w' = ds_handlers_set w"
  by (simp add: ds_frame_def ds_handlers_set_def)

lemma ds_frame_more: "ds_frame w w' \<Longrightarrow> ds_env.more w' = ds_env.more w"
  by (simp add: ds_frame_def)

lemma mp_in_ds:
  assumes "sdo_quiet w"
  shows "\<exists>w'. mch_mp_handle_event e w = Inr w' \<and> sdo_quiet w' \<and> mch_ds w' = mch_ds w
    \<and> mp_state_of w' = mch_mp_next_state_given_event (mp_state_of w) e \<and> ds_frame w w'
    \<and> sdo_backlog w' = sdo_backlog w @ mp_machine.step_out (mp_state_of w) e"
proof -
  from mp_machine.handle_ok [OF assms, of e] obtain w' where
    w': "mch_mp_handle_event e w = Inr w'" "sdo_quiet w'"
      "mp_state_of w' = mch_mp_next_state_given_event (mp_state_of w) e" by blast
  note m = mp_handle_more [OF assms w'(1)]
  have "mch_ds w' = mch_ds w" and "ds_frame w w'"
    using ds_env_of_mp_more [OF m(1)] m(2) by (simp_all add: ds_frame_def)
  with w' mp_machine.handle_log [OF assms w'(1)] show ?thesis by blast
qed

lemma ds_request:
  assumes "sdo_quiet w"
  shows "\<exists>w'. queue_sdo r w = Inr w' \<and> sdo_quiet w' \<and> mch_ds w' = mch_ds w
    \<and> mch_mp w' = mch_mp w \<and> ds_frame w w' \<and> sdo_backlog w' = sdo_backlog w @ [sdo_frame r]"
proof -
  from queue_sdo_ext [OF assms] obtain w' where w': "queue_sdo r w = Inr w'"
    and x: "sdo_ext w [sdo_frame r] w'" by blast
  note e = sdo_extD [OF x]
  note m = ds_env_of_sdo_more [OF e(3)]
  from e m have "ds_frame w w'" by (simp add: ds_frame_def)
  with w' e m show ?thesis by blast
qed

lemma ds_exit:
  assumes "ds_inv w"
  shows "\<exists>w1. mch_ds_on_exit w = Inr w1 \<and> sdo_quiet w1 \<and> mch_ds w1 = mch_ds w
    \<and> mp_state_of w1 = ST_MP_DISABLED \<and> ds_frame w w1
    \<and> sdo_backlog w1 = sdo_backlog w @ mp_exit_out (mp_state_of w)"
proof (cases "ds_state_of w = ST_DS_OPERATION_ENABLED")
  case True
  from assms have q: "sdo_quiet w" and h: "operation_disabled_handler (mch_ds w)"
    by (simp_all add: ds_inv_def ds_handlers_set_def)
  from True assms have "mp_state_of w \<noteq> ST_MP_DISABLED" by (simp add: ds_inv_def ds_mp_tied_def)
  with mp_in_ds [OF q, of EV_MP_DS_INOPERATIONAL] True h show ?thesis
    by (simp add: mch_ds_on_exit_def mch_ds_on_operation_disabled_def mp_next_inoperational
        mp_machine.step_out_def)
next
  case False
  with assms have "mp_state_of w = ST_MP_DISABLED" "sdo_quiet w"
    by (simp_all add: ds_inv_def ds_mp_tied_def)
  moreover from False have "mch_ds_on_exit w = Inr w"
    by (cases "ds_state_of w") (simp_all add: mch_ds_on_exit_def)
  ultimately show ?thesis by simp
qed

lemma ds_enter_request:
  assumes "ds_state_of w \<noteq> ST_DS_OPERATION_ENABLED"
  obtains "mch_ds_on_enter w = Inr w" "ds_enter_out (ds_state_of w) = []"
  | r where "mch_ds_on_enter w = queue_sdo r w" "ds_enter_out (ds_state_of w) = [sdo_frame r]"
  using assms
  by (cases "ds_state_of w") (simp_all add: mch_ds_on_enter_def mch_ds_send_control_word_def
      mch_sdo_queue_write_eq mch_sdo_queue_read_eq)

lemma ds_enter:
  assumes "sdo_quiet w" and "ds_handlers_set w" and "mp_state_of w = ST_MP_DISABLED"
  shows "\<exists>w'. mch_ds_on_enter w = Inr w' \<and> mch_ds w' = mch_ds w \<and> ds_inv w' \<and> ds_frame w w'
    \<and> sdo_backlog w' = sdo_backlog w @ ds_enter_out (ds_state_of w)
        @ (if ds_state_of w = ST_DS_OPERATION_ENABLED
           then mp_enter_out ST_MP_SWITCH_MODE_HOMING else [])"
proof (cases "ds_state_of w = ST_DS_OPERATION_ENABLED")
  case True
  have n: "mch_mp_next_state_given_event ST_MP_DISABLED EV_MP_DS_OPERATIONAL
      = ST_MP_SWITCH_MODE_HOMING" by (simp add: mp_next_def c_not_def)
  from mp_in_ds [OF assms(1), of EV_MP_DS_OPERATIONAL] obtain w' where
    w': "mch_mp_handle_event EV_MP_DS_OPERATIONAL w = Inr w'" "sdo_quiet w'" "mch_ds w' = mch_ds w"
      "mp_state_of w' = ST_MP_SWITCH_MODE_HOMING" "ds_frame w w'"
      "sdo_backlog w' = sdo_backlog w @ mp_enter_out ST_MP_SWITCH_MODE_HOMING"
    by (auto simp: assms(3) n mp_machine.step_out_def)
  from assms(2) True w'(1) have "mch_ds_on_enter w = Inr w'"
    by (simp add: mch_ds_on_enter_def ds_handlers_set_def mch_ds_on_operation_enabled_def)
  moreover from True assms(2) w' have "ds_inv w'"
    by (simp add: ds_inv_def ds_handlers_set_def ds_mp_tied_def)
  ultimately show ?thesis using w' True by simp
next
  case False
  from False show ?thesis
  proof (cases rule: ds_enter_request)
    case 1
    with assms False show ?thesis by (simp add: ds_inv_def ds_mp_tied_def)
  next
    case (2 r)
    from ds_request [OF assms(1), of r] obtain w' where
      w': "queue_sdo r w = Inr w'" "sdo_quiet w'" "mch_ds w' = mch_ds w" "mch_mp w' = mch_mp w"
        "ds_frame w w'" "sdo_backlog w' = sdo_backlog w @ [sdo_frame r]" by blast
    with assms False have "ds_inv w'" by (simp add: ds_inv_def ds_handlers_set_def ds_mp_tied_def)
    with w' 2 False show ?thesis by simp
  qed
qed

lemma ds_exit_enter:
  assumes "ds_inv w"
  shows "\<exists>w1. mch_ds_on_exit w = Inr w1 \<and> ds_state_of w1 = ds_state_of w
    \<and> (\<forall>s. \<exists>w2. mch_ds_on_enter (set_ds_state s w1) = Inr w2 \<and> ds_state_of w2 = s
         \<and> ds_inv w2 \<and> ds_frame w w2
         \<and> sdo_backlog w2 = sdo_backlog w @ mp_exit_out (mp_state_of w) @ ds_enter_out s
             @ (if s = ST_DS_OPERATION_ENABLED
                then mp_enter_out ST_MP_SWITCH_MODE_HOMING else []))"
proof -
  from ds_exit [OF assms] obtain w1 where w1: "mch_ds_on_exit w = Inr w1"
    "mch_ds w1 = mch_ds w" "sdo_quiet w1" "mp_state_of w1 = ST_MP_DISABLED" "ds_frame w w1"
    "sdo_backlog w1 = sdo_backlog w @ mp_exit_out (mp_state_of w)" by blast
  have "\<exists>w2. mch_ds_on_enter (set_ds_state s w1) = Inr w2 \<and> ds_state_of w2 = s
      \<and> ds_inv w2 \<and> ds_frame w w2
      \<and> sdo_backlog w2 = sdo_backlog w @ mp_exit_out (mp_state_of w) @ ds_enter_out s
          @ (if s = ST_DS_OPERATION_ENABLED
             then mp_enter_out ST_MP_SWITCH_MODE_HOMING else [])" for s
  proof -
    let ?v = "set_ds_state s w1"
    have v: "sdo_quiet ?v" "mp_state_of ?v = ST_MP_DISABLED" "ds_frame w1 ?v"
      using w1 by (simp_all add: ds_frame_def)
    from assms have "ds_handlers_set w" by (simp add: ds_inv_def)
    with w1(2) have "ds_handlers_set ?v" by (simp add: ds_handlers_set_def)
    from ds_enter [OF v(1) this v(2)] obtain w2 where
      "mch_ds_on_enter ?v = Inr w2" "mch_ds w2 = mch_ds ?v" "ds_inv w2" "ds_frame ?v w2"
      "sdo_backlog w2 = sdo_backlog w1 @ ds_enter_out s
          @ (if s = ST_DS_OPERATION_ENABLED
             then mp_enter_out ST_MP_SWITCH_MODE_HOMING else [])" by auto
    moreover from w1(5) v(3) \<open>ds_frame ?v w2\<close> have "ds_frame w w2" by (blast intro: ds_frame_trans)
    ultimately show ?thesis using w1(6) by simp
  qed
  with w1 show ?thesis by (metis (no_types))
qed

interpretation ds_machine: guarded_machine "ds_state_of" set_ds_state
  mch_ds_next_state_given_event mch_ds_on_exit mch_ds_on_enter mch_ds_handle_event ds_inv
proof unfold_locales
  fix w :: "'a ds_env_scheme" and e
  show "mch_ds_next_state_given_event (ds_state_of w) e = ds_state_of w \<Longrightarrow>
      mch_ds_handle_event e w = Inr w"
    by (simp add: mch_ds_handle_event_def)
  show "mch_ds_next_state_given_event (ds_state_of w) e \<noteq> ds_state_of w \<Longrightarrow>
      mch_ds_handle_event e w = bind_outcome (mch_ds_on_exit w)
        (\<lambda>w1. mch_ds_on_enter (set_ds_state (mch_ds_next_state_given_event (ds_state_of w) e) w1))"
    by (simp add: mch_ds_handle_event_def)
next
  fix w :: "'a ds_env_scheme" and s
  show "ds_state_of (set_ds_state s w) = s" by simp
next
  fix w :: "'a ds_env_scheme"
  assume "ds_inv w"
  from ds_exit_enter [OF this]
  show "\<exists>w'. mch_ds_on_exit w = Inr w' \<and> ds_state_of w' = ds_state_of w \<and>
      (\<forall>s. s \<noteq> ds_state_of w \<longrightarrow> (\<exists>w''. mch_ds_on_enter (set_ds_state s w') = Inr w''
        \<and> ds_state_of w'' = s \<and> ds_inv w''))"
    by meson
qed

definition ds_step_out :: "mch_ds_state_t \<Rightarrow> mch_mp_state_t \<Rightarrow> mch_ds_event_t \<Rightarrow> can_message_t list" where
  "ds_step_out s m e =
     (if mch_ds_next_state_given_event s e = s then []
      else mp_exit_out m @ ds_enter_out (mch_ds_next_state_given_event s e)
        @ (if mch_ds_next_state_given_event s e = ST_DS_OPERATION_ENABLED
           then mp_enter_out ST_MP_SWITCH_MODE_HOMING else []))"

lemma ds_handle:
  assumes "ds_inv w"
  shows "\<exists>w'. mch_ds_handle_event e w = Inr w' \<and> ds_inv w' \<and> ds_frame w w'
    \<and> ds_state_of w' = mch_ds_next_state_given_event (ds_state_of w) e
    \<and> sdo_backlog w' = sdo_backlog w @ ds_step_out (ds_state_of w) (mp_state_of w) e"
proof (cases "mch_ds_next_state_given_event (ds_state_of w) e = ds_state_of w")
  case True
  with assms show ?thesis by (simp add: ds_machine.handle_ignored ds_step_out_def)
next
  case False
  from ds_exit_enter [OF assms] obtain w1 w2 where
    "mch_ds_on_exit w = Inr w1"
    "mch_ds_on_enter (set_ds_state (mch_ds_next_state_given_event (ds_state_of w) e) w1) = Inr w2"
    "ds_state_of w2 = mch_ds_next_state_given_event (ds_state_of w) e" "ds_inv w2" "ds_frame w w2"
    "sdo_backlog w2 = sdo_backlog w @ ds_step_out (ds_state_of w) (mp_state_of w) e"
    using False unfolding ds_step_out_def by (simp only: if_False) meson
  with False show ?thesis by (simp add: ds_machine.handle_changed)
qed

section \<open>Transitions\<close>

lemmas ds_next_def = mch_ds_next_state_given_event_def

lemma ds_next_disabled_iff:
  "mch_ds_next_state_given_event s e = ST_DS_DISABLED \<longleftrightarrow>
     e = EV_DS_NET_INOPERATIONAL \<or> s = ST_DS_DISABLED \<and> e \<noteq> EV_DS_NET_OPERATIONAL"
  by (cases s) (auto simp: ds_next_def c_not_def)

text \<open>The traffic of the two machines: events of the drive's status word, in any order.\<close>

datatype drive_op = Ds_event mch_ds_event_t | Mp_event mch_mp_event_t

fun drive_op_action :: "drive_op \<Rightarrow> 'z ds_env_scheme action" where
  "drive_op_action (Ds_event e) = mch_ds_handle_event e"
| "drive_op_action (Mp_event e) = mch_mp_handle_event e"

definition drive_op_ok :: "drive_op \<Rightarrow> bool" where
  "drive_op_ok x \<longleftrightarrow> x \<noteq> Mp_event EV_MP_DS_OPERATIONAL \<and> x \<noteq> Mp_event EV_MP_DS_INOPERATIONAL"

lemma mp_event_keeps_ds_inv:
  assumes "ds_inv w" and "e \<noteq> EV_MP_DS_OPERATIONAL" and "e \<noteq> EV_MP_DS_INOPERATIONAL"
  shows "\<exists>w'. mch_mp_handle_event e w = Inr w' \<and> ds_inv w' \<and> ds_frame w w' \<and> mch_ds w' = mch_ds w
    \<and> mp_state_of w' = mch_mp_next_state_given_event (mp_state_of w) e"
proof -
  from assms(1) have "sdo_quiet w" by (simp add: ds_inv_def)
  from mp_in_ds [OF this, of e] obtain w' where
    w': "mch_mp_handle_event e w = Inr w'" "sdo_quiet w'" "mch_ds w' = mch_ds w"
      "mp_state_of w' = mch_mp_next_state_given_event (mp_state_of w) e" "ds_frame w w'" by blast
  from w'(4) have "mp_state_of w' = ST_MP_DISABLED \<longleftrightarrow> mp_state_of w = ST_MP_DISABLED"
    using assms(2,3) by (simp add: mp_next_disabled_iff)
  with assms(1) w'(2,3) have "ds_inv w'" by (simp add: ds_inv_def ds_handlers_set_def ds_mp_tied_def)
  with w' show ?thesis by blast
qed

lemma drive_op_total: "drive_op_ok x \<Longrightarrow> total_on ds_inv (drive_op_action x)"
proof (rule total_onI)
  fix w :: "'a ds_env_scheme" assume "drive_op_ok x" "ds_inv w"
  then show "\<exists>w'. drive_op_action x w = Inr w' \<and> ds_inv w'"
    using ds_handle [of w] mp_event_keeps_ds_inv [of w]
    by (cases x) (simp_all add: drive_op_ok_def, blast+)
qed

text \<open>
  The motion machine runs exactly while the drive is enabled. For every interleaving of the
  events that the drive's status word produces for the two machines, every event is handled, and
  afterwards the motion machine is out of its disabled state if and only if the drive machine is
  in \<^verbatim>\<open>OPERATION_ENABLED\<close>.
\<close>

lemma ds_mp_lockstep:
  assumes "ds_inv w" and "\<forall>x \<in> set ops. drive_op_ok x"
  shows "\<exists>w'. run_steps (map drive_op_action ops) w = Inr w' \<and> sdo_quiet w'
     \<and> (mp_state_of w' \<noteq> ST_MP_DISABLED \<longleftrightarrow> ds_state_of w' = ST_DS_OPERATION_ENABLED)"
proof -
  have "total_on ds_inv (run_steps (map drive_op_action ops :: 'a ds_env_scheme action list))"
    by (rule total_on_run_steps) (use assms(2) drive_op_total in fastforce)
  from this assms(1) obtain w' where "run_steps (map drive_op_action ops) w = Inr w'" "ds_inv w'"
    by (rule total_onE)
  then show ?thesis by (auto simp: ds_inv_def ds_mp_tied_def)
qed

definition sample_ds_env :: "mch_ds_state_t \<Rightarrow> mch_mp_state_t \<Rightarrow> ds_env" where
  "sample_ds_env d m = mp_env.extend (sample_mp_env m)
     \<lparr>mch_ds = \<lparr>ds_state = d, operation_enabled_handler = True, operation_disabled_handler = True\<rparr>\<rparr>"

lemmas sample_ds_simps = sample_ds_env_def sample_mp_env_def sample_sdo_env_def sdo_env.defs
  mp_env.defs mch_sdo_create_def sdo_quiet_def ds_inv_def ds_handlers_set_def ds_mp_tied_def

end
