(* ===== verification/Doubles.thy ===== *)
theory Doubles
  imports Prelude Complex_Main
begin

text \<open>
  The \<^verbatim>\<open>double\<close> of the sources: IEEE 754 binary64, every operation rounded to nearest, ties to
  even. A value is its exact rational, an infinity or NaN; the sign of zero is not kept, since no
  comparison and no conversion to an integer can tell it. All of it evaluates.
\<close>

section \<open>Rounding\<close>

datatype double = Fin rat | Inf bool | NaN

definition pow2 :: "int \<Rightarrow> rat" where
  "pow2 e = (if 0 \<le> e then 2 ^ nat e else 1 / 2 ^ nat (- e))"

text \<open>The number of binary digits of a positive number.\<close>

function bits :: "int \<Rightarrow> int" where
  "bits n = (if n \<le> 0 then 0 else bits (n div 2) + 1)"
  by pat_completeness auto
termination by (relation "measure nat") auto

declare bits.simps [simp del]

text \<open>The exponent of the last binary digit that a significand of 53 digits keeps.\<close>

definition ulp_exp :: "rat \<Rightarrow> int" where
  "ulp_exp q =
     (let (n, d) = quotient_of q;
          e = bits n - bits d;
          e' = (if q < pow2 e then e - 1 else e)
      in max (e' - 52) (- 1074))"

definition round_even :: "rat \<Rightarrow> int" where
  "round_even x =
     (let f = \<lfloor>x\<rfloor>; r = x - of_int f in
      if r < 1 / 2 then f else if r > 1 / 2 then f + 1 else if even f then f else f + 1)"

definition rnd_abs :: "rat \<Rightarrow> rat" where
  "rnd_abs q = (let e = ulp_exp q in of_int (round_even (q / pow2 e)) * pow2 e)"

text \<open>A result of 2^1024 or more, whose last digit counts 2^972 or more, overflows.\<close>

definition rnd :: "rat \<Rightarrow> double" where
  "rnd q =
     (if q = 0 then Fin 0
      else let a = rnd_abs \<bar>q\<bar> in
        if 971 < ulp_exp a then Inf (q < 0) else Fin (if q < 0 then - a else a))"

section \<open>Operations\<close>

fun d_neg :: "double \<Rightarrow> double" where
  "d_neg (Fin a) = Fin (- a)"
| "d_neg (Inf s) = Inf (\<not> s)"
| "d_neg NaN = NaN"

fun d_add :: "double \<Rightarrow> double \<Rightarrow> double" where
  "d_add (Fin a) (Fin b) = rnd (a + b)"
| "d_add (Inf s) (Inf t) = (if s = t then Inf s else NaN)"
| "d_add (Inf s) (Fin b) = Inf s"
| "d_add (Fin a) (Inf t) = Inf t"
| "d_add _ _ = NaN"

definition d_sub :: "double \<Rightarrow> double \<Rightarrow> double" where
  "d_sub a b = d_add a (d_neg b)"

fun d_mul :: "double \<Rightarrow> double \<Rightarrow> double" where
  "d_mul (Fin a) (Fin b) = rnd (a * b)"
| "d_mul (Inf s) (Inf t) = Inf (s \<noteq> t)"
| "d_mul (Inf s) (Fin b) = (if b = 0 then NaN else Inf (s \<noteq> (b < 0)))"
| "d_mul (Fin a) (Inf t) = (if a = 0 then NaN else Inf ((a < 0) \<noteq> t))"
| "d_mul _ _ = NaN"

text \<open>Division by a non-zero finite number, the only one the sources need.\<close>

fun d_div_const :: "double \<Rightarrow> rat \<Rightarrow> double" where
  "d_div_const (Fin a) c = rnd (a / c)"
| "d_div_const (Inf s) c = Inf (s \<noteq> (c < 0))"
| "d_div_const NaN c = NaN"

text \<open>\<^verbatim>\<open>!=\<close> and \<^verbatim>\<open>>\<close>.\<close>

fun d_neq :: "double \<Rightarrow> double \<Rightarrow> bool" where
  "d_neq NaN _ = True"
| "d_neq _ NaN = True"
| "d_neq a b = (a \<noteq> b)"

fun d_gt :: "double \<Rightarrow> double \<Rightarrow> bool" where
  "d_gt (Fin a) (Fin b) = (a > b)"
| "d_gt (Inf s) (Inf t) = (\<not> s \<and> t)"
| "d_gt (Inf s) (Fin b) = (\<not> s)"
| "d_gt (Fin a) (Inf t) = t"
| "d_gt _ _ = False"

text \<open>
  \<^verbatim>\<open>int32_t(x)\<close>: truncation towards zero, undefined when the result is not representable.
\<close>

definition trunc :: "rat \<Rightarrow> int" where
  "trunc q = (if q < 0 then \<lceil>q\<rceil> else \<lfloor>q\<rfloor>)"

definition int32_range :: "int \<Rightarrow> bool" where
  "int32_range i \<longleftrightarrow> - (2 ^ 31) \<le> i \<and> i < 2 ^ 31"

fun to_int32 :: "double \<Rightarrow> int outcome" where
  "to_int32 (Fin q) =
     (if int32_range (trunc q) then Inr (trunc q) else Inl (Undefined_behaviour Unrepresentable))"
| "to_int32 _ = Inl (Undefined_behaviour Unrepresentable)"

section \<open>Rounding error\<close>

lemma pow2_pos [simp]: "0 < pow2 e"
  by (simp add: pow2_def)

lemma pow2_nz [simp]: "pow2 e \<noteq> 0"
  by (simp add: pow2_def)

lemma pow2_Suc: "pow2 (e + 1) = 2 * pow2 e"
proof (cases "0 \<le> e")
  case True
  then show ?thesis by (simp add: pow2_def nat_add_distrib)
next
  case False
  then have "nat (- e) = Suc (nat (- (e + 1)))" by simp
  with False show ?thesis by (auto simp: pow2_def)
qed

lemma pow2_add_nat: "pow2 (e + int n) = 2 ^ n * pow2 e"
proof (induction n)
  case 0
  then show ?case by simp
next
  case (Suc n)
  have "pow2 (e + int (Suc n)) = pow2 ((e + int n) + 1)" by (simp add: algebra_simps)
  with Suc show ?case by (simp only: pow2_Suc) simp
qed

lemma pow2_nat: "pow2 (int n) = 2 ^ n"
  by (simp add: pow2_def)

lemma pow2_add: "pow2 (a + b) = pow2 a * pow2 b"
proof (cases "0 \<le> b")
  case True
  with pow2_add_nat [of a "nat b"] show ?thesis by (simp add: pow2_def)
next
  case False
  with pow2_add_nat [of "a + b" "nat (- b)"] show ?thesis by (simp add: pow2_def)
qed

lemma pow2_mono: "a \<le> b \<Longrightarrow> pow2 a \<le> pow2 b"
  using pow2_add_nat [of a "nat (b - a)"] by simp

lemma bits_bounds:
  assumes "0 < n"
  shows "pow2 (bits n - 1) \<le> of_int n \<and> of_int n < pow2 (bits n)"
  using assms
proof (induction n rule: bits.induct)
  case (1 n)
  show ?case
  proof (cases "n = 1")
    case True
    then show ?thesis by (simp add: bits.simps [of 1] bits.simps [of 0] pow2_def)
  next
    case False
    with "1.prems" have pos: "0 < n div 2" by auto
    with "1.IH" "1.prems" have ih: "pow2 (bits (n div 2) - 1) \<le> of_int (n div 2)"
      "of_int (n div 2) < pow2 (bits (n div 2))" by auto
    have two: "pow2 (bits (n div 2)) = 2 * pow2 (bits (n div 2) - 1)"
      using pow2_Suc [of "bits (n div 2) - 1"] by simp
    obtain k where k: "pow2 (bits (n div 2)) = of_int k"
    proof (cases "0 \<le> bits (n div 2)")
      case True
      then show ?thesis using that [of "2 ^ nat (bits (n div 2))"] by (simp add: pow2_def)
    next
      case False
      then have "pow2 (bits (n div 2)) \<le> pow2 0" by (intro pow2_mono) simp
      with ih(2) pos show ?thesis by (simp add: pow2_def)
    qed
    from ih(2) k have "n div 2 < k" by simp
    then have "n < 2 * k" by linarith
    then have "(of_int n :: rat) < 2 * of_int k" by (metis of_int_less_iff of_int_mult of_int_numeral)
    moreover from ih(1) have "2 * pow2 (bits (n div 2) - 1) \<le> of_int (2 * (n div 2))" by simp
    moreover have "(of_int (2 * (n div 2)) :: rat) \<le> of_int n" by (subst of_int_le_iff) simp
    moreover have "bits n = bits (n div 2) + 1" using "1.prems" by (simp add: bits.simps [of n])
    ultimately show ?thesis using two k by (simp add: pow2_Suc)
  qed
qed

lemma round_even_bound: "\<bar>of_int (round_even x) - x\<bar> \<le> 1 / 2"
proof -
  have f: "of_int \<lfloor>x\<rfloor> \<le> x" "x < of_int \<lfloor>x\<rfloor> + 1" by linarith+
  then show ?thesis unfolding round_even_def Let_def by (simp only: split: if_split) linarith
qed

text \<open>The exponent of the first binary digit.\<close>

definition lead_exp :: "rat \<Rightarrow> int" where
  "lead_exp q = (let (n, d) = quotient_of q; e = bits n - bits d in if q < pow2 e then e - 1 else e)"

lemma lead_exp_le:
  assumes "0 < q"
  shows "pow2 (lead_exp q) \<le> q"
proof -
  obtain n d where nd: "quotient_of q = (n, d)" by (cases "quotient_of q")
  then have d: "0 < d" and q: "q = of_int n / of_int d"
    using quotient_of_denom_pos quotient_of_div by blast+
  from assms d q have n: "0 < n" by (simp add: zero_less_divide_iff)
  define e where "e = bits n - bits d"
  define e' where "e' = (if q < pow2 e then e - 1 else e)"
  have "pow2 e' \<le> q"
  proof (cases "q < pow2 e")
    case True
    from bits_bounds [OF n] have a: "pow2 (bits n - 1) \<le> of_int n" by simp
    from bits_bounds [OF d] have b: "of_int d \<le> pow2 (bits d)" by simp
    from True have "pow2 (bits n - 1) = pow2 e' * pow2 (bits d)"
      by (simp add: e'_def e_def flip: pow2_add)
    then have "pow2 e' * of_int d \<le> pow2 (bits n - 1)"
      using mult_left_mono [OF b less_imp_le [OF pow2_pos [of e']]] by simp
    with a have "pow2 e' * of_int d \<le> of_int n" by (rule order_trans [rotated])
    with d show ?thesis unfolding q by (simp add: pos_le_divide_eq)
  next
    case False
    then show ?thesis by (simp add: e'_def)
  qed
  then show ?thesis unfolding e'_def e_def by (simp add: lead_exp_def nd Let_def)
qed

lemma ulp_exp_bound:
  assumes "0 < q"
  shows "pow2 (ulp_exp q) \<le> q / 2 ^ 52 \<or> ulp_exp q = - 1074"
proof -
  have "ulp_exp q = max (lead_exp q - 52) (- 1074)"
    by (simp add: ulp_exp_def lead_exp_def Let_def split_beta)
  moreover have "pow2 (lead_exp q) = 2 ^ 52 * pow2 (lead_exp q - 52)"
    using pow2_add_nat [of "lead_exp q - 52" 52] by simp
  ultimately show ?thesis using lead_exp_le [OF assms] by (auto simp: max_def field_simps)
qed

text \<open>The error of one rounding: half a unit of the last digit, hence relative 2^-53.\<close>

lemma rnd_abs_error:
  assumes "0 < q"
  shows "\<bar>rnd_abs q - q\<bar> \<le> q / 2 ^ 53 + pow2 (- 1074)"
proof -
  let ?e = "ulp_exp q"
  have "rnd_abs q - q = (of_int (round_even (q / pow2 ?e)) - q / pow2 ?e) * pow2 ?e"
    by (simp add: rnd_abs_def Let_def left_diff_distrib)
  then have "\<bar>rnd_abs q - q\<bar> = \<bar>of_int (round_even (q / pow2 ?e)) - q / pow2 ?e\<bar> * pow2 ?e"
    by (simp add: abs_mult abs_of_pos)
  also have "\<dots> \<le> 1 / 2 * pow2 ?e"
    by (rule mult_right_mono [OF round_even_bound]) (simp add: less_imp_le)
  finally have *: "\<bar>rnd_abs q - q\<bar> \<le> 1 / 2 * pow2 ?e" .
  from ulp_exp_bound [OF assms] show ?thesis
  proof
    assume "pow2 ?e \<le> q / 2 ^ 52"
    with * have "\<bar>rnd_abs q - q\<bar> \<le> q / 2 ^ 53" by simp
    with less_imp_le [OF pow2_pos [of "- 1074"]] show ?thesis by linarith
  next
    assume e: "?e = - 1074"
    from assms have "0 \<le> q / 2 ^ 53" by simp
    with * less_imp_le [OF pow2_pos [of "- 1074"]] show ?thesis unfolding e by linarith
  qed
qed

lemma rnd_abs_nonneg: "0 \<le> q \<Longrightarrow> 0 \<le> rnd_abs q"
  by (simp add: rnd_abs_def round_even_def Let_def less_imp_le)

lemma rnd_error:
  assumes "\<bar>q\<bar> \<le> 2 ^ 1000"
  obtains r where "rnd q = Fin r" and "\<bar>r - q\<bar> \<le> \<bar>q\<bar> / 2 ^ 53 + pow2 (- 1074)"
proof (cases "q = 0")
  case True
  then show ?thesis using that [of 0] by (simp add: rnd_def less_imp_le)
next
  case False
  then have err: "\<bar>rnd_abs \<bar>q\<bar> - \<bar>q\<bar>\<bar> \<le> \<bar>q\<bar> / 2 ^ 53 + pow2 (- 1074)"
    using rnd_abs_error [of "\<bar>q\<bar>"] by simp
  have "pow2 (- 1074) \<le> pow2 0" by (rule pow2_mono) simp
  then have "pow2 (- 1074) \<le> 1" by (simp add: pow2_def)
  moreover have "\<bar>q\<bar> / 2 ^ 53 \<le> \<bar>q\<bar>" by (simp add: divide_le_eq mult_le_cancel_left1)
  ultimately have le: "rnd_abs \<bar>q\<bar> \<le> 2 ^ 1000 + 2 ^ 1000 + 1" using err assms by linarith
  have "ulp_exp (rnd_abs \<bar>q\<bar>) \<le> 971"
  proof (cases "0 < rnd_abs \<bar>q\<bar>")
    case True
    have "(1::rat) \<le> 2 ^ 1000" by (rule one_le_power) simp
    moreover have "(2::rat) ^ 1002 = 4 * 2 ^ 1000" by (simp add: power_add [of _ 2 1000, simplified])
    ultimately have "rnd_abs \<bar>q\<bar> < 2 ^ 1002" using le by linarith
    then have "rnd_abs \<bar>q\<bar> < pow2 1002" by (simp add: pow2_def)
    also have "pow2 1002 = 2 ^ 52 * pow2 950" using pow2_add_nat [of 950 52] by simp
    finally have "rnd_abs \<bar>q\<bar> / 2 ^ 52 < pow2 950" by (simp add: field_simps)
    moreover have "pow2 950 \<le> pow2 (ulp_exp (rnd_abs \<bar>q\<bar>))" if "971 < ulp_exp (rnd_abs \<bar>q\<bar>)"
      using that by (intro pow2_mono) simp
    ultimately show ?thesis using ulp_exp_bound [OF True] by force
  next
    case False
    with rnd_abs_nonneg [of "\<bar>q\<bar>"] have "rnd_abs \<bar>q\<bar> = 0" by simp
    then show ?thesis by (simp add: ulp_exp_def bits.simps [of 0] bits.simps [of 1] pow2_def Let_def)
  qed
  then have "rnd q = Fin (if q < 0 then - rnd_abs \<bar>q\<bar> else rnd_abs \<bar>q\<bar>)"
    using False by (simp add: rnd_def Let_def)
  moreover have "\<bar>(if q < 0 then - rnd_abs \<bar>q\<bar> else rnd_abs \<bar>q\<bar>) - q\<bar>
      = \<bar>rnd_abs \<bar>q\<bar> - \<bar>q\<bar>\<bar>" by (simp add: abs_if)
  ultimately show ?thesis using that err by metis
qed

lemma trunc_error: "\<bar>of_int (trunc q) - q\<bar> < 1"
  unfolding trunc_def by (simp only: split: if_split) linarith

end
