(* ===== verification/Profiles.thy ===== *)
theory Profiles
  imports Mch_Ds Doubles
begin

text \<open>
  Motion profiles, \<^verbatim>\<open>libsled/sled_profile.cc\<close>: the table of 99 profiles, their settings, which of
  them still have to be written to the drive, and the upload of a profile and of the profiles it
  continues with. A pointer to a profile is its index in the table. The eight members
  \<^verbatim>\<open>_ob_o_p\<close> to \<^verbatim>\<open>_ob_o_ft\<close> are one function on their names. \<^verbatim>\<open>sled_t\<close> is allocated with
  \<^verbatim>\<open>malloc\<close>: \<^verbatim>\<open>current_profile\<close>, and \<^verbatim>\<open>never_sent\<close> of a profile that was never created, are
  indeterminate (\<open>None\<close>) until the code assigns them.
\<close>

section \<open>Data\<close>

datatype position_type_t = pos_absolute | pos_relative_target | pos_relative_actual

datatype blend_type_t = bln_none | bln_before | bln_after

datatype field_state_t = FIELD_CHANGED | FIELD_WRITING | FIELD_INVALID | FIELD_WRITTEN

datatype profile_field = F_P | F_V | F_C | F_ACC | F_DEC | F_TAB | F_FN | F_FT

record sled_profile_t =
  in_use :: bool
  never_sent :: "bool option"
  profile_no :: int
  table_no :: int
  position_type :: position_type_t
  position :: double
  time :: double
  next_profile :: int
  delay :: double
  blend_type :: blend_type_t
  field_states :: "profile_field \<Rightarrow> field_state_t"

definition MAX_PROFILES :: nat where "MAX_PROFILES = 99"

record profile_env = ds_env +
  profiles :: "sled_profile_t list"
  current_profile :: "int option"

section \<open>Settings of a profile\<close>

fun position_type_bits :: "position_type_t \<Rightarrow> int" where
  "position_type_bits pos_absolute = 0"
| "position_type_bits pos_relative_actual = 0x01 OR 0x04"
| "position_type_bits pos_relative_target = 0x01 OR 0x02"

fun blend_type_bits :: "blend_type_t \<Rightarrow> int" where
  "blend_type_bits bln_none = 0"
| "blend_type_bits bln_before = 0x100 OR 0x10"
| "blend_type_bits bln_after = 0x10"

definition sled_profile_get_controlword :: "sled_profile_t \<Rightarrow> int" where
  "sled_profile_get_controlword p =
     0 OR position_type_bits (position_type p) OR (if next_profile p \<ge> 0 then 0x08 else 0)
       OR blend_type_bits (blend_type p) OR 0x200 OR 0x2000"

definition sled_profile_mark_as_unsaved :: "sled_profile_t \<Rightarrow> sled_profile_t" where
  "sled_profile_mark_as_unsaved p = p\<lparr>field_states := (\<lambda>f. FIELD_CHANGED)\<rparr>"

definition all_fields :: "profile_field list" where
  "all_fields = [F_P, F_V, F_C, F_ACC, F_DEC, F_TAB, F_FN, F_FT]"

definition sled_profile_has_changes_pending :: "sled_profile_t \<Rightarrow> bool" where
  "sled_profile_has_changes_pending p \<longleftrightarrow> list_ex (\<lambda>f. field_states p f = FIELD_CHANGED) all_fields"

fun field_index :: "profile_field \<Rightarrow> u16" where
  "field_index F_P = OB_O_P"
| "field_index F_V = OB_O_V"
| "field_index F_C = OB_O_C"
| "field_index F_ACC = OB_O_ACC"
| "field_index F_DEC = OB_O_DEC"
| "field_index F_TAB = OB_O_TAB"
| "field_index F_FN = OB_O_FN"
| "field_index F_FT = OB_O_FT"

definition field_of_index :: "u16 \<Rightarrow> profile_field option" where
  "field_of_index index = find (\<lambda>f. field_index f = index) all_fields"

definition sled_profile_set_field_state ::
    "sled_profile_t \<Rightarrow> u16 \<Rightarrow> field_state_t \<Rightarrow> sled_profile_t" where
  "sled_profile_set_field_state p index state =
     (case field_of_index index of
        None \<Rightarrow> p
      | Some f \<Rightarrow> p\<lparr>field_states := (field_states p)(f := state)\<rparr>)"

section \<open>Access to the table\<close>

definition get_profile :: "int \<Rightarrow> 'z profile_env_scheme \<Rightarrow> sled_profile_t outcome" where
  "get_profile i w =
     (if 0 \<le> i \<and> nat i < length (profiles w) then Inr (profiles w ! nat i)
      else Inl (Undefined_behaviour Out_of_bounds))"

definition update_profile ::
    "nat \<Rightarrow> (sled_profile_t \<Rightarrow> sled_profile_t) \<Rightarrow> 'z profile_env_scheme \<Rightarrow> 'z profile_env_scheme" where
  "update_profile i f w = w\<lparr>profiles := (profiles w)[i := f (profiles w ! i)]\<rparr>"

text \<open>The guard with which most operations begin: an index of the table, of a profile in use.\<close>

definition profile_handle :: "int \<Rightarrow> 'z profile_env_scheme \<Rightarrow> bool" where
  "profile_handle i w \<longleftrightarrow> 0 \<le> i \<and> i < int MAX_PROFILES \<and> in_use (profiles w ! nat i)"

definition on_success_callback :: "nat \<Rightarrow> u16 \<Rightarrow> u8 \<Rightarrow> 'z profile_env_scheme action" where
  "on_success_callback i index subindex w =
     Inr (update_profile i (\<lambda>p. sled_profile_set_field_state p index FIELD_WRITTEN) w)"

section \<open>Upload\<close>

definition read_determined :: "'a option \<Rightarrow> 'a outcome" where
  "read_determined x =
     (case x of None \<Rightarrow> Inl (Undefined_behaviour Indeterminate_read) | Some v \<Rightarrow> Inr v)"

text \<open>The values of the eight fields; \<open>n\<close> is the drive's number of the next profile.\<close>

definition half_time_ms :: "sled_profile_t \<Rightarrow> int outcome" where
  "half_time_ms p = to_int32 (d_add (d_div_const (d_mul (time p) (Fin 1000)) 2) (Fin (1 / 2)))"

fun field_value :: "int \<Rightarrow> profile_field \<Rightarrow> sled_profile_t \<Rightarrow> int outcome" where
  "field_value n F_P p = to_int32 (d_mul (d_mul (position p) (Fin 1000)) (Fin 1000))"
| "field_value n F_V p = Inr 0"
| "field_value n F_C p = Inr (sled_profile_get_controlword p)"
| "field_value n F_ACC p = half_time_ms p"
| "field_value n F_DEC p =
     bind_outcome (half_time_ms p) (\<lambda>t.
       if int32_range (t - 1) then Inr (t - 1) else Inl (Undefined_behaviour Unrepresentable))"
| "field_value n F_TAB p = Inr (table_no p)"
| "field_value n F_FN p = Inr n"
| "field_value n F_FT p = to_int32 (d_mul (delay p) (Fin 1000))"

definition field_request :: "nat \<Rightarrow> profile_field \<Rightarrow> int \<Rightarrow> sdo_t" where
  "field_request i f v = write_request (field_index f) 0x01 (word_of_int v) 0x04
     (Some On_success_callback) (Some On_failure_callback) (Data_profile i)"

definition write_field_if_changed ::
    "nat \<Rightarrow> profile_field \<Rightarrow> (sled_profile_t \<Rightarrow> int outcome) \<Rightarrow> 'z profile_env_scheme action" where
  "write_field_if_changed i f val w =
     (if field_states (profiles w ! i) f = FIELD_CHANGED
      then let w = update_profile i (\<lambda>p. p\<lparr>field_states := (field_states p)(f := FIELD_WRITING)\<rparr>) w in
        bind_outcome (val (profiles w ! i)) (\<lambda>v. queue_sdo (field_request i f v) w)
      else Inr w)"

definition copy_request :: "int \<Rightarrow> int \<Rightarrow> sdo_t" where
  "copy_request from to = plain_write OB_COPY_MOTION_TASK 0
     ((word_of_int from AND 0xFFFF) OR push_bit 16 (word_of_int to AND 0xFFFF)) 0x04"

definition copy_motion_task :: "int \<Rightarrow> int \<Rightarrow> 'z profile_env_scheme action" where
  "copy_motion_task from to = queue_sdo (copy_request from to)"

definition load_slot :: "nat \<Rightarrow> 'z profile_env_scheme action" where
  "load_slot i w =
     (let p = profiles w ! i in
      bind_outcome (read_determined (never_sent p)) (\<lambda>ns.
        if ns then Inr w
        else bind_outcome (read_determined (current_profile w)) (\<lambda>c.
          if c \<noteq> profile_no p
          then bind_outcome (copy_motion_task (profile_no p) 0 w)
            (\<lambda>w. Inr (w\<lparr>current_profile := Some (profile_no p)\<rparr>))
          else Inr w)))"

definition next_number :: "nat \<Rightarrow> 'z profile_env_scheme \<Rightarrow> int outcome" where
  "next_number i w =
     (let n = next_profile (profiles w ! i) in
      if n \<ge> 0 then bind_outcome (get_profile n w) (\<lambda>q. Inr (profile_no q)) else Inr 0)"

definition upload_profile :: "nat \<Rightarrow> 'z profile_env_scheme action" where
  "upload_profile i =
     run_steps
       [load_slot i,
        run_steps (map (\<lambda>f. write_field_if_changed i f (field_value 0 f))
          [F_P, F_V, F_C, F_ACC, F_DEC, F_TAB]),
        (\<lambda>w. bind_outcome (next_number i w) (\<lambda>n.
          run_steps (map (\<lambda>f. write_field_if_changed i f (field_value n f)) [F_FN, F_FT]) w)),
        (\<lambda>w. copy_motion_task 0 (profile_no (profiles w ! i)) w),
        (\<lambda>w. Inr (update_profile i (\<lambda>p. p\<lparr>never_sent := Some False\<rparr>) w))]"

section \<open>What an upload changes\<close>

lemma queue_sdo_total:
  "queue_sdo sdo w = Inr (if sdo_state_of w = ST_SDO_WAITING
     then send_front (hd (sdo_queue_of w @ [sdo])) (tl (sdo_queue_of w @ [sdo])) (push_sdo sdo w)
     else push_sdo sdo w)"
proof (cases "sdo_state_of w = ST_SDO_WAITING")
  case True
  have "sdo_queue_of (push_sdo sdo w) = hd (sdo_queue_of w @ [sdo]) # tl (sdo_queue_of w @ [sdo])"
    by (cases "sdo_queue_of w") simp_all
  with True show ?thesis by (simp add: queue_sdo_def item_available_waiting)
next
  case False
  then show ?thesis by (simp add: queue_sdo_def item_available_ignored)
qed

lemma queue_sdo_more: "queue_sdo sdo w = Inr w' \<Longrightarrow> sdo_env.more w' = sdo_env.more w"
  by (auto simp: queue_sdo_total split: if_splits)

lemma profile_env_of_sdo_more:
  assumes "sdo_env.more w' = sdo_env.more w"
  shows "profiles w' = profiles w" and "current_profile w' = current_profile w"
    and "mch_mp w' = mch_mp w" and "mch_ds w' = mch_ds w"
    and "profile_env.more w' = profile_env.more w"
  using assms by (cases w; cases w'; simp)+

lemma queue_sdo_profiles: "queue_sdo sdo w = Inr w' \<Longrightarrow> profiles w' = profiles w"
  using profile_env_of_sdo_more queue_sdo_more by blast

lemma update_profile_simps [simp]:
  "profiles (update_profile i f w) = (profiles w)[i := f (profiles w ! i)]"
  "current_profile (update_profile i f w) = current_profile w"
  "mch_sdo (update_profile i f w) = mch_sdo w"
  "mch_mp (update_profile i f w) = mch_mp w"
  "mch_ds (update_profile i f w) = mch_ds w"
  "interface (update_profile i f w) = interface w"
  "sent (update_profile i f w) = sent w"
  "driver (update_profile i f w) = driver w"
  "profile_env.more (update_profile i f w) = profile_env.more w"
  by (simp_all add: update_profile_def)

lemma update_profile_quiet [simp]:
  "sdo_quiet (update_profile i f w) = sdo_quiet w"
  "sdo_backlog (update_profile i f w) = sdo_backlog w"
  by (simp_all add: sdo_quiet_def sdo_backlog_def)

text \<open>The fields of a list, marked as being written.\<close>

definition mark_writing :: "profile_field list \<Rightarrow> sled_profile_t \<Rightarrow> sled_profile_t" where
  "mark_writing fs p = p\<lparr>field_states := (\<lambda>f. if f \<in> set fs \<and> field_states p f = FIELD_CHANGED
     then FIELD_WRITING else field_states p f)\<rparr>"

lemma mark_writing_simps [simp]:
  "in_use (mark_writing fs p) = in_use p" "never_sent (mark_writing fs p) = never_sent p"
  "profile_no (mark_writing fs p) = profile_no p" "table_no (mark_writing fs p) = table_no p"
  "position_type (mark_writing fs p) = position_type p" "position (mark_writing fs p) = position p"
  "time (mark_writing fs p) = time p" "next_profile (mark_writing fs p) = next_profile p"
  "delay (mark_writing fs p) = delay p" "blend_type (mark_writing fs p) = blend_type p"
  "field_states (mark_writing fs p) f =
     (if f \<in> set fs \<and> field_states p f = FIELD_CHANGED then FIELD_WRITING else field_states p f)"
  "mark_writing [] p = p"
  by (simp_all add: mark_writing_def)

lemma mark_writing_append: "mark_writing gs (mark_writing fs p) = mark_writing (fs @ gs) p"
  by (rule sled_profile_t.equality) (auto simp: fun_eq_iff)

lemma field_value_mark [simp]: "field_value n f (mark_writing fs p) = field_value n f p"
  by (cases f) (simp_all add: half_time_ms_def sled_profile_get_controlword_def)

lemma write_field_profiles:
  assumes "write_field_if_changed i f val w = Inr w'" and "i < length (profiles w)"
  shows "profiles w' = (profiles w)[i := mark_writing [f] (profiles w ! i)]"
proof (cases "field_states (profiles w ! i) f = FIELD_CHANGED")
  case True
  let ?w = "update_profile i (\<lambda>p. p\<lparr>field_states := (field_states p)(f := FIELD_WRITING)\<rparr>) w"
  from assms(1) True obtain v where "queue_sdo (field_request i f v) ?w = Inr w'"
    by (auto simp: write_field_if_changed_def Let_def bind_outcome_eq_Inr)
  then have "profiles w' = profiles ?w" by (rule queue_sdo_profiles)
  moreover have "(profiles w ! i)\<lparr>field_states := (field_states (profiles w ! i))(f := FIELD_WRITING)\<rparr>
      = mark_writing [f] (profiles w ! i)"
    using True by (intro sled_profile_t.equality) (auto simp: fun_eq_iff)
  ultimately show ?thesis by simp
next
  case False
  then have "mark_writing [f] (profiles w ! i) = profiles w ! i"
    by (intro sled_profile_t.equality) (auto simp: fun_eq_iff)
  with assms(1) False show ?thesis by (simp add: write_field_if_changed_def)
qed

lemma write_fields_profiles:
  assumes "run_steps (map (\<lambda>f. write_field_if_changed i f (val f)) fs) w = Inr w'"
    and "i < length (profiles w)"
  shows "profiles w' = (profiles w)[i := mark_writing fs (profiles w ! i)]"
  using assms
proof (induction fs arbitrary: w)
  case Nil
  then show ?case by simp
next
  case (Cons f fs)
  then obtain w1 where w1: "write_field_if_changed i f (val f) w = Inr w1"
    and r: "run_steps (map (\<lambda>f. write_field_if_changed i f (val f)) fs) w1 = Inr w'"
    by (auto simp: bind_outcome_eq_Inr)
  note p1 = write_field_profiles [OF w1 Cons.prems(2)]
  with Cons.IH [OF r] Cons.prems(2) show ?case by (simp add: mark_writing_append)
qed

lemma load_slot_cases:
  assumes "load_slot i w = Inr w'"
  obtains "w' = w" "never_sent (profiles w ! i) = Some True"
  | "w' = w" "never_sent (profiles w ! i) = Some False"
      "current_profile w = Some (profile_no (profiles w ! i))"
  | w1 where "queue_sdo (copy_request (profile_no (profiles w ! i)) 0) w = Inr w1"
      "w' = w1\<lparr>current_profile := Some (profile_no (profiles w ! i))\<rparr>"
      "never_sent (profiles w ! i) = Some False"
proof -
  let ?n = "profile_no (profiles w ! i)"
  obtain ns where ns: "never_sent (profiles w ! i) = Some ns"
    using assms by (cases "never_sent (profiles w ! i)") (simp_all add: load_slot_def read_determined_def)
  show ?thesis
  proof (cases "ns \<or> current_profile w = Some ?n")
    case True
    with assms ns have "w' = w" by (auto simp: load_slot_def read_determined_def Let_def split: if_splits)
    with True ns that(1,2) show ?thesis by (cases ns) simp_all
  next
    case False
    with ns assms obtain c where c: "current_profile w = Some c" "c \<noteq> ?n"
      by (cases "current_profile w") (auto simp: load_slot_def read_determined_def Let_def)
    have "bind_outcome (queue_sdo (copy_request ?n 0) w) (\<lambda>v. Inr (v\<lparr>current_profile := Some ?n\<rparr>)) = Inr w'"
      using ns assms False c
      by (simp add: load_slot_def read_determined_def copy_motion_task_def Let_def split: if_split_asm)
    then obtain w1 where w1: "queue_sdo (copy_request ?n 0) w = Inr w1" "w' = w1\<lparr>current_profile := Some ?n\<rparr>"
      unfolding bind_outcome_eq_Inr by blast
    from w1 show ?thesis by (rule that(3)) (use ns False in simp)
  qed
qed

lemma load_slot_profiles:
  assumes "load_slot i w = Inr w'"
  shows "profiles w' = profiles w"
  using assms
proof (rule load_slot_cases)
  fix w1
  assume "queue_sdo (copy_request (profile_no (profiles w ! i)) 0) w = Inr w1"
    and "w' = w1\<lparr>current_profile := Some (profile_no (profiles w ! i))\<rparr>"
  then show ?thesis by (simp add: queue_sdo_profiles)
qed simp_all

definition uploaded :: "sled_profile_t \<Rightarrow> sled_profile_t" where
  "uploaded p = (mark_writing all_fields p)\<lparr>never_sent := Some False\<rparr>"

lemma upload_profiles:
  assumes "upload_profile i w = Inr w'" and "i < length (profiles w)"
  shows "profiles w' = (profiles w)[i := uploaded (profiles w ! i)]"
proof -
  let ?A = "[F_P, F_V, F_C, F_ACC, F_DEC, F_TAB]" and ?B = "[F_FN, F_FT]"
  from assms(1) obtain w1 w2 w3 w4 n where
    1: "load_slot i w = Inr w1" and
    2: "run_steps (map (\<lambda>f. write_field_if_changed i f (field_value 0 f)) ?A) w1 = Inr w2" and
    3: "run_steps (map (\<lambda>f. write_field_if_changed i f (field_value n f)) ?B) w2 = Inr w3" and
    4: "copy_motion_task 0 (profile_no (profiles w3 ! i)) w3 = Inr w4" and
    5: "w' = update_profile i (\<lambda>p. p\<lparr>never_sent := Some False\<rparr>) w4"
    unfolding upload_profile_def
    by (auto simp only: run_steps.simps bind_outcome_eq_Inr bind_outcome_Inr sum.inject)
  from 1 have p1: "profiles w1 = profiles w" by (rule load_slot_profiles)
  from write_fields_profiles [OF 2] assms(2) p1
  have p2: "profiles w2 = (profiles w)[i := mark_writing ?A (profiles w ! i)]" by simp
  from write_fields_profiles [OF 3] assms(2) p2
  have p3: "profiles w3 = (profiles w)[i := mark_writing all_fields (profiles w ! i)]"
    by (simp add: mark_writing_append all_fields_def)
  from 4 have "profiles w4 = profiles w3"
    unfolding copy_motion_task_def by (rule queue_sdo_profiles)
  with 5 p3 assms(2) show ?thesis by (simp add: uploaded_def)
qed

lemma all_fields_complete [simp]: "f \<in> set all_fields"
  by (cases f) (simp_all add: all_fields_def)

lemma has_changes_pending_iff:
  "sled_profile_has_changes_pending p \<longleftrightarrow> (\<exists>f. field_states p f = FIELD_CHANGED)"
  by (auto simp: sled_profile_has_changes_pending_def list_ex_iff)

lemma uploaded_not_pending [simp]: "\<not> sled_profile_has_changes_pending (uploaded p)"
  by (simp add: has_changes_pending_iff uploaded_def)

section \<open>Upload of a profile and its successors\<close>

definition num_pending :: "sled_profile_t list \<Rightarrow> nat" where
  "num_pending ps = length (filter sled_profile_has_changes_pending ps)"

lemma num_pending_upload:
  assumes "i < length ps" and "sled_profile_has_changes_pending (ps ! i)"
  shows "num_pending (ps[i := uploaded (ps ! i)]) < num_pending ps"
proof -
  have split: "ps = take i ps @ (ps ! i) # drop (Suc i) ps" using assms(1) by (rule id_take_nth_drop)
  have "num_pending (ps[i := uploaded (ps ! i)])
      = num_pending (take i ps) + num_pending (drop (Suc i) ps)"
    using assms(1) by (simp add: num_pending_def upd_conv_take_nth_drop)
  moreover have "num_pending ps = num_pending (take i ps) + Suc (num_pending (drop (Suc i) ps))"
    using assms(2) by (subst split) (simp add: num_pending_def)
  ultimately show ?thesis by simp
qed

text \<open>The \<^verbatim>\<open>int\<close> it returns is always 0 and is left out.\<close>

function sled_profile_write_pending_changes :: "int \<Rightarrow> 'z profile_env_scheme action" where
  "sled_profile_write_pending_changes profile_id w =
     bind_outcome (get_profile profile_id w) (\<lambda>p.
       if \<not> sled_profile_has_changes_pending p then Inr w
       else bind_outcome (upload_profile (nat profile_id) w) (\<lambda>w.
         if next_profile p \<ge> 0
         then sled_profile_write_pending_changes (next_profile p) w
         else Inr w))"
  by pat_completeness auto
termination
proof (relation "measure (\<lambda>(i, w). num_pending (profiles w))", simp)
  fix profile_id :: int and w :: "'z profile_env_scheme" and p w'
  assume g: "get_profile profile_id w = Inr p" and "\<not> \<not> sled_profile_has_changes_pending p"
    and u: "upload_profile (nat profile_id) w = Inr w'"
  then have i: "nat profile_id < length (profiles w)" and p: "p = profiles w ! nat profile_id"
    and pend: "sled_profile_has_changes_pending (profiles w ! nat profile_id)"
    by (auto simp: get_profile_def split: if_splits)
  from num_pending_upload [OF i pend] upload_profiles [OF u i]
  show "((next_profile p, w'), profile_id, w) \<in> measure (\<lambda>(i, w). num_pending (profiles w))"
    by simp
qed

declare sled_profile_write_pending_changes.simps [simp del]

section \<open>Operations on the table\<close>

definition cleared_profile :: "int \<Rightarrow> bool \<Rightarrow> sled_profile_t \<Rightarrow> sled_profile_t" where
  "cleared_profile profile used p = sled_profile_mark_as_unsaved
     (p\<lparr>profile_no := 201 + profile, in_use := used, table_no := 2, position_type := pos_absolute,
        position := Fin 0, time := Fin 1, next_profile := - 1, delay := Fin 0,
        blend_type := bln_none\<rparr>)"

definition sled_profile_clear ::
    "int \<Rightarrow> bool \<Rightarrow> 'z profile_env_scheme \<Rightarrow> 'z profile_env_scheme" where
  "sled_profile_clear profile used w =
     (if profile < 0 \<or> profile \<ge> int MAX_PROFILES then w
      else update_profile (nat profile) (cleared_profile profile used) w)"

definition sled_profiles_reset :: "'z profile_env_scheme \<Rightarrow> 'z profile_env_scheme" where
  "sled_profiles_reset w =
     w\<lparr>profiles := map (\<lambda>p. if in_use p then sled_profile_mark_as_unsaved p else p) (profiles w)\<rparr>"

fun free_profile :: "sled_profile_t list \<Rightarrow> nat option" where
  "free_profile [] = None"
| "free_profile (p # ps) = (if \<not> in_use p then Some 0 else map_option Suc (free_profile ps))"

definition sled_profile_create :: "'z profile_env_scheme \<Rightarrow> int \<times> 'z profile_env_scheme" where
  "sled_profile_create w =
     (case free_profile (profiles w) of
        None \<Rightarrow> (- 1, w)
      | Some i \<Rightarrow> (int i, update_profile i (\<lambda>p. p\<lparr>in_use := True, never_sent := Some True\<rparr>)
          (sled_profile_clear (int i) True w)))"

definition sled_profile_create_pt ::
    "double \<Rightarrow> double \<Rightarrow> 'z profile_env_scheme \<Rightarrow> int \<times> 'z profile_env_scheme" where
  "sled_profile_create_pt pos t w =
     (let (profile, w) = sled_profile_create w in
      if profile = - 1 then (- 1, w)
      else (profile, update_profile (nat profile) (\<lambda>p. p\<lparr>position := pos, time := t\<rparr>) w))"

definition sled_profile_destroy :: "int \<Rightarrow> 'z profile_env_scheme \<Rightarrow> int \<times> 'z profile_env_scheme" where
  "sled_profile_destroy profile w =
     (if \<not> profile_handle profile w then (- 1, w)
      else (0, update_profile (nat profile) (\<lambda>p. p\<lparr>in_use := False\<rparr>) w))"

definition mark_changed :: "profile_field list \<Rightarrow> sled_profile_t \<Rightarrow> sled_profile_t" where
  "mark_changed fs p = p\<lparr>field_states := (\<lambda>f. if f \<in> set fs then FIELD_CHANGED else field_states p f)\<rparr>"

definition with_table :: "int \<Rightarrow> sled_profile_t \<Rightarrow> sled_profile_t" where
  "with_table tab p =
     (if table_no p \<noteq> tab then mark_changed [F_TAB] (p\<lparr>table_no := tab\<rparr>) else p)"

definition sled_profile_set_table ::
    "int \<Rightarrow> int \<Rightarrow> 'z profile_env_scheme \<Rightarrow> int \<times> 'z profile_env_scheme" where
  "sled_profile_set_table profile tab w =
     (if \<not> profile_handle profile w then (- 1, w)
      else (0, update_profile (nat profile) (with_table tab) w))"

definition with_position_type :: "position_type_t \<Rightarrow> sled_profile_t \<Rightarrow> sled_profile_t" where
  "with_position_type type p =
     (if position_type p \<noteq> type then mark_changed [F_C] p\<lparr>position_type := type\<rparr> else p)"

definition with_position :: "double \<Rightarrow> sled_profile_t \<Rightarrow> sled_profile_t" where
  "with_position pos p =
     (if d_neq (position p) pos then mark_changed [F_P] p\<lparr>position := pos\<rparr> else p)"

definition with_time :: "double \<Rightarrow> sled_profile_t \<Rightarrow> sled_profile_t" where
  "with_time t p =
     (if d_neq (time p) t then mark_changed [F_ACC, F_DEC] p\<lparr>time := t\<rparr> else p)"

definition sled_profile_set_target ::
    "int \<Rightarrow> position_type_t \<Rightarrow> double \<Rightarrow> double \<Rightarrow> 'z profile_env_scheme
      \<Rightarrow> int \<times> 'z profile_env_scheme" where
  "sled_profile_set_target profile type pos t w =
     (if \<not> profile_handle profile w then (- 1, w)
      else (0, update_profile (nat profile)
        (\<lambda>p. with_time t (with_position pos (with_position_type type p))) w))"

definition with_next :: "int \<Rightarrow> sled_profile_t \<Rightarrow> sled_profile_t" where
  "with_next n p =
     (if next_profile p \<noteq> n then mark_changed [F_C, F_FN] p\<lparr>next_profile := n\<rparr> else p)"

definition with_delay :: "double \<Rightarrow> sled_profile_t \<Rightarrow> sled_profile_t" where
  "with_delay d p =
     (if d_neq (delay p) d then mark_changed [F_C, F_FT] p\<lparr>delay := d\<rparr> else p)"

definition with_blend :: "blend_type_t \<Rightarrow> sled_profile_t \<Rightarrow> sled_profile_t" where
  "with_blend b p =
     (if blend_type p \<noteq> b then mark_changed [F_C] p\<lparr>blend_type := b\<rparr> else p)"

definition sled_profile_set_next ::
    "int \<Rightarrow> int \<Rightarrow> double \<Rightarrow> blend_type_t \<Rightarrow> 'z profile_env_scheme
      \<Rightarrow> int \<times> 'z profile_env_scheme" where
  "sled_profile_set_next profile n d b w =
     (if \<not> profile_handle profile w then (- 1, w)
      else (0, update_profile (nat profile) (\<lambda>p. with_blend b (with_delay d (with_next n p))) w))"

definition sled_profile_execute ::
    "int \<Rightarrow> 'z profile_env_scheme \<Rightarrow> (int \<times> 'z profile_env_scheme) outcome" where
  "sled_profile_execute profile w =
     (if \<not> profile_handle profile w then Inr (- 1, w)
      else if mp_state_of w \<noteq> ST_MP_PP_IDLE then Inr (- 1, w)
      else bind_outcome
        (run_steps
          [sled_profile_write_pending_changes profile,
           (\<lambda>w. mch_sdo_queue_write OB_MOTION_TASK 0x00
              (word_of_int (profile_no (profiles w ! nat profile))) 0x02 w),
           mch_sdo_queue_write OB_CONTROL_WORD 0x00 (0x1F OR 0x20) 0x02,
           mch_mp_handle_event EV_MP_SETPOINT_SET] w)
        (\<lambda>w. Inr (0, w)))"

end
