(* ===== verification/Parser.thy ===== *)
theory Parser
  imports Profiles Rtc3d_Frame
begin

text \<open>
  The command language, \<^verbatim>\<open>src/scanner.lex\<close> and \<^verbatim>\<open>src/parser.yac\<close>: the scanner that Flex makes from its
  rules (longest match, then the first rule; a character no rule matches is echoed and skipped) and
  the parser that Bison makes from the grammar, which asks for one token after the other. The
  grammar has no recursion, so that the parser is a decision tree on the tokens.
\<close>

section \<open>Single precision\<close>

text \<open>\<^verbatim>\<open>float\<close>, IEEE 754 binary32: 24 binary digits, the last one counting at least 2^-149.\<close>

definition ulp_exp32 :: "rat \<Rightarrow> int" where
  "ulp_exp32 q =
     (let (n, d) = quotient_of q;
          e = bits n - bits d;
          e' = (if q < pow2 e then e - 1 else e)
      in max (e' - 23) (- 149))"

definition rnd32 :: "rat \<Rightarrow> double" where
  "rnd32 q =
     (if q = 0 then Fin 0
      else let e = ulp_exp32 \<bar>q\<bar>; a = of_int (round_even (\<bar>q\<bar> / pow2 e)) * pow2 e in
        if 104 < ulp_exp32 a then Inf (q < 0) else Fin (if q < 0 then - a else a))"

fun to_float :: "double \<Rightarrow> double" where
  "to_float (Fin q) = rnd32 q"
| "to_float (Inf s) = Inf s"
| "to_float NaN = NaN"

section \<open>Tokens\<close>

datatype token =
    COLON | SETBYTEORDER | BIGENDIAN | LITTLEENDIAN | SENDCURRENTFRAME | SENDSTATUS | STREAMFRAMES
  | FREQUENCYDIVISOR | STOP | PROFILE | SET | EXECUTE | TABLE | NEXT | AFTER | BLEND | BEFORE
  | SINUSOID | RSINUSOID | START | LIGHTS | ON | OFF | BYE | HOME | CLEARFAULT | SETINTERNALSTATUS
  | PREOPERATIONAL | OPERATIONAL | OUTPUTENABLED | SENDINTERNALSTATUS
  | POSTYPE position_type_t | INT_TOKEN int | FLOAT double | STRING

definition ascii :: "string \<Rightarrow> u8 list" where
  "ascii s = map of_char s"

definition is_digit :: "u8 \<Rightarrow> bool" where
  "is_digit c \<longleftrightarrow> 48 \<le> c \<and> c \<le> 57"

definition is_alpha :: "u8 \<Rightarrow> bool" where
  "is_alpha c \<longleftrightarrow> 65 \<le> c \<and> c \<le> 90 \<or> 97 \<le> c \<and> c \<le> 122"

definition is_alnum :: "u8 \<Rightarrow> bool" where
  "is_alnum c \<longleftrightarrow> is_alpha c \<or> is_digit c"

definition to_lower :: "u8 \<Rightarrow> u8" where
  "to_lower c = (if 65 \<le> c \<and> c \<le> 90 then c + 32 else c)"

definition keywords_table :: "(u8 list \<times> token) list" where
  "keywords_table =
     [(ascii ''abs'', POSTYPE pos_absolute),
      (ascii ''reltgt'', POSTYPE pos_relative_target),
      (ascii ''relact'', POSTYPE pos_relative_actual),
      (ascii ''frequencydivisor'', FREQUENCYDIVISOR),
      (ascii ''setbyteorder'', SETBYTEORDER),
      (ascii ''bigendian'', BIGENDIAN),
      (ascii ''littleendian'', LITTLEENDIAN),
      (ascii ''sendcurrentframe'', SENDCURRENTFRAME),
      (ascii ''streamframes'', STREAMFRAMES),
      (ascii ''stop'', STOP),
      (ascii ''profile'', PROFILE),
      (ascii ''set'', SET),
      (ascii ''execute'', EXECUTE),
      (ascii ''table'', TABLE),
      (ascii ''next'', NEXT),
      (ascii ''after'', AFTER),
      (ascii ''blend'', BLEND),
      (ascii ''before'', BEFORE),
      (ascii ''sinusoid'', SINUSOID),
      (ascii ''rsinusoid'', RSINUSOID),
      (ascii ''start'', START),
      (ascii ''lights'', LIGHTS),
      (ascii ''on'', ON),
      (ascii ''off'', OFF),
      (ascii ''bye'', BYE),
      (ascii ''home'', HOME),
      (ascii ''clearfault'', CLEARFAULT),
      (ascii ''setinternalstatus'', SETINTERNALSTATUS),
      (ascii ''preoperational'', PREOPERATIONAL),
      (ascii ''operational'', OPERATIONAL),
      (ascii ''outputenabled'', OUTPUTENABLED),
      (ascii ''sendinternalstatus'', SENDINTERNALSTATUS)]"

text \<open>A word is a keyword, in any case of its letters, or a \<^verbatim>\<open>STRING\<close>.\<close>

definition word_token :: "u8 list \<Rightarrow> token" where
  "word_token s = (case map_of keywords_table (map to_lower s) of Some t \<Rightarrow> t | None \<Rightarrow> STRING)"

text \<open>The value of a sequence of digits.\<close>

definition digits_value :: "u8 list \<Rightarrow> int" where
  "digits_value ds = foldl (\<lambda>n d. 10 * n + (uint d - 48)) 0 ds"

definition signed :: "bool \<Rightarrow> 'a::uminus \<Rightarrow> 'a" where
  "signed neg x = (if neg then - x else x)"

text \<open>\<^verbatim>\<open>atoi\<close>, whose behaviour is undefined outside the range of \<^verbatim>\<open>int\<close>, and \<^verbatim>\<open>atof\<close>, made a \<^verbatim>\<open>float\<close>.\<close>

definition atoi :: "bool \<Rightarrow> u8 list \<Rightarrow> int outcome" where
  "atoi neg ds =
     (let n = signed neg (digits_value ds) in
      if int32_range n then Inr n else Inl (Undefined_behaviour Unrepresentable))"

definition atof :: "bool \<Rightarrow> u8 list \<Rightarrow> u8 list \<Rightarrow> double" where
  "atof neg ds fs = rnd (signed neg (of_int (digits_value (ds @ fs)) / 10 ^ length fs))"

text \<open>
  The two number rules, \<^verbatim>\<open>-?[0-9]*\.[0-9]+\<close> and \<^verbatim>\<open>-?[0-9]+\<close>, at the start of \<open>s\<close>: the longer match.
\<close>

definition number_token :: "u8 list \<Rightarrow> (token outcome \<times> u8 list) option" where
  "number_token s =
     (let neg = (case s of c # _ \<Rightarrow> c = 45 | [] \<Rightarrow> False);
          body = (if neg then tl s else s);
          ds = takeWhile is_digit body; rest = dropWhile is_digit body;
          fs = (case rest of c # cs \<Rightarrow> if c = 46 then takeWhile is_digit cs else [] | [] \<Rightarrow> []) in
      if fs \<noteq> [] then Some (Inr (FLOAT (to_float (atof neg ds fs))), drop (Suc (length fs)) rest)
      else if ds \<noteq> [] then Some (bind_outcome (atoi neg ds) (\<lambda>n. Inr (INT_TOKEN n)), rest)
      else None)"

text \<open>\<^verbatim>\<open>yylex\<close>: the next token, \<open>None\<close> at the end, and the rest of the text.\<close>

fun yylex :: "u8 list \<Rightarrow> (token option \<times> u8 list) outcome" where
  "yylex [] = Inr (None, [])"
| "yylex (c # cs) =
     (if is_alpha c
      then Inr (Some (word_token (c # takeWhile is_alnum cs)), dropWhile is_alnum cs)
      else if c = 58 then Inr (Some COLON, cs)
      else case number_token (c # cs) of
        Some (r, rest) \<Rightarrow> bind_outcome r (\<lambda>t. Inr (Some t, rest))
      | None \<Rightarrow> yylex cs)"

section \<open>Commands\<close>

datatype command_type_t =
    cmd_setbyteorder | cmd_sendcurrentframe | cmd_sendstatus | cmd_streamframes | cmd_profile_execute
  | cmd_profile_set | cmd_sinusoid | cmd_rsinusoid | cmd_lights | cmd_bye | cmd_home | cmd_clearfault
  | cmd_setinternalstatus | cmd_sendinternalstatus

datatype status_t = sta_off | sta_preoperational | sta_operational | sta_outputenabled

text \<open>A variable of type \<^verbatim>\<open>command_t\<close> without initialiser: a field is \<open>None\<close> until it is assigned.\<close>

record command_t =
  cmd_type :: "command_type_t option"
  cmd_boolean :: "bool option"
  cmd_byte_order :: "byte_order_t option"
  cmd_status :: "status_t option"
  cmd_amplitude :: "double option"
  cmd_period :: "double option"
  cmd_profile :: "int option"
  cmd_table :: "int option"
  cmd_position_type :: "position_type_t option"
  cmd_position :: "double option"
  cmd_time :: "double option"
  cmd_next_profile :: "int option"
  cmd_next_delay :: "double option"
  cmd_blend_type :: "blend_type_t option"

definition unset_command :: command_t where
  "unset_command =
     \<lparr>cmd_type = None, cmd_boolean = None, cmd_byte_order = None, cmd_status = None,
      cmd_amplitude = None, cmd_period = None, cmd_profile = None, cmd_table = None,
      cmd_position_type = None, cmd_position = None, cmd_time = None, cmd_next_profile = None,
      cmd_next_delay = None, cmd_blend_type = None\<rparr>"

section \<open>The grammar\<close>

text \<open>The result: \<open>None\<close> for a syntax error, or the command. First the pieces that several rules share.\<close>

type_synonym parse = "u8 list \<Rightarrow> command_t option outcome"

definition shift :: "(token option \<Rightarrow> parse) \<Rightarrow> parse" where
  "shift k s = bind_outcome (yylex s) (\<lambda>(t, rest). k t rest)"

definition syntax_error :: parse where
  "syntax_error s = Inr None"

definition accept :: "command_t \<Rightarrow> token option \<Rightarrow> parse" where
  "accept c t s = (if t = None then Inr (Some c) else syntax_error s)"

definition finish :: "command_t \<Rightarrow> parse" where
  "finish c = shift (accept c)"

definition parse_number :: "(double \<Rightarrow> parse) \<Rightarrow> parse" where
  "parse_number k = shift (\<lambda>t. case t of
     Some (INT_TOKEN n) \<Rightarrow> k (rnd32 (of_int n)) | Some (FLOAT x) \<Rightarrow> k x | _ \<Rightarrow> syntax_error)"

definition parse_int :: "(int \<Rightarrow> parse) \<Rightarrow> parse" where
  "parse_int k = shift (\<lambda>t. case t of Some (INT_TOKEN n) \<Rightarrow> k n | _ \<Rightarrow> syntax_error)"

definition parse_byteorder :: "command_t \<Rightarrow> parse" where
  "parse_byteorder c = shift (\<lambda>t. case t of
     Some BIGENDIAN \<Rightarrow> finish (c\<lparr>cmd_type := Some cmd_setbyteorder, cmd_byte_order := Some byo_big_endian\<rparr>)
   | Some LITTLEENDIAN \<Rightarrow> finish (c\<lparr>cmd_type := Some cmd_setbyteorder, cmd_byte_order := Some byo_little_endian\<rparr>)
   | _ \<Rightarrow> syntax_error)"

text \<open>What may follow \<^verbatim>\<open>profile_def_base next_part\<close>, and the end of it after \<^verbatim>\<open>BLEND\<close>.\<close>

definition parse_blend :: "command_t \<Rightarrow> parse" where
  "parse_blend c = shift (\<lambda>t. case t of
     Some BEFORE \<Rightarrow> finish (c\<lparr>cmd_blend_type := Some bln_before\<rparr>)
   | Some AFTER \<Rightarrow> finish (c\<lparr>cmd_blend_type := Some bln_after\<rparr>)
   | _ \<Rightarrow> syntax_error)"

definition parse_after_next :: "command_t \<Rightarrow> parse" where
  "parse_after_next c = shift (\<lambda>t. case t of
     None \<Rightarrow> accept (c\<lparr>cmd_blend_type := Some bln_none\<rparr>) None
   | Some AFTER \<Rightarrow> parse_number (\<lambda>d.
       let c = c\<lparr>cmd_next_delay := Some d\<rparr> in
       shift (\<lambda>t. case t of
         Some BLEND \<Rightarrow> parse_blend c
       | t \<Rightarrow> accept (c\<lparr>cmd_blend_type := Some bln_none\<rparr>) t))
   | Some BLEND \<Rightarrow> parse_blend (c\<lparr>cmd_next_delay := Some (Fin 0)\<rparr>)
   | _ \<Rightarrow> syntax_error)"

definition parse_profile_def :: "command_t \<Rightarrow> parse" where
  "parse_profile_def c = shift (\<lambda>t. case t of
     Some TABLE \<Rightarrow> parse_int (\<lambda>tab. shift (\<lambda>t. case t of
       Some (POSTYPE p) \<Rightarrow> parse_number (\<lambda>pos. parse_number (\<lambda>tm.
         let c = c\<lparr>cmd_type := Some cmd_profile_set, cmd_table := Some tab, cmd_position_type := Some p,
                   cmd_position := Some pos, cmd_time := Some tm\<rparr> in
         shift (\<lambda>t. case t of
           Some NEXT \<Rightarrow> parse_int (\<lambda>n. parse_after_next (c\<lparr>cmd_next_profile := Some n\<rparr>))
         | t \<Rightarrow> accept (c\<lparr>cmd_next_profile := Some (- 1)\<rparr>) t)))
     | _ \<Rightarrow> syntax_error))
   | _ \<Rightarrow> syntax_error)"

definition parse_profile :: "command_t \<Rightarrow> parse" where
  "parse_profile c = parse_int (\<lambda>n.
     let c = c\<lparr>cmd_profile := Some n\<rparr> in
     shift (\<lambda>t. case t of
       Some EXECUTE \<Rightarrow> finish (c\<lparr>cmd_type := Some cmd_profile_execute\<rparr>)
     | Some SET \<Rightarrow> parse_profile_def c
     | _ \<Rightarrow> syntax_error))"

definition parse_streamframes :: "command_t \<Rightarrow> parse" where
  "parse_streamframes c = (let c = c\<lparr>cmd_type := Some cmd_streamframes\<rparr> in
     shift (\<lambda>t. case t of
       Some FREQUENCYDIVISOR \<Rightarrow> shift (\<lambda>t. case t of
         Some COLON \<Rightarrow> parse_int (\<lambda>_. finish (c\<lparr>cmd_boolean := Some True\<rparr>))
       | _ \<Rightarrow> syntax_error)
     | Some STOP \<Rightarrow> finish (c\<lparr>cmd_boolean := Some False\<rparr>)
     | t \<Rightarrow> accept (c\<lparr>cmd_boolean := Some True\<rparr>) t))"

definition parse_start_stop :: "command_type_t \<Rightarrow> command_t \<Rightarrow> parse" where
  "parse_start_stop type c = (let c = c\<lparr>cmd_type := Some type\<rparr> in
     shift (\<lambda>t. case t of
       Some START \<Rightarrow> parse_number (\<lambda>a. parse_number (\<lambda>p.
         finish (c\<lparr>cmd_boolean := Some True, cmd_amplitude := Some a, cmd_period := Some p\<rparr>)))
     | Some STOP \<Rightarrow> finish (c\<lparr>cmd_boolean := Some False\<rparr>)
     | _ \<Rightarrow> syntax_error))"

definition parse_lights :: "command_t \<Rightarrow> parse" where
  "parse_lights c = (let c = c\<lparr>cmd_type := Some cmd_lights\<rparr> in
     shift (\<lambda>t. case t of
       Some ON \<Rightarrow> finish (c\<lparr>cmd_boolean := Some True\<rparr>)
     | Some OFF \<Rightarrow> finish (c\<lparr>cmd_boolean := Some False\<rparr>)
     | _ \<Rightarrow> syntax_error))"

text \<open>
  \<^verbatim>\<open>SETINTERNALSTATUS error\<close>: when the text ends here, the parser recovers, reduces the rule, whose
  action assigns nothing, and accepts. Any other token remains the look-ahead, and the parser gives
  up when it cannot shift it after the reduction.
\<close>

definition parse_setinternalstatus :: "command_t \<Rightarrow> parse" where
  "parse_setinternalstatus c = shift (\<lambda>t.
     let set_to = (\<lambda>st. finish (c\<lparr>cmd_type := Some cmd_setinternalstatus, cmd_status := Some st\<rparr>)) in
     case t of
       Some OFF \<Rightarrow> set_to sta_off
     | Some PREOPERATIONAL \<Rightarrow> set_to sta_preoperational
     | Some OPERATIONAL \<Rightarrow> set_to sta_operational
     | Some OUTPUTENABLED \<Rightarrow> set_to sta_outputenabled
     | t \<Rightarrow> accept c t)"

definition yyparse :: "command_t \<Rightarrow> parse" where
  "yyparse c = shift (\<lambda>t. case t of
     Some SETBYTEORDER \<Rightarrow> parse_byteorder c
   | Some SENDCURRENTFRAME \<Rightarrow> finish (c\<lparr>cmd_type := Some cmd_sendcurrentframe\<rparr>)
   | Some SENDSTATUS \<Rightarrow> finish (c\<lparr>cmd_type := Some cmd_sendstatus\<rparr>)
   | Some STREAMFRAMES \<Rightarrow> parse_streamframes c
   | Some PROFILE \<Rightarrow> parse_profile c
   | Some SINUSOID \<Rightarrow> parse_start_stop cmd_sinusoid c
   | Some RSINUSOID \<Rightarrow> parse_start_stop cmd_rsinusoid c
   | Some LIGHTS \<Rightarrow> parse_lights c
   | Some BYE \<Rightarrow> finish (c\<lparr>cmd_type := Some cmd_bye\<rparr>)
   | Some HOME \<Rightarrow> finish (c\<lparr>cmd_type := Some cmd_home\<rparr>)
   | Some CLEARFAULT \<Rightarrow> finish (c\<lparr>cmd_type := Some cmd_clearfault\<rparr>)
   | Some SETINTERNALSTATUS \<Rightarrow> parse_setinternalstatus c
   | Some SENDINTERNALSTATUS \<Rightarrow> finish (c\<lparr>cmd_type := Some cmd_sendinternalstatus\<rparr>)
   | _ \<Rightarrow> syntax_error)"

text \<open>\<open>None\<close>: -1 is returned. The parser and the command are never NULL.\<close>

definition parser_parse_string :: "u8 list \<Rightarrow> command_t option outcome" where
  "parser_parse_string s = yyparse unset_command s"

end
