(* ===== verification/Profile_Sync.thy ===== *)
theory Profile_Sync
  imports Profiles
begin

text \<open>
  The purpose of \<^verbatim>\<open>libsled/sled_profile.cc\<close>: the drive's motion tasks agree with the table. The
  drive is specified abstractly, by what the requests that the code sends it mean: task 0 is the
  working set of registers that the objects \<^verbatim>\<open>O_P\<close> to \<^verbatim>\<open>O_FT\<close> write, and
  \<^verbatim>\<open>OB_COPY_MOTION_TASK\<close> copies one task to another, as the comments of
  \<^verbatim>\<open>sled_profile_write_pending_changes\<close> say. The frames are decoded from their bytes.
\<close>

section \<open>The motion tasks of the drive\<close>

type_synonym task_memory = "nat \<Rightarrow> profile_field \<Rightarrow> u32"

definition apply_frame :: "task_memory \<Rightarrow> can_message_t \<Rightarrow> task_memory" where
  "apply_frame m c =
     (let index = frame_index (msg_data c); v = frame_value (msg_data c) in
      case field_of_index index of
        Some f \<Rightarrow> m(0 := (m 0)(f := v))
      | None \<Rightarrow>
          if index = OB_COPY_MOTION_TASK
          then m(unat (drop_bit 16 v) := m (unat (v AND 0xFFFF)))
          else m)"

text \<open>The tasks once the drive has processed the whole backlog, starting from \<open>m0\<close>.\<close>

definition tasks :: "task_memory \<Rightarrow> 'z sdo_env_scheme \<Rightarrow> task_memory" where
  "tasks m0 w = foldl apply_frame m0 (sdo_backlog w)"

lemma field_of_field_index [simp]: "field_of_index (field_index f) = Some f"
  by (cases f) (simp_all add: field_of_index_def all_fields_def OB_O_P_def OB_O_V_def OB_O_C_def
      OB_O_ACC_def OB_O_DEC_def OB_O_TAB_def OB_O_FN_def OB_O_FT_def)

lemma field_of_copy [simp]: "field_of_index OB_COPY_MOTION_TASK = None"
  by (simp add: field_of_index_def all_fields_def OB_O_P_def OB_O_V_def OB_O_C_def
      OB_O_ACC_def OB_O_DEC_def OB_O_TAB_def OB_O_FN_def OB_O_FT_def OB_COPY_MOTION_TASK_def)

lemma frame_write_request [simp]:
  "frame_index (msg_data (sdo_frame (write_request index subindex val sz wcb acb dat))) = index"
  "frame_value (msg_data (sdo_frame (write_request index subindex val sz wcb acb dat))) = val"
  by (simp_all add: sdo_frame_def write_request_def write_req_frame_bytes frame_index_def
      frame_value_def)

lemma apply_field_request [simp]:
  "apply_frame m (sdo_frame (field_request i f v)) = m(0 := (m 0)(f := word_of_int v))"
  by (simp add: apply_frame_def field_request_def)

lemma copy_value:
  fixes a b :: u32
  assumes "unat a < 2 ^ 16" and "unat b < 2 ^ 16"
  shows "((a AND 0xFFFF) OR push_bit 16 (b AND 0xFFFF)) AND 0xFFFF = a"
    and "drop_bit 16 ((a AND 0xFFFF) OR push_bit 16 (b AND 0xFFFF)) = b"
proof -
  have m: "(0xFFFF :: u32) = mask 16" by (simp add: mask_eq_exp_minus_1)
  have small: "n < 16" if "unat x < 2 ^ 16" "bit x n" for x :: u32 and n
  proof (rule ccontr)
    assume "\<not> n < 16"
    from that(1) have "take_bit 16 (unat x) = unat x" by (rule take_bit_nat_eq_self)
    with \<open>\<not> n < 16\<close> have "\<not> bit (unat x) n" by (metis bit_take_bit_iff)
    with that(2) show False by (simp add: bit_unsigned_iff)
  qed
  show "((a AND 0xFFFF) OR push_bit 16 (b AND 0xFFFF)) AND 0xFFFF = a"
    unfolding m by (rule bit_word_eqI) (auto simp: bit_simps dest: small [OF assms(1)])
  show "drop_bit 16 ((a AND 0xFFFF) OR push_bit 16 (b AND 0xFFFF)) = b"
    unfolding m by (rule bit_word_eqI) (auto simp: bit_simps dest: small [OF assms(2)])
qed

lemma apply_copy_request:
  assumes "0 \<le> a" "a < 2 ^ 16" "0 \<le> b" "b < 2 ^ 16"
  shows "apply_frame m (sdo_frame (copy_request a b)) = m(nat b := m (nat a))"
proof -
  have u: "unat (word_of_int x :: u32) = nat x" if "0 \<le> x" "x < 2 ^ 16" for x
    using that by (simp add: unat_eq_nat_uint uint_word_of_int_eq take_bit_int_eq_self)
  have lt: "unat (word_of_int x :: u32) < 2 ^ 16" if "0 \<le> x" "x < 2 ^ 16" for x
    using u [OF that] that by (simp add: nat_less_iff)
  show ?thesis
    using copy_value [OF lt [OF assms(1,2)] lt [OF assms(3,4)]] u [OF assms(1,2)] u [OF assms(3,4)]
    by (simp add: apply_frame_def copy_request_def plain_write_def)
qed

section \<open>The requests of one upload\<close>

text \<open>What an action of this component may do besides changing the table.\<close>

definition prof_ext :: "'z profile_env_scheme \<Rightarrow> sdo_t list \<Rightarrow> 'z profile_env_scheme \<Rightarrow> bool" where
  "prof_ext w rs w' \<longleftrightarrow> sdo_quiet w' \<and> sdo_backlog w' = sdo_backlog w @ map sdo_frame rs
     \<and> mch_mp w' = mch_mp w \<and> mch_ds w' = mch_ds w \<and> driver w' = driver w
     \<and> profile_env.more w' = profile_env.more w"

lemma prof_ext_refl: "sdo_quiet w \<Longrightarrow> prof_ext w [] w"
  by (simp add: prof_ext_def)

lemma prof_ext_trans: "prof_ext w rs w1 \<Longrightarrow> prof_ext w1 rs' w2 \<Longrightarrow> prof_ext w (rs @ rs') w2"
  by (simp add: prof_ext_def)

lemma prof_ext_quiet: "prof_ext w rs w' \<Longrightarrow> sdo_quiet w'"
  by (simp add: prof_ext_def)

lemma prof_ext_tasks:
  "prof_ext w rs w' \<Longrightarrow> tasks m0 w' = foldl apply_frame (tasks m0 w) (map sdo_frame rs)"
  by (simp add: prof_ext_def tasks_def)

lemma queue_sdo_prof_ext:
  assumes "sdo_quiet w"
  obtains w' where "queue_sdo r w = Inr w'" "prof_ext w [r] w'" "profiles w' = profiles w"
    "current_profile w' = current_profile w"
proof -
  from queue_sdo_ext [OF assms] obtain w' where w': "queue_sdo r w = Inr w'"
    and x: "sdo_ext w [sdo_frame r] w'" by blast
  note e = sdo_extD [OF x]
  note m = profile_env_of_sdo_more [OF e(3)]
  have "prof_ext w [r] w'" unfolding prof_ext_def by (simp add: e m)
  with w' m(1,2) show ?thesis by (intro that)
qed

lemma update_profile_ext: "prof_ext (update_profile i f w) rs w' \<longleftrightarrow> prof_ext w rs w'"
  by (simp add: prof_ext_def)

lemma ext_update_profile: "prof_ext w rs (update_profile i f w') \<longleftrightarrow> prof_ext w rs w'"
  by (simp add: prof_ext_def)

definition field_requests ::
    "nat \<Rightarrow> (profile_field \<Rightarrow> int) \<Rightarrow> sled_profile_t \<Rightarrow> profile_field list \<Rightarrow> sdo_t list" where
  "field_requests i v p fs =
     map (\<lambda>f. field_request i f (v f)) (filter (\<lambda>f. field_states p f = FIELD_CHANGED) fs)"

lemma write_field_ext:
  assumes "sdo_quiet w" and "i < length (profiles w)" and "val (mark_writing [f] (profiles w ! i)) = Inr (v f)"
  obtains w' where "write_field_if_changed i f val w = Inr w'"
    "prof_ext w (field_requests i v (profiles w ! i) [f]) w'"
    "current_profile w' = current_profile w"
proof (cases "field_states (profiles w ! i) f = FIELD_CHANGED")
  case True
  let ?w = "update_profile i (\<lambda>p. p\<lparr>field_states := (field_states p)(f := FIELD_WRITING)\<rparr>) w"
  have "profiles ?w ! i = mark_writing [f] (profiles w ! i)"
    using True assms(2) by (intro sled_profile_t.equality) (auto simp: fun_eq_iff)
  with assms(3) have v: "val (profiles ?w ! i) = Inr (v f)" by simp
  have "sdo_quiet ?w" using assms(1) by simp
  then obtain w' where w': "queue_sdo (field_request i f (v f)) ?w = Inr w'"
    "prof_ext ?w [field_request i f (v f)] w'" "current_profile w' = current_profile ?w"
    by (rule queue_sdo_prof_ext)
  from True v w'(1) have "write_field_if_changed i f val w = Inr w'"
    by (simp add: write_field_if_changed_def)
  moreover from w'(2) True have "prof_ext w (field_requests i v (profiles w ! i) [f]) w'"
    by (simp add: update_profile_ext field_requests_def)
  ultimately show ?thesis using w'(3) by (intro that [of w']) simp_all
next
  case False
  with assms(1) that [of w] show ?thesis
    by (simp add: write_field_if_changed_def field_requests_def prof_ext_refl)
qed

lemma field_requests_Cons:
  "field_requests i v p (f # fs) = field_requests i v p [f] @ field_requests i v p fs"
  by (simp add: field_requests_def)

lemma field_requests_append:
  "field_requests i v p (fs @ gs) = field_requests i v p fs @ field_requests i v p gs"
  by (simp add: field_requests_def)

lemma field_requests_mark:
  "g \<notin> set fs \<Longrightarrow> field_requests i v (mark_writing [g] p) fs = field_requests i v p fs"
  unfolding field_requests_def by (intro arg_cong [where f = "map _"] filter_cong) auto

lemma write_fields_ext:
  assumes "sdo_quiet w" and "i < length (profiles w)" and "distinct fs"
    and "\<And>f. f \<in> set fs \<Longrightarrow> field_value n f (profiles w ! i) = Inr (v f)"
  shows "\<exists>w'. run_steps (map (\<lambda>f. write_field_if_changed i f (field_value n f)) fs) w = Inr w'
    \<and> prof_ext w (field_requests i v (profiles w ! i) fs) w'
    \<and> current_profile w' = current_profile w"
  using assms
proof (induction fs arbitrary: w)
  case Nil
  then show ?case by (simp add: field_requests_def prof_ext_refl)
next
  case (Cons f fs)
  from Cons.prems(4) have "field_value n f (mark_writing [f] (profiles w ! i)) = Inr (v f)" by simp
  from write_field_ext [where val = "field_value n f" and v = v and f = f, OF Cons.prems(1,2) this] obtain w1 where
    w1: "write_field_if_changed i f (field_value n f) w = Inr w1"
      "prof_ext w (field_requests i v (profiles w ! i) [f]) w1"
      "current_profile w1 = current_profile w" by blast
  note p1 = write_field_profiles [OF w1(1) Cons.prems(2)]
  have len: "i < length (profiles w1)" using Cons.prems(2) by (simp add: p1)
  have pi: "profiles w1 ! i = mark_writing [f] (profiles w ! i)" using Cons.prems(2) by (simp add: p1)
  have "\<exists>w'. run_steps (map (\<lambda>f. write_field_if_changed i f (field_value n f)) fs) w1 = Inr w'
      \<and> prof_ext w1 (field_requests i v (profiles w1 ! i) fs) w'
      \<and> current_profile w' = current_profile w1"
    using Cons.prems(3,4) by (intro Cons.IH [OF prof_ext_quiet [OF w1(2)] len]) (simp_all add: pi)
  then obtain w' where
    w': "run_steps (map (\<lambda>f. write_field_if_changed i f (field_value n f)) fs) w1 = Inr w'"
      "prof_ext w1 (field_requests i v (profiles w1 ! i) fs) w'"
      "current_profile w' = current_profile w1" by blast
  have "field_requests i v (profiles w1 ! i) fs = field_requests i v (profiles w ! i) fs"
    using Cons.prems(3) by (simp add: pi field_requests_mark)
  with prof_ext_trans [OF w1(2) w'(2)]
  have "prof_ext w (field_requests i v (profiles w ! i) (f # fs)) w'"
    by (simp add: field_requests_Cons [of i v _ f fs])
  with w' w1 show ?case by simp
qed

definition load_requests :: "sled_profile_t \<Rightarrow> int option \<Rightarrow> sdo_t list" where
  "load_requests p c =
     (if never_sent p = Some False \<and> c \<noteq> Some (profile_no p) then [copy_request (profile_no p) 0]
      else [])"

lemma load_slot_ext:
  assumes "sdo_quiet w" and "never_sent (profiles w ! i) = Some ns" and "ns \<or> current_profile w \<noteq> None"
  obtains w' where "load_slot i w = Inr w'"
    "prof_ext w (load_requests (profiles w ! i) (current_profile w)) w'"
    "profiles w' = profiles w"
    "current_profile w' = (if ns then current_profile w else Some (profile_no (profiles w ! i)))"
proof (cases "ns \<or> current_profile w = Some (profile_no (profiles w ! i))")
  case True
  with assms(2) have "load_slot i w = Inr w"
    by (cases ns) (auto simp: load_slot_def read_determined_def)
  moreover from True assms(1,2)
  have "prof_ext w (load_requests (profiles w ! i) (current_profile w)) w"
    by (auto simp: load_requests_def prof_ext_refl)
  ultimately show ?thesis using True that [of w] by (cases ns) simp_all
next
  case False
  let ?p = "profiles w ! i"
  from assms(1) obtain w1 where w1: "queue_sdo (copy_request (profile_no ?p) 0) w = Inr w1"
    "prof_ext w [copy_request (profile_no ?p) 0] w1" "profiles w1 = profiles w"
    by (rule queue_sdo_prof_ext)
  let ?w = "w1\<lparr>current_profile := Some (profile_no ?p)\<rparr>"
  from False assms(3) obtain c where c: "current_profile w = Some c" "c \<noteq> profile_no ?p" by auto
  with False assms(2) w1(1) have "load_slot i w = Inr ?w"
    by (simp add: load_slot_def read_determined_def copy_motion_task_def Let_def)
  moreover from w1(2) have "prof_ext w [copy_request (profile_no ?p) 0] ?w"
    by (simp add: prof_ext_def sdo_quiet_def sdo_backlog_def)
  moreover from False assms(2) c
  have "load_requests ?p (current_profile w) = [copy_request (profile_no ?p) 0]"
    by (simp add: load_requests_def)
  ultimately show ?thesis using that [of ?w] w1(3) False by simp
qed

definition upload_requests ::
    "nat \<Rightarrow> (profile_field \<Rightarrow> int) \<Rightarrow> sled_profile_t \<Rightarrow> int option \<Rightarrow> sdo_t list" where
  "upload_requests i v p c = load_requests p c @ field_requests i v p all_fields
     @ [copy_request 0 (profile_no p)]"

lemma field_value_0: "f \<noteq> F_FN \<Longrightarrow> field_value n f p = field_value 0 f p"
  by (cases f) simp_all

lemma next_number_cong:
  assumes "profiles w' = (profiles w)[i := mark_writing fs (profiles w ! i)]"
  shows "next_number i w' = next_number i w"
proof (cases "i < length (profiles w)")
  case True
  then show ?thesis
    using assms by (auto simp: next_number_def get_profile_def Let_def nth_list_update)
next
  case False
  with assms have "profiles w' = profiles w" by (simp add: list_update_beyond)
  then show ?thesis by (simp add: next_number_def get_profile_def Let_def)
qed

lemma upload_ext:
  assumes "sdo_quiet w" and i: "i < length (profiles w)"
    and ns: "never_sent (profiles w ! i) = Some ns" and "ns \<or> current_profile w \<noteq> None"
    and n: "next_number i w = Inr n" and v: "\<And>f. field_value n f (profiles w ! i) = Inr (v f)"
  obtains w' where "upload_profile i w = Inr w'"
    "prof_ext w (upload_requests i v (profiles w ! i) (current_profile w)) w'"
    "current_profile w' = (if ns then current_profile w else Some (profile_no (profiles w ! i)))"
proof -
  let ?p = "profiles w ! i" and ?A = "[F_P, F_V, F_C, F_ACC, F_DEC, F_TAB]" and ?B = "[F_FN, F_FT]"
  from load_slot_ext [OF assms(1) ns assms(4)] obtain w1 where
    1: "load_slot i w = Inr w1" "prof_ext w (load_requests ?p (current_profile w)) w1"
      "profiles w1 = profiles w"
      "current_profile w1 = (if ns then current_profile w else Some (profile_no ?p))" .
  have va: "field_value 0 f (profiles w1 ! i) = Inr (v f)" if "f \<in> set ?A" for f
    using v [of f] that 1(3) by (subst field_value_0 [of f n, symmetric]) auto
  from write_fields_ext [OF prof_ext_quiet [OF 1(2)], of i ?A 0 v] i 1(3) va obtain w2 where
    2: "run_steps (map (\<lambda>f. write_field_if_changed i f (field_value 0 f)) ?A) w1 = Inr w2"
      "prof_ext w1 (field_requests i v (profiles w1 ! i) ?A) w2"
      "current_profile w2 = current_profile w1" by force
  from write_fields_profiles [OF 2(1)] i 1(3)
  have p2: "profiles w2 = (profiles w)[i := mark_writing ?A ?p]" by simp
  then have n2: "next_number i w2 = Inr n" using n by (simp only: next_number_cong [OF p2])
  have vb: "field_value n f (profiles w2 ! i) = Inr (v f)" for f using v i by (simp add: p2)
  from write_fields_ext [OF prof_ext_quiet [OF 2(2)], of i ?B n v] i p2 vb obtain w3 where
    3: "run_steps (map (\<lambda>f. write_field_if_changed i f (field_value n f)) ?B) w2 = Inr w3"
      "prof_ext w2 (field_requests i v (profiles w2 ! i) ?B) w3"
      "current_profile w3 = current_profile w2" by force
  from write_fields_profiles [OF 3(1)] i p2 have no: "profile_no (profiles w3 ! i) = profile_no ?p"
    by simp
  from prof_ext_quiet [OF 3(2)] obtain w4 where
    4: "queue_sdo (copy_request 0 (profile_no ?p)) w3 = Inr w4"
      "prof_ext w3 [copy_request 0 (profile_no ?p)] w4" "current_profile w4 = current_profile w3"
    by (rule queue_sdo_prof_ext)
  let ?w = "update_profile i (\<lambda>p. p\<lparr>never_sent := Some False\<rparr>) w4"
  have "upload_profile i w = Inr ?w"
    unfolding upload_profile_def
    by (simp only: run_steps.simps 1(1) 2(1) n2 3(1) bind_outcome_simps copy_motion_task_def no 4(1))
  moreover have "field_requests i v (profiles w2 ! i) ?B = field_requests i v ?p ?B"
    using i by (simp add: p2 field_requests_def)
  then have "prof_ext w (upload_requests i v ?p (current_profile w)) ?w"
    using prof_ext_trans [OF prof_ext_trans [OF prof_ext_trans [OF 1(2) 2(2)] 3(2)] 4(2)] 1(3)
    by (simp add: ext_update_profile upload_requests_def all_fields_def
        field_requests_append [of i v _ ?A ?B, simplified])
  ultimately show ?thesis using that [of ?w] 1(4) 2(3) 3(3) 4(3) by simp
qed

section \<open>Agreement of table and drive\<close>

definition merged ::
    "(profile_field \<Rightarrow> int) \<Rightarrow> sled_profile_t \<Rightarrow> (profile_field \<Rightarrow> u32) \<Rightarrow> profile_field \<Rightarrow> u32" where
  "merged v p base f =
     (if field_states p f = FIELD_CHANGED then word_of_int (v f) else base f)"

lemma field_requests_memory:
  "foldl apply_frame m (map sdo_frame (field_requests i v p fs))
   = m(0 := (\<lambda>f. if f \<in> set fs then merged v p (m 0) f else m 0 f))"
proof (induction fs arbitrary: m)
  case Nil
  then show ?case by (simp add: field_requests_def)
next
  case (Cons g fs)
  let ?m = "if field_states p g = FIELD_CHANGED then m(0 := (m 0)(g := word_of_int (v g))) else m"
  have "foldl apply_frame m (map sdo_frame (field_requests i v p (g # fs)))
      = foldl apply_frame ?m (map sdo_frame (field_requests i v p fs))"
    by (simp add: field_requests_def)
  also have "\<dots> = m(0 := (\<lambda>f. if f \<in> set (g # fs) then merged v p (m 0) f else m 0 f))"
    unfolding Cons.IH by (auto simp: fun_eq_iff merged_def)
  finally show ?case .
qed

lemma upload_memory:
  assumes "0 \<le> profile_no p" and "profile_no p < 2 ^ 16"
  shows "foldl apply_frame m (map sdo_frame (upload_requests i v p c)) =
    (let base = (if never_sent p = Some False \<and> c \<noteq> Some (profile_no p)
                 then m (nat (profile_no p)) else m 0)
     in m(0 := merged v p base, nat (profile_no p) := merged v p base))"
  using assms
  by (simp add: upload_requests_def load_requests_def apply_copy_request field_requests_memory
      Let_def)

definition table_ok :: "'z profile_env_scheme \<Rightarrow> bool" where
  "table_ok w \<longleftrightarrow> length (profiles w) = MAX_PROFILES
     \<and> (\<forall>i < MAX_PROFILES. profile_no (profiles w ! i) = 201 + int i)"

definition desired :: "'z profile_env_scheme \<Rightarrow> nat \<Rightarrow> profile_field \<Rightarrow> int outcome" where
  "desired w i f = (if f = F_FN then next_number i w else field_value 0 f (profiles w ! i))"

definition agrees :: "task_memory \<Rightarrow> 'z profile_env_scheme \<Rightarrow> nat \<Rightarrow> bool" where
  "agrees m0 w i \<longleftrightarrow> (\<forall>f v. field_states (profiles w ! i) f \<noteq> FIELD_CHANGED \<longrightarrow>
     desired w i f = Inr v \<longrightarrow> tasks m0 w (201 + i) f = word_of_int v)"

abbreviation pending :: "'z profile_env_scheme \<Rightarrow> nat \<Rightarrow> bool" where
  "pending w i \<equiv> sled_profile_has_changes_pending (profiles w ! i)"

text \<open>A set of profiles that contains their successors, and whose settings can be converted.\<close>

definition chain_ok :: "nat set \<Rightarrow> 'z profile_env_scheme \<Rightarrow> bool" where
  "chain_ok R w \<longleftrightarrow> (\<forall>i \<in> R. i < MAX_PROFILES
     \<and> (next_profile (profiles w ! i) < 0 \<or> nat (next_profile (profiles w ! i)) \<in> R)
     \<and> (\<forall>f. \<exists>v. desired w i f = Inr v))"

text \<open>
  Either every profile of the set that has changes is known to the drive, and task 0 holds the
  profile that \<^verbatim>\<open>current_profile\<close> names; or every profile with changes is new to the drive.
\<close>

definition sent_mode :: "task_memory \<Rightarrow> nat set \<Rightarrow> 'z profile_env_scheme \<Rightarrow> bool" where
  "sent_mode m0 R w \<longleftrightarrow> current_profile w \<noteq> None
     \<and> (\<forall>i \<in> R. pending w i \<longrightarrow> never_sent (profiles w ! i) = Some False)
     \<and> (\<forall>i \<in> R. current_profile w = Some (201 + int i) \<longrightarrow> tasks m0 w 0 = tasks m0 w (201 + i))"

definition fresh_mode :: "nat set \<Rightarrow> 'z profile_env_scheme \<Rightarrow> bool" where
  "fresh_mode R w \<longleftrightarrow> (\<forall>i \<in> R. pending w i \<longrightarrow> never_sent (profiles w ! i) = Some True
     \<and> (\<forall>f. field_states (profiles w ! i) f = FIELD_CHANGED))"

definition upload_inv :: "task_memory \<Rightarrow> nat set \<Rightarrow> 'z profile_env_scheme \<Rightarrow> bool" where
  "upload_inv m0 R w \<longleftrightarrow> sdo_quiet w \<and> table_ok w \<and> chain_ok R w \<and> (\<forall>i \<in> R. agrees m0 w i)
     \<and> (sent_mode m0 R w \<or> fresh_mode R w)"

lemma uploaded_simps [simp]:
  "in_use (uploaded p) = in_use p" "never_sent (uploaded p) = Some False"
  "profile_no (uploaded p) = profile_no p" "next_profile (uploaded p) = next_profile p"
  "field_value n f (uploaded p) = field_value n f p"
  by (simp_all add: uploaded_def)
    (cases f; simp add: half_time_ms_def sled_profile_get_controlword_def)

lemma desired_upload:
  assumes "profiles w' = (profiles w)[i := uploaded (profiles w ! i)]" and "i < length (profiles w)"
  shows "desired w' j f = desired w j f"
proof -
  have "next_profile (profiles w' ! k) = next_profile (profiles w ! k)"
    and "profile_no (profiles w' ! k) = profile_no (profiles w ! k)"
    and "field_value n g (profiles w' ! k) = field_value n g (profiles w ! k)" for k n g
    using assms by (cases "k = i"; simp)+
  moreover have "length (profiles w') = length (profiles w)" using assms(1) by simp
  ultimately show ?thesis by (simp add: desired_def next_number_def get_profile_def Let_def)
qed

text \<open>The upload of one profile with changes.\<close>

text \<open>The task on which the changed fields of a profile are merged, and the tasks after its upload.\<close>

definition upload_base :: "task_memory \<Rightarrow> 'z profile_env_scheme \<Rightarrow> nat \<Rightarrow> profile_field \<Rightarrow> u32" where
  "upload_base m0 w i =
     (if never_sent (profiles w ! i) = Some False \<and> current_profile w \<noteq> Some (201 + int i)
      then tasks m0 w (201 + i) else tasks m0 w 0)"

lemma upload_tasks:
  assumes "prof_ext w (upload_requests i v (profiles w ! i) (current_profile w)) w'" and "table_ok w" and "i < MAX_PROFILES"
  shows "tasks m0 w' = (tasks m0 w)(0 := merged v (profiles w ! i) (upload_base m0 w i),
    201 + i := merged v (profiles w ! i) (upload_base m0 w i))"
proof -
  have "profile_no (profiles w ! i) = 201 + int i" using assms(2,3) by (simp add: table_ok_def)
  with prof_ext_tasks [OF assms(1), of m0] assms(3) show ?thesis
    by (simp add: upload_memory upload_base_def Let_def MAX_PROFILES_def nat_add_distrib)
qed

lemma upload_run:
  assumes inv: "upload_inv m0 R w" and iR: "i \<in> R" and pend: "pending w i"
  obtains w' rs v ns where "upload_profile i w = Inr w'" "prof_ext w rs w'"
    "\<And>f. desired w i f = Inr (v f)" "never_sent (profiles w ! i) = Some ns"
    "current_profile w' = (if ns then current_profile w else Some (201 + int i))"
    "tasks m0 w' = (tasks m0 w)(0 := \<lambda>f. word_of_int (v f), 201 + i := \<lambda>f. word_of_int (v f))"
proof -
  let ?p = "profiles w ! i"
  from inv have q: "sdo_quiet w" and t: "table_ok w" and c: "chain_ok R w"
    and ag: "agrees m0 w i" and mode: "sent_mode m0 R w \<or> fresh_mode R w"
    using iR by (simp_all add: upload_inv_def)
  from c iR have i: "i < MAX_PROFILES" and def: "\<And>f. \<exists>v. desired w i f = Inr v"
    by (auto simp: chain_ok_def)
  from t i have len: "i < length (profiles w)" and no: "profile_no ?p = 201 + int i"
    by (simp_all add: table_ok_def)
  from def obtain v where v': "\<And>f. desired w i f = Inr (v f)" by metis
  have n: "next_number i w = Inr (v F_FN)" using v' [of F_FN] by (simp add: desired_def)
  have v: "field_value (v F_FN) f ?p = Inr (v f)" for f
    using v' [of f] field_value_0 [of f "v F_FN" ?p] by (cases "f = F_FN") (simp_all add: desired_def)
  obtain ns where ns: "never_sent ?p = Some ns" "ns \<or> current_profile w \<noteq> None"
    using mode iR pend by (auto simp: sent_mode_def fresh_mode_def)
  from upload_ext [OF q len ns n v] obtain w' where
    w': "upload_profile i w = Inr w'" "prof_ext w (upload_requests i v ?p (current_profile w)) w'"
      "current_profile w' = (if ns then current_profile w else Some (201 + int i))"
    unfolding no .
  have "merged v ?p (upload_base m0 w i) f = word_of_int (v f)" for f
  proof (cases "field_states ?p f = FIELD_CHANGED")
    case True
    then show ?thesis by (simp add: merged_def)
  next
    case False
    with mode iR pend have s: "sent_mode m0 R w" by (auto simp: fresh_mode_def)
    with iR pend no have "upload_base m0 w i = tasks m0 w (201 + i)"
      by (auto simp: sent_mode_def upload_base_def)
    with False ag v' show ?thesis by (simp add: merged_def agrees_def)
  qed
  then have "merged v ?p (upload_base m0 w i) = (\<lambda>f. word_of_int (v f))" by (rule ext)
  with upload_tasks [OF w'(2) t i, of m0] w' v' ns(1) that show ?thesis by simp
qed

lemma upload_step:
  assumes inv: "upload_inv m0 R w" and iR: "i \<in> R" and pend: "pending w i"
  obtains w' rs where "upload_profile i w = Inr w'" "prof_ext w rs w'"
    "profiles w' = (profiles w)[i := uploaded (profiles w ! i)]" "upload_inv m0 R w'"
    "\<And>k. k \<noteq> 0 \<Longrightarrow> k \<noteq> 201 + i \<Longrightarrow> tasks m0 w' k = tasks m0 w k"
proof -
  from inv have t: "table_ok w" and c: "chain_ok R w"
    and ag: "\<And>i. i \<in> R \<Longrightarrow> agrees m0 w i" and mode: "sent_mode m0 R w \<or> fresh_mode R w"
    by (simp_all add: upload_inv_def)
  from c t iR have len: "i < length (profiles w)" by (auto simp: chain_ok_def table_ok_def)
  from upload_run [OF assms] obtain w' rs v ns where w': "upload_profile i w = Inr w'" "prof_ext w rs w'"
    and v: "\<And>f. desired w i f = Inr (v f)" and ns: "never_sent (profiles w ! i) = Some ns"
    and cur: "current_profile w' = (if ns then current_profile w else Some (201 + int i))"
    and tw: "tasks m0 w' = (tasks m0 w)(0 := \<lambda>f. word_of_int (v f), 201 + i := \<lambda>f. word_of_int (v f))" by blast
  note pw = upload_profiles [OF w'(1) len]
  have des: "desired w' j f = desired w j f" for j f by (rule desired_upload [OF pw len])
  have pj: "profiles w' ! j = (if j = i then uploaded (profiles w ! i) else profiles w ! j)" for j
    using len by (simp add: pw nth_list_update)
  have "agrees m0 w' j" if "j \<in> R" for j
    using ag [OF that] v by (cases "j = i") (simp_all add: agrees_def des tw pj)
  moreover have "table_ok w'" using t by (simp add: table_ok_def pj) (simp add: pw)
  moreover have "chain_ok R w'" using c by (simp add: chain_ok_def des pj)
  moreover have "sent_mode m0 R w' \<or> fresh_mode R w'"
  proof (rule disjE [OF mode])
    assume s: "sent_mode m0 R w"
    with iR pend ns have "\<not> ns" by (simp add: sent_mode_def)
    with s cur have "sent_mode m0 R w'" by (auto simp: sent_mode_def pj tw)
    then show ?thesis ..
  next
    assume "fresh_mode R w"
    then have "fresh_mode R w'" by (simp add: fresh_mode_def pj)
    then show ?thesis ..
  qed
  ultimately have "upload_inv m0 R w'"
    using prof_ext_quiet [OF w'(2)] by (simp add: upload_inv_def)
  with w' pw show ?thesis by (rule that) (simp add: tw)
qed

text \<open>
  The profiles that an upload of profile \<open>i\<close> reaches: the upload sends the changes of \<open>i\<close> and goes
  on with its successor, but stops at the first profile that has no changes of its own.
\<close>

inductive reached :: "'z profile_env_scheme \<Rightarrow> nat \<Rightarrow> nat \<Rightarrow> bool" for w where
  reached_refl: "reached w i i"
| reached_next: "pending w i \<Longrightarrow> 0 \<le> next_profile (profiles w ! i) \<Longrightarrow>
    reached w (nat (next_profile (profiles w ! i))) j \<Longrightarrow> reached w i j"

lemma reached_stop: "reached w i j \<Longrightarrow> \<not> pending w i \<Longrightarrow> j = i"
  by (auto elim: reached.cases)

lemma reached_in: "reached w i j \<Longrightarrow> chain_ok R w \<Longrightarrow> i \<in> R \<Longrightarrow> j \<in> R"
  by (induction rule: reached.induct) (auto simp: chain_ok_def)

text \<open>One profile uploaded: what was reached through it is reached from its successor.\<close>

lemma reached_upload:
  assumes "profiles w1 = (profiles w)[i := uploaded (profiles w ! i)]" and "i < length (profiles w)"
    and "reached w a j"
  shows "j = i \<or> reached w1 a j
    \<or> 0 \<le> next_profile (profiles w ! i) \<and> reached w1 (nat (next_profile (profiles w ! i))) j"
  using assms(3)
proof induction
  case (reached_refl a)
  then show ?case by (simp add: reached.reached_refl)
next
  case (reached_next a j)
  show ?case
  proof (cases "a = i")
    case True
    with reached_next show ?thesis by auto
  next
    case False
    with assms(1,2) have "profiles w1 ! a = profiles w ! a" by simp
    with reached_next reached.reached_next [of w1 a j] show ?thesis by auto
  qed
qed

lemma upload_reached:
  assumes "profiles w1 = (profiles w)[i := uploaded (profiles w ! i)]" and "i < length (profiles w)"
    and "reached w1 a j"
  shows "reached w a j"
  using assms(3)
proof induction
  case (reached_refl a)
  show ?case by (rule reached.reached_refl)
next
  case (reached_next a j)
  then have "a \<noteq> i" using assms(1,2) by auto
  with assms(1,2) have "profiles w1 ! a = profiles w ! a" by simp
  with reached_next show ?case by (auto intro: reached.reached_next)
qed

text \<open>The upload of a profile and of what it reaches, and nothing else.\<close>

definition reach_sent :: "task_memory \<Rightarrow> 'z profile_env_scheme \<Rightarrow> nat \<Rightarrow> 'z profile_env_scheme \<Rightarrow> bool" where
  "reach_sent m0 w i w' \<longleftrightarrow> (\<forall>j. reached w i j \<longrightarrow> \<not> pending w' j)
     \<and> (\<forall>j. \<not> (reached w i j \<and> pending w j) \<longrightarrow> profiles w' ! j = profiles w ! j)
     \<and> (\<forall>k. k \<noteq> 0 \<longrightarrow> (\<forall>j. reached w i j \<longrightarrow> pending w j \<longrightarrow> k \<noteq> 201 + j) \<longrightarrow>
          tasks m0 w' k = tasks m0 w k)"

lemma reach_sent_none: "\<not> pending w i \<Longrightarrow> reach_sent m0 w i w"
  by (auto simp: reach_sent_def dest: reached_stop)

lemma reach_sent_last:
  assumes "pending w i" "next_profile (profiles w ! i) < 0" "i < length (profiles w)"
    and "profiles w1 = (profiles w)[i := uploaded (profiles w ! i)]"
    and "\<And>k. k \<noteq> 0 \<Longrightarrow> k \<noteq> 201 + i \<Longrightarrow> tasks m0 w1 k = tasks m0 w k"
  shows "reach_sent m0 w i w1"
proof -
  have "reached w i j \<longleftrightarrow> j = i" for j using assms(2) by (auto elim: reached.cases intro: reached_refl)
  with assms show ?thesis by (auto simp: reach_sent_def)
qed

lemma reach_sent_step:
  assumes "pending w i" "0 \<le> next_profile (profiles w ! i)" "i < length (profiles w)"
    and w1: "profiles w1 = (profiles w)[i := uploaded (profiles w ! i)]"
    and "\<And>k. k \<noteq> 0 \<Longrightarrow> k \<noteq> 201 + i \<Longrightarrow> tasks m0 w1 k = tasks m0 w k"
    and "reach_sent m0 w1 (nat (next_profile (profiles w ! i))) w2"
    and "\<And>j. \<not> pending w1 j \<Longrightarrow> \<not> pending w2 j"
  shows "reach_sent m0 w i w2"
proof -
  let ?n = "nat (next_profile (profiles w ! i))"
  have i1: "\<not> pending w1 i" using assms(3) by (simp add: w1)
  have p1: "profiles w1 ! j = profiles w ! j" if "j \<noteq> i" for j using that by (simp add: w1)
  have fwd: "j = i \<or> reached w1 ?n j" if "reached w i j" for j
    using that reached_upload [OF w1 assms(3)] reached_stop [of w1 i j] i1 by blast
  have bwd: "reached w i j" if "reached w1 ?n j" for j
    using upload_reached [OF w1 assms(3) that] assms(1,2) by (rule_tac reached_next)
  have self: "reached w i i" by (rule reached_refl)
  have "\<not> pending w2 j" if "reached w i j" for j
    using fwd [OF that] assms(6,7) i1 by (auto simp: reach_sent_def)
  moreover have "profiles w2 ! j = profiles w ! j" if "\<not> (reached w i j \<and> pending w j)" for j
  proof -
    from that assms(1) self have "j \<noteq> i" by auto
    with that bwd assms(6) show ?thesis by (auto simp: reach_sent_def p1)
  qed
  moreover have "tasks m0 w2 k = tasks m0 w k"
    if k: "k \<noteq> 0" "\<forall>j. reached w i j \<longrightarrow> pending w j \<longrightarrow> k \<noteq> 201 + j" for k
  proof -
    have "k \<noteq> 201 + j" if "reached w1 ?n j" "pending w1 j" for j
      using k(2) bwd [OF that(1)] that(2) i1 p1 [of j] by (cases "j = i") auto
    with assms(6) k(1) have "tasks m0 w2 k = tasks m0 w1 k" by (auto simp: reach_sent_def)
    with assms(1,5) self k show ?thesis by simp
  qed
  ultimately show ?thesis by (simp add: reach_sent_def)
qed

lemma write_pending_inv:
  assumes "upload_inv m0 R w" and "0 \<le> i" and "nat i \<in> R"
  shows "\<exists>w' rs. sled_profile_write_pending_changes i w = Inr w' \<and> upload_inv m0 R w'
    \<and> prof_ext w rs w' \<and> \<not> pending w' (nat i)
    \<and> (\<forall>j. \<not> pending w j \<longrightarrow> \<not> pending w' j)
    \<and> (\<forall>j. desired w' j = desired w j)
    \<and> reach_sent m0 w (nat i) w'"
  using assms
proof (induction "num_pending (profiles w)" arbitrary: i w rule: less_induct)
  case less
  let ?i = "nat i" and ?p = "profiles w ! nat i"
  from less.prems have q: "sdo_quiet w" and t: "table_ok w" and c: "chain_ok R w"
    by (simp_all add: upload_inv_def)
  from c less.prems(3) have "?i < MAX_PROFILES" by (simp add: chain_ok_def)
  with t less.prems(2) have len: "?i < length (profiles w)" and g: "get_profile i w = Inr ?p"
    by (simp_all add: table_ok_def get_profile_def)
  show ?case
  proof (cases "pending w ?i")
    case False
    with g less.prems(1) show ?thesis
      by (simp add: sled_profile_write_pending_changes.simps [of i w] prof_ext_refl [OF q]
          exI [of _ "[]"] reach_sent_none)
  next
    case True
    from upload_step [OF less.prems(1,3) True] obtain w1 rs where
      w1: "upload_profile ?i w = Inr w1" "prof_ext w rs w1"
        "profiles w1 = (profiles w)[?i := uploaded ?p]" "upload_inv m0 R w1"
        "\<And>k. k \<noteq> 0 \<Longrightarrow> k \<noteq> 201 + ?i \<Longrightarrow> tasks m0 w1 k = tasks m0 w k" by blast
    have np: "\<not> pending w1 ?i" using len by (simp add: w1(3))
    have keep: "\<not> pending w j \<Longrightarrow> \<not> pending w1 j" for j using len by (simp add: w1(3) nth_list_update)
    have des: "desired w1 j = desired w j" for j
      by (rule ext) (rule desired_upload [OF w1(3) len])
    show ?thesis
    proof (cases "next_profile ?p \<ge> 0")
      case nx: True
      with c less.prems(3) have nR: "nat (next_profile ?p) \<in> R" by (auto simp: chain_ok_def)
      have "num_pending (profiles w1) < num_pending (profiles w)"
        unfolding w1(3) by (rule num_pending_upload [OF len True])
      from less.hyps [OF this w1(4) nx nR] obtain w2 rs' where
        w2: "sled_profile_write_pending_changes (next_profile ?p) w1 = Inr w2" "upload_inv m0 R w2"
          "prof_ext w1 rs' w2"
          "\<forall>j. \<not> pending w1 j \<longrightarrow> \<not> pending w2 j" "\<forall>j. desired w2 j = desired w1 j"
          "reach_sent m0 w1 (nat (next_profile ?p)) w2" by blast
      have "sled_profile_write_pending_changes i w = Inr w2"
        using g True w1(1) nx w2(1) by (simp add: sled_profile_write_pending_changes.simps [of i w])
      moreover have "prof_ext w (rs @ rs') w2" by (rule prof_ext_trans [OF w1(2) w2(3)])
      moreover have "reach_sent m0 w ?i w2"
        using w2(4) by (intro reach_sent_step [OF True nx len w1(3,5) w2(6)]) auto
      ultimately show ?thesis using w2 np keep des by metis
    next
      case False
      have "sled_profile_write_pending_changes i w = Inr w1"
        using g True w1(1) False by (simp add: sled_profile_write_pending_changes.simps [of i w])
      moreover have "reach_sent m0 w ?i w1"
        using False by (intro reach_sent_last [OF True _ len w1(3,5)]) auto
      ultimately show ?thesis using False w1(2,4) np keep des by metis
    qed
  qed
qed


end
