(* ===== verification/Mch_Net.thy ===== *)
theory Mch_Net
  imports Profile_Sync
begin

text \<open>
  The network machine, \<^verbatim>\<open>libsled/machines/mch_net.cc\<close>, with the callbacks that
  \<^verbatim>\<open>libsled/sled.cc\<close> registers with it. It follows the drive's NMT state, uploads the
  configuration in \<^verbatim>\<open>PREOPERATIONAL\<close>, starts the node once the last write of the configuration
  has been acknowledged, switches the SDO machine on and off, and tells the drive machine when the
  network becomes operational and when it stops being so.
\<close>

section \<open>Data\<close>

datatype mch_net_state_t =
    ST_NET_DISABLED
  | ST_NET_UNKNOWN
  | ST_NET_STOPPED
  | ST_NET_PREOPERATIONAL
  | ST_NET_OPERATIONAL
  | ST_NET_ENTERPREOPERATIONAL
  | ST_NET_UPLOADCONFIG
  | ST_NET_STARTREMOTENODE

datatype mch_net_event_t =
    EV_NET_INTF_OPENED
  | EV_NET_INTF_CLOSED
  | EV_NET_UPLOAD_COMPLETE
  | EV_NET_UPLOAD_FAILED
  | EV_NET_STOPPED
  | EV_NET_OPERATIONAL
  | EV_NET_PREOPERATIONAL
  | EV_NET_WATCHDOG_FAILED

record mch_net_t =
  net_state :: mch_net_state_t
  sdos_enabled_handler :: bool
  sdos_disabled_handler :: bool
  enter_operational_handler :: bool
  leave_operational_handler :: bool

record net_env = profile_env +
  mch_net :: mch_net_t

definition mch_net_create :: mch_net_t where
  "mch_net_create = \<lparr>net_state = ST_NET_DISABLED, sdos_enabled_handler = False,
     sdos_disabled_handler = False, enter_operational_handler = False,
     leave_operational_handler = False\<rparr>"

abbreviation net_state_of :: "'z net_env_scheme \<Rightarrow> mch_net_state_t" where
  "net_state_of w \<equiv> net_state (mch_net w)"

definition set_net_state :: "mch_net_state_t \<Rightarrow> 'z net_env_scheme \<Rightarrow> 'z net_env_scheme" where
  "set_net_state s w = w\<lparr>mch_net := (mch_net w)\<lparr>net_state := s\<rparr>\<rparr>"

section \<open>Configuration\<close>

definition ENQUEUE :: "bool \<Rightarrow> u16 \<Rightarrow> u8 \<Rightarrow> u32 \<Rightarrow> u8 \<Rightarrow> 'z net_env_scheme action" where
  "ENQUEUE final index subindex val sz =
     mch_sdo_queue_write_with_cb index subindex val sz
       (if final then Some Mch_net_sdo_write_callback else None)
       (Some Mch_net_sdo_abort_callback) Data_mch_net"

definition mch_net_queue_setup :: "'z net_env_scheme action" where
  "mch_net_queue_setup = run_steps
     [ENQUEUE False 0x1A00 0x00 0x00 0x01,
      ENQUEUE False 0x1A00 0x01 0x60410010 0x04,
      ENQUEUE False 0x1A00 0x02 0x60610008 0x04,
      ENQUEUE False 0x1A00 0x00 0x02 0x01,
      ENQUEUE False 0x1800 0x01 0x40000181 0x04,
      ENQUEUE False 0x1800 0x02 0xFF 0x01,
      ENQUEUE False 0x1800 0x03 0x0A 0x02,
      ENQUEUE False 0x1800 0x05 0x0A 0x02,
      ENQUEUE False 0x1A01 0x00 0x00 0x01,
      ENQUEUE False 0x1A01 0x01 0x60640020 0x04,
      ENQUEUE False 0x1A01 0x02 0x606C0020 0x04,
      ENQUEUE False 0x1A01 0x00 0x02 0x01,
      ENQUEUE False 0x1801 0x01 0x40000281 0x04,
      ENQUEUE False 0x1801 0x02 0xFF 0x01,
      ENQUEUE False 0x1801 0x03 0x0A 0x02,
      ENQUEUE False 0x1801 0x05 0x0A 0x02,
      ENQUEUE False 0x1601 0x00 0x00 0x01,
      ENQUEUE False 0x1601 0x01 0x60C10120 0x04,
      ENQUEUE False 0x1601 0x00 0x01 0x01,
      ENQUEUE False 0x1401 0x02 0x01 0x01,
      ENQUEUE False 0x1A02 0x00 0x00 0x01,
      ENQUEUE False 0x1802 0x01 0x40000381 0x04,
      ENQUEUE False 0x1A03 0x00 0x00 0x01,
      ENQUEUE True 0x1803 0x01 0x40000481 0x04]"

section \<open>The machine\<close>

fun mch_net_next_state_given_event ::
    "mch_net_state_t \<Rightarrow> mch_net_event_t \<Rightarrow> mch_net_state_t" where
  "mch_net_next_state_given_event ST_NET_DISABLED event =
     (if event = EV_NET_INTF_OPENED then ST_NET_UNKNOWN else ST_NET_DISABLED)"
| "mch_net_next_state_given_event ST_NET_UNKNOWN event =
     (if event = EV_NET_STOPPED then ST_NET_STOPPED
      else if event = EV_NET_PREOPERATIONAL then ST_NET_PREOPERATIONAL
      else if event = EV_NET_OPERATIONAL then ST_NET_ENTERPREOPERATIONAL
      else if event = EV_NET_INTF_CLOSED then ST_NET_DISABLED
      else ST_NET_UNKNOWN)"
| "mch_net_next_state_given_event ST_NET_STOPPED event =
     (if event = EV_NET_INTF_CLOSED then ST_NET_DISABLED else ST_NET_STOPPED)"
| "mch_net_next_state_given_event ST_NET_PREOPERATIONAL event =
     (if event = EV_NET_INTF_CLOSED then ST_NET_DISABLED
      else if event = EV_NET_UPLOAD_COMPLETE then ST_NET_STARTREMOTENODE
      else if event = EV_NET_STOPPED then ST_NET_UNKNOWN
      else if event = EV_NET_WATCHDOG_FAILED then ST_NET_UNKNOWN
      else ST_NET_PREOPERATIONAL)"
| "mch_net_next_state_given_event ST_NET_OPERATIONAL event =
     (if event = EV_NET_INTF_CLOSED then ST_NET_DISABLED
      else if event = EV_NET_STOPPED then ST_NET_UNKNOWN
      else if event = EV_NET_PREOPERATIONAL then ST_NET_UNKNOWN
      else if event = EV_NET_WATCHDOG_FAILED then ST_NET_UNKNOWN
      else ST_NET_OPERATIONAL)"
| "mch_net_next_state_given_event ST_NET_UPLOADCONFIG event =
     (if event = EV_NET_INTF_CLOSED then ST_NET_DISABLED
      else if event = EV_NET_UPLOAD_COMPLETE then ST_NET_STARTREMOTENODE
      else ST_NET_UPLOADCONFIG)"
| "mch_net_next_state_given_event ST_NET_STARTREMOTENODE event =
     (if event = EV_NET_INTF_CLOSED then ST_NET_DISABLED
      else if event = EV_NET_OPERATIONAL then ST_NET_OPERATIONAL
      else ST_NET_STARTREMOTENODE)"
| "mch_net_next_state_given_event ST_NET_ENTERPREOPERATIONAL event =
     (if event = EV_NET_INTF_CLOSED then ST_NET_DISABLED
      else if event = EV_NET_PREOPERATIONAL then ST_NET_PREOPERATIONAL
      else ST_NET_ENTERPREOPERATIONAL)"

text \<open>The callbacks of \<^verbatim>\<open>sled.cc\<close>.\<close>

definition mch_net_on_sdos_enabled :: "'z net_env_scheme action" where
  "mch_net_on_sdos_enabled = mch_sdo_handle_event EV_NET_SDO_ENABLED"

definition mch_net_on_sdos_disabled :: "'z net_env_scheme action" where
  "mch_net_on_sdos_disabled = mch_sdo_handle_event EV_NET_SDO_DISABLED"

definition mch_net_on_enter_operational :: "'z net_env_scheme action" where
  "mch_net_on_enter_operational w = mch_ds_handle_event EV_DS_NET_OPERATIONAL (sled_profiles_reset w)"

definition mch_net_on_leave_operational :: "'z net_env_scheme action" where
  "mch_net_on_leave_operational = mch_ds_handle_event EV_DS_NET_INOPERATIONAL"

definition send_nmt :: "u8 \<Rightarrow> 'z net_env_scheme action" where
  "send_nmt command w = Inr (snd (intf_send_nmt_command command w))"

text \<open>Entering \<^verbatim>\<open>STOPPED\<close> falls through to the case of \<^verbatim>\<open>STARTREMOTENODE\<close>.\<close>

definition mch_net_on_enter :: "'z net_env_scheme action" where
  "mch_net_on_enter w =
     (case net_state_of w of
        ST_NET_DISABLED \<Rightarrow>
          when_step (sdos_disabled_handler (mch_net w)) mch_net_on_sdos_disabled w
      | ST_NET_UNKNOWN \<Rightarrow>
          run_steps
            [when_step (sdos_disabled_handler (mch_net w)) mch_net_on_sdos_disabled,
             send_nmt NMT_ENTERPREOPERATIONAL] w
      | ST_NET_STOPPED \<Rightarrow>
          run_steps
            [when_step (sdos_disabled_handler (mch_net w)) mch_net_on_sdos_disabled,
             send_nmt NMT_STARTREMOTENODE] w
      | ST_NET_STARTREMOTENODE \<Rightarrow> send_nmt NMT_STARTREMOTENODE w
      | ST_NET_ENTERPREOPERATIONAL \<Rightarrow> send_nmt NMT_ENTERPREOPERATIONAL w
      | ST_NET_UPLOADCONFIG \<Rightarrow> mch_net_queue_setup w
      | ST_NET_OPERATIONAL \<Rightarrow>
          run_steps
            [when_step (sdos_enabled_handler (mch_net w)) mch_net_on_sdos_enabled,
             when_step (enter_operational_handler (mch_net w)) mch_net_on_enter_operational] w
      | ST_NET_PREOPERATIONAL \<Rightarrow>
          run_steps
            [when_step (sdos_enabled_handler (mch_net w)) mch_net_on_sdos_enabled,
             mch_net_queue_setup] w)"

definition mch_net_on_exit :: "'z net_env_scheme action" where
  "mch_net_on_exit w =
     (case net_state_of w of
        ST_NET_OPERATIONAL \<Rightarrow>
          when_step (leave_operational_handler (mch_net w)) mch_net_on_leave_operational w
      | _ \<Rightarrow> Inr w)"

definition mch_net_handle_event :: "mch_net_event_t \<Rightarrow> 'z net_env_scheme action" where
  "mch_net_handle_event event w =
     (let next_state = mch_net_next_state_given_event (net_state_of w) event in
      if net_state_of w \<noteq> next_state
      then bind_outcome (mch_net_on_exit w) (\<lambda>w. mch_net_on_enter (set_net_state next_state w))
      else Inr w)"

definition mch_net_sdo_write_callback :: "u16 \<Rightarrow> u8 \<Rightarrow> 'z net_env_scheme action" where
  "mch_net_sdo_write_callback index subindex = mch_net_handle_event EV_NET_UPLOAD_COMPLETE"

text \<open>The write callback of a request, called with the request's data.\<close>

fun call_write :: "sdo_write_callback_t \<Rightarrow> sdo_data \<Rightarrow> u16 \<Rightarrow> u8 \<Rightarrow> 'z net_env_scheme action" where
  "call_write Mch_net_sdo_write_callback dat index subindex = mch_net_sdo_write_callback index subindex"
| "call_write On_success_callback (Data_profile i) index subindex = on_success_callback i index subindex"
| "call_write On_success_callback _ index subindex =
     (\<lambda>w. Inl (Undefined_behaviour Null_dereference))"

interpretation net_machine: event_machine "net_state_of" set_net_state
  mch_net_next_state_given_event mch_net_on_exit mch_net_on_enter mch_net_handle_event
  by unfold_locales (simp_all add: mch_net_handle_event_def)

section \<open>What the callbacks do\<close>

lemma sdo_enable_eq:
  "mch_sdo_handle_event EV_NET_SDO_ENABLED w =
    (if sdo_state_of w = ST_SDO_DISABLED \<or> sdo_state_of w = ST_SDO_ERROR
     then if \<exists>sdo \<in> set (sdo_queue_of w). abort_callback sdo \<noteq> None then Inl (Exit 1)
       else Inr (w\<lparr>mch_sdo := (mch_sdo w)\<lparr>sdo_queue := [], sdo_state := ST_SDO_WAITING\<rparr>\<rparr>)
     else Inr w)"
  by (cases "sdo_state_of w")
    (simp_all add: sdo_machine.handle_changed sdo_machine.handle_ignored mch_sdo_on_exit_def
      mch_sdo_clear_queue_eq enter_waiting set_sdo_state_def)

lemma sdo_disable_eq:
  "mch_sdo_handle_event EV_NET_SDO_DISABLED w =
    Inr (if sdo_state_of w = ST_SDO_WAITING \<or> sdo_state_of w = ST_SDO_SENDING
         then set_sdo_state ST_SDO_DISABLED w else w)"
  by (cases "sdo_state_of w")
    (simp_all add: sdo_machine.handle_changed sdo_machine.handle_ignored mch_sdo_on_exit_def
      mch_sdo_on_enter.simps)

lemma set_net_state_simps [simp]:
  "net_state_of (set_net_state s w) = s"
  "sdos_enabled_handler (mch_net (set_net_state s w)) = sdos_enabled_handler (mch_net w)"
  "sdos_disabled_handler (mch_net (set_net_state s w)) = sdos_disabled_handler (mch_net w)"
  "enter_operational_handler (mch_net (set_net_state s w)) = enter_operational_handler (mch_net w)"
  "leave_operational_handler (mch_net (set_net_state s w)) = leave_operational_handler (mch_net w)"
  "profiles (set_net_state s w) = profiles w"
  "current_profile (set_net_state s w) = current_profile w"
  "mch_ds (set_net_state s w) = mch_ds w"
  "mch_mp (set_net_state s w) = mch_mp w"
  "mch_sdo (set_net_state s w) = mch_sdo w"
  "interface (set_net_state s w) = interface w"
  "sent (set_net_state s w) = sent w"
  "driver (set_net_state s w) = driver w"
  "net_env.more (set_net_state s w) = net_env.more w"
  by (simp_all add: set_net_state_def)

definition net_handlers_set :: "'z net_env_scheme \<Rightarrow> bool" where
  "net_handlers_set w \<longleftrightarrow> sdos_enabled_handler (mch_net w) \<and> sdos_disabled_handler (mch_net w)
     \<and> enter_operational_handler (mch_net w) \<and> leave_operational_handler (mch_net w)"

text \<open>
  The drive machine is enabled exactly while the network is operational, and the motion machine
  exactly while the drive is.
\<close>

definition net_ds_tied :: "'z net_env_scheme \<Rightarrow> bool" where
  "net_ds_tied w \<longleftrightarrow> (ds_state_of w \<noteq> ST_DS_DISABLED \<longleftrightarrow> net_state_of w = ST_NET_OPERATIONAL)"

definition net_inv :: "'z net_env_scheme \<Rightarrow> bool" where
  "net_inv w \<longleftrightarrow> ds_inv w \<and> net_handlers_set w \<and> net_ds_tied w"

text \<open>Whether enabling the SDO machine would call an abort callback.\<close>

definition sdo_poisoned :: "'z sdo_env_scheme \<Rightarrow> bool" where
  "sdo_poisoned w \<longleftrightarrow> (sdo_state_of w = ST_SDO_DISABLED \<or> sdo_state_of w = ST_SDO_ERROR)
     \<and> (\<exists>sdo \<in> set (sdo_queue_of w). abort_callback sdo \<noteq> None)"

text \<open>What an action that spares the network machine's fields and the drive keeps.\<close>

definition net_kept :: "'z net_env_scheme \<Rightarrow> 'z net_env_scheme \<Rightarrow> bool" where
  "net_kept w w' \<longleftrightarrow> mch_net w' = mch_net w \<and> net_env.more w' = net_env.more w"

lemma net_env_of_ds_more:
  assumes "ds_env.more w' = ds_env.more w"
  shows "profiles w' = profiles w" and "current_profile w' = current_profile w"
    and "mch_net w' = mch_net w" and "net_env.more w' = net_env.more w"
  using assms by (cases w; cases w'; simp)+

lemma net_env_of_sdo_more:
  assumes "sdo_env.more w' = sdo_env.more w"
  shows "profiles w' = profiles w" and "current_profile w' = current_profile w"
    and "mch_net w' = mch_net w" and "net_env.more w' = net_env.more w"
    and "mch_ds w' = mch_ds w" and "mch_mp w' = mch_mp w"
  using assms by (cases w; cases w'; simp)+

lemma net_enable:
  assumes "ds_inv w" and "\<not> sdo_poisoned w"
  shows "\<exists>w'. mch_sdo_handle_event EV_NET_SDO_ENABLED w = Inr w' \<and> ds_inv w' \<and> mch_ds w' = mch_ds w
    \<and> net_kept w w' \<and> profiles w' = profiles w"
  using assms
  by (auto simp: sdo_enable_eq sdo_poisoned_def ds_inv_def sdo_quiet_def ds_handlers_set_def
      ds_mp_tied_def net_kept_def)

lemma net_enable_poisoned:
  "sdo_poisoned w \<Longrightarrow> mch_sdo_handle_event EV_NET_SDO_ENABLED w = Inl (Exit 1)"
  unfolding sdo_poisoned_def by (simp add: sdo_enable_eq)

lemma net_disable:
  assumes "ds_inv w"
  shows "\<exists>w'. mch_sdo_handle_event EV_NET_SDO_DISABLED w = Inr w' \<and> ds_inv w' \<and> mch_ds w' = mch_ds w
    \<and> net_kept w w'"
  using assms
  by (auto simp: sdo_disable_eq ds_inv_def sdo_quiet_def ds_handlers_set_def ds_mp_tied_def
      net_kept_def set_sdo_state_def)

lemma net_send_nmt:
  assumes "ds_inv w"
  shows "\<exists>w'. send_nmt c w = Inr w' \<and> ds_inv w' \<and> mch_ds w' = mch_ds w \<and> net_kept w w'"
  using assms
  by (simp add: send_nmt_def intf_send_nmt_command_def intf_write_def driver_call_def Let_def
      ds_inv_def sdo_quiet_def ds_handlers_set_def ds_mp_tied_def net_kept_def)

definition setup_request :: "bool \<Rightarrow> u16 \<Rightarrow> u8 \<Rightarrow> u32 \<Rightarrow> u8 \<Rightarrow> sdo_t" where
  "setup_request final index subindex val sz = write_request index subindex val sz
     (if final then Some Mch_net_sdo_write_callback else None)
     (Some Mch_net_sdo_abort_callback) Data_mch_net"

lemma ENQUEUE_eq: "ENQUEUE final index subindex val sz = queue_sdo (setup_request final index subindex val sz)"
  by (simp add: ENQUEUE_def mch_sdo_queue_write_with_cb_def setup_request_def)

definition config_requests :: "sdo_t list" where
  "config_requests =
     [setup_request False 0x1A00 0x00 0x00 0x01, setup_request False 0x1A00 0x01 0x60410010 0x04,
      setup_request False 0x1A00 0x02 0x60610008 0x04, setup_request False 0x1A00 0x00 0x02 0x01,
      setup_request False 0x1800 0x01 0x40000181 0x04, setup_request False 0x1800 0x02 0xFF 0x01,
      setup_request False 0x1800 0x03 0x0A 0x02, setup_request False 0x1800 0x05 0x0A 0x02,
      setup_request False 0x1A01 0x00 0x00 0x01, setup_request False 0x1A01 0x01 0x60640020 0x04,
      setup_request False 0x1A01 0x02 0x606C0020 0x04, setup_request False 0x1A01 0x00 0x02 0x01,
      setup_request False 0x1801 0x01 0x40000281 0x04, setup_request False 0x1801 0x02 0xFF 0x01,
      setup_request False 0x1801 0x03 0x0A 0x02, setup_request False 0x1801 0x05 0x0A 0x02,
      setup_request False 0x1601 0x00 0x00 0x01, setup_request False 0x1601 0x01 0x60C10120 0x04,
      setup_request False 0x1601 0x00 0x01 0x01, setup_request False 0x1401 0x02 0x01 0x01,
      setup_request False 0x1A02 0x00 0x00 0x01, setup_request False 0x1802 0x01 0x40000381 0x04,
      setup_request False 0x1A03 0x00 0x00 0x01, setup_request True 0x1803 0x01 0x40000481 0x04]"

lemma queue_setup_eq: "mch_net_queue_setup = run_steps (map queue_sdo config_requests)"
  by (simp add: mch_net_queue_setup_def ENQUEUE_eq config_requests_def)

lemma net_queue_setup:
  assumes "ds_inv w"
  shows "\<exists>w'. mch_net_queue_setup w = Inr w' \<and> ds_inv w' \<and> mch_ds w' = mch_ds w \<and> net_kept w w'
    \<and> sdo_backlog w' = sdo_backlog w @ map sdo_frame config_requests"
proof -
  from assms have "sdo_quiet w" by (simp add: ds_inv_def)
  from sdo_requests.enqueue_all [OF this, of config_requests] obtain w' where
    w': "mch_net_queue_setup w = Inr w'" "sdo_quiet w'" "sdo_env.more w' = sdo_env.more w"
      "sdo_backlog w' = sdo_backlog w @ map sdo_frame config_requests"
    unfolding queue_setup_eq by blast
  note m = net_env_of_sdo_more [OF w'(3)]
  from assms w'(2) m have "ds_inv w'" by (simp add: ds_inv_def ds_handlers_set_def ds_mp_tied_def)
  with w' m show ?thesis by (simp add: net_kept_def)
qed

lemma net_ds_event:
  assumes "ds_inv w"
  shows "\<exists>w'. mch_ds_handle_event e w = Inr w' \<and> ds_inv w' \<and> net_kept w w'
    \<and> ds_state_of w' = mch_ds_next_state_given_event (ds_state_of w) e"
proof -
  from ds_handle [OF assms, of e] obtain w' where
    w': "mch_ds_handle_event e w = Inr w'" "ds_inv w'" "ds_frame w w'"
      "ds_state_of w' = mch_ds_next_state_given_event (ds_state_of w) e" by blast
  have "net_kept w w'"
    using net_env_of_ds_more [OF ds_frame_more [OF w'(3)]] by (simp add: net_kept_def)
  with w' show ?thesis by blast
qed

lemma net_kept_trans: "net_kept w w1 \<Longrightarrow> net_kept w1 w2 \<Longrightarrow> net_kept w w2"
  by (simp add: net_kept_def)

section \<open>The machine under its invariant\<close>

lemma net_inv_kept:
  assumes "ds_inv w'" and "net_handlers_set w" and "net_kept w w'"
    and "ds_state_of w' \<noteq> ST_DS_DISABLED \<longleftrightarrow> net_state_of w = ST_NET_OPERATIONAL"
  shows "net_inv w' \<and> net_kept w w'"
  using assms by (simp add: net_inv_def net_kept_def net_handlers_set_def net_ds_tied_def)

lemma net_exit:
  assumes "net_inv w"
  shows "\<exists>w'. mch_net_on_exit w = Inr w' \<and> ds_inv w' \<and> ds_state_of w' = ST_DS_DISABLED \<and> net_kept w w'
    \<and> (net_state_of w \<noteq> ST_NET_OPERATIONAL \<longrightarrow> w' = w)"
proof (cases "net_state_of w = ST_NET_OPERATIONAL")
  case True
  from assms have d: "ds_inv w" and h: "leave_operational_handler (mch_net w)"
    by (simp_all add: net_inv_def net_handlers_set_def)
  from net_ds_event [OF d, of EV_DS_NET_INOPERATIONAL] True h show ?thesis
    by (auto simp: mch_net_on_exit_def mch_net_on_leave_operational_def ds_next_disabled_iff)
next
  case False
  with assms have "ds_state_of w = ST_DS_DISABLED" "ds_inv w"
    by (simp_all add: net_inv_def net_ds_tied_def)
  moreover from False have "mch_net_on_exit w = Inr w"
    by (cases "net_state_of w") (simp_all add: mch_net_on_exit_def)
  ultimately show ?thesis by (simp add: net_kept_def)
qed

lemma net_enter_operational:
  assumes d: "ds_inv w" and h: "net_handlers_set w" and dd: "ds_state_of w = ST_DS_DISABLED"
    and s: "net_state_of w = ST_NET_OPERATIONAL" and np: "\<not> sdo_poisoned w"
  shows "\<exists>w'. mch_net_on_enter w = Inr w' \<and> net_inv w' \<and> net_kept w w'"
proof -
  from net_enable [OF d np] obtain w1 where w1:
    "mch_sdo_handle_event EV_NET_SDO_ENABLED w = Inr w1" "ds_inv w1" "mch_ds w1 = mch_ds w"
    "net_kept w w1" by blast
  let ?w2 = "sled_profiles_reset w1"
  have "ds_inv ?w2" and s2: "ds_state_of ?w2 = ST_DS_DISABLED" and k2: "net_kept w1 ?w2"
    using w1(2,3) dd by (simp_all add: ds_inv_def sdo_quiet_def ds_handlers_set_def ds_mp_tied_def
        net_kept_def sled_profiles_reset_def)
  from net_ds_event [OF this(1), of EV_DS_NET_OPERATIONAL] s2 obtain w3 where
    w3: "mch_ds_handle_event EV_DS_NET_OPERATIONAL ?w2 = Inr w3" "ds_inv w3" "net_kept ?w2 w3"
      "ds_state_of w3 = ST_DS_UNKNOWN" by (auto simp: ds_next_def)
  have "net_kept w w3" using net_kept_trans [OF net_kept_trans [OF w1(4) k2] w3(3)] .
  with net_inv_kept [OF w3(2) h] s w3(4) have "net_inv w3 \<and> net_kept w w3" by simp
  moreover have "mch_net_on_enter w = Inr w3"
    using s h w1(1) w3(1) by (simp add: mch_net_on_enter_def net_handlers_set_def
        mch_net_on_sdos_enabled_def mch_net_on_enter_operational_def)
  ultimately show ?thesis by blast
qed

lemma net_enter_preoperational:
  assumes d: "ds_inv w" and h: "net_handlers_set w" and dd: "ds_state_of w = ST_DS_DISABLED"
    and s: "net_state_of w = ST_NET_PREOPERATIONAL" and np: "\<not> sdo_poisoned w"
  shows "\<exists>w'. mch_net_on_enter w = Inr w' \<and> net_inv w' \<and> net_kept w w'"
proof -
  from net_enable [OF d np] obtain w1 where w1:
    "mch_sdo_handle_event EV_NET_SDO_ENABLED w = Inr w1" "ds_inv w1" "mch_ds w1 = mch_ds w"
    "net_kept w w1" by blast
  from net_queue_setup [OF w1(2)] obtain w2 where w2:
    "mch_net_queue_setup w1 = Inr w2" "ds_inv w2" "mch_ds w2 = mch_ds w1" "net_kept w1 w2" by blast
  from net_kept_trans [OF w1(4) w2(4)] net_inv_kept [OF w2(2) h] s w1(3) w2(3) dd
  have "net_inv w2 \<and> net_kept w w2" by simp
  moreover have "mch_net_on_enter w = Inr w2"
    using s h w1(1) w2(1)
    by (simp add: mch_net_on_enter_def net_handlers_set_def mch_net_on_sdos_enabled_def)
  ultimately show ?thesis by blast
qed

lemma net_enter_disabling:
  assumes d: "ds_inv w" and h: "net_handlers_set w" and dd: "ds_state_of w = ST_DS_DISABLED"
    and s: "net_state_of w \<in> {ST_NET_DISABLED, ST_NET_UNKNOWN, ST_NET_STOPPED}"
  shows "\<exists>w'. mch_net_on_enter w = Inr w' \<and> net_inv w' \<and> net_kept w w'"
proof -
  from net_disable [OF d] obtain w1 where w1:
    "mch_sdo_handle_event EV_NET_SDO_DISABLED w = Inr w1" "ds_inv w1" "mch_ds w1 = mch_ds w"
    "net_kept w w1" by blast
  have 1: "net_inv w1 \<and> net_kept w w1"
    using net_inv_kept [OF w1(2) h w1(4)] s w1(3) dd by auto
  have 2: "\<exists>w2. send_nmt c w1 = Inr w2 \<and> net_inv w2 \<and> net_kept w w2" for c
  proof -
    from net_send_nmt [OF w1(2), of c] obtain w2 where w2: "send_nmt c w1 = Inr w2" "ds_inv w2"
      "mch_ds w2 = mch_ds w1" "net_kept w1 w2" by blast
    from net_inv_kept [OF w2(2) h net_kept_trans [OF w1(4) w2(4)]] s w1(3) w2(1,3) dd
    show ?thesis by auto
  qed
  from s consider "net_state_of w = ST_NET_DISABLED" | "net_state_of w = ST_NET_UNKNOWN"
    | "net_state_of w = ST_NET_STOPPED" by blast
  then show ?thesis
  proof cases
    case 1
    with \<open>net_inv w1 \<and> net_kept w w1\<close> w1(1) h show ?thesis
      by (simp add: mch_net_on_enter_def net_handlers_set_def mch_net_on_sdos_disabled_def)
  next
    case 2
    with \<open>\<And>c. \<exists>w2. send_nmt c w1 = Inr w2 \<and> net_inv w2 \<and> net_kept w w2\<close> w1(1) h show ?thesis
      by (simp add: mch_net_on_enter_def net_handlers_set_def mch_net_on_sdos_disabled_def)
  next
    case 3
    with 2 w1(1) h show ?thesis
      by (simp add: mch_net_on_enter_def net_handlers_set_def mch_net_on_sdos_disabled_def)
  qed
qed

lemma net_enter_other:
  assumes d: "ds_inv w" and h: "net_handlers_set w" and dd: "ds_state_of w = ST_DS_DISABLED"
    and s: "net_state_of w \<in> {ST_NET_STARTREMOTENODE, ST_NET_ENTERPREOPERATIONAL, ST_NET_UPLOADCONFIG}"
  shows "\<exists>w'. mch_net_on_enter w = Inr w' \<and> net_inv w' \<and> net_kept w w'"
proof (cases "net_state_of w = ST_NET_UPLOADCONFIG")
  case True
  from net_queue_setup [OF d] obtain w' where w': "mch_net_queue_setup w = Inr w'" "ds_inv w'"
    "mch_ds w' = mch_ds w" "net_kept w w'" by blast
  with net_inv_kept [OF w'(2) h w'(4)] True dd show ?thesis by (simp add: mch_net_on_enter_def)
next
  case False
  have "\<exists>w'. send_nmt c w = Inr w' \<and> net_inv w' \<and> net_kept w w'" for c
  proof -
    from net_send_nmt [OF d, of c] obtain w' where w': "send_nmt c w = Inr w'" "ds_inv w'"
      "mch_ds w' = mch_ds w" "net_kept w w'" by blast
    with net_inv_kept [OF w'(2) h w'(4)] s dd show ?thesis by auto
  qed
  with False s show ?thesis by (auto simp: mch_net_on_enter_def)
qed

lemma net_enter:
  assumes "ds_inv w" and "net_handlers_set w" and "ds_state_of w = ST_DS_DISABLED"
    and "\<not> (net_state_of w \<in> {ST_NET_PREOPERATIONAL, ST_NET_OPERATIONAL} \<and> sdo_poisoned w)"
  shows "\<exists>w'. mch_net_on_enter w = Inr w' \<and> net_inv w' \<and> net_kept w w'"
  using net_enter_operational [OF assms(1-3)] net_enter_preoperational [OF assms(1-3)]
    net_enter_disabling [OF assms(1-3)] net_enter_other [OF assms(1-3)] assms(4)
  by (cases "net_state_of w") simp_all

lemma net_enter_poisoned:
  assumes "net_handlers_set w" and "net_state_of w \<in> {ST_NET_PREOPERATIONAL, ST_NET_OPERATIONAL}"
    and "sdo_poisoned w"
  shows "mch_net_on_enter w = Inl (Exit 1)"
  using assms
  by (auto simp: mch_net_on_enter_def net_handlers_set_def mch_net_on_sdos_enabled_def
      net_enable_poisoned)

lemma set_net_state_facts [simp]:
  "ds_inv (set_net_state s w) = ds_inv w"
  "net_handlers_set (set_net_state s w) = net_handlers_set w"
  "sdo_poisoned (set_net_state s w) = sdo_poisoned w"
  "sdo_backlog (set_net_state s w) = sdo_backlog w"
  by (simp_all add: ds_inv_def sdo_quiet_def ds_handlers_set_def ds_mp_tied_def net_handlers_set_def
      sdo_poisoned_def sdo_backlog_def)

text \<open>Whether an event makes the machine call the abort callbacks of stale requests.\<close>

definition net_exits :: "mch_net_event_t \<Rightarrow> 'z net_env_scheme \<Rightarrow> bool" where
  "net_exits e w \<longleftrightarrow> sdo_poisoned w
     \<and> mch_net_next_state_given_event (net_state_of w) e \<noteq> net_state_of w
     \<and> mch_net_next_state_given_event (net_state_of w) e \<in> {ST_NET_PREOPERATIONAL, ST_NET_OPERATIONAL}"

lemma net_from_operational:
  "mch_net_next_state_given_event ST_NET_OPERATIONAL e \<in> {ST_NET_PREOPERATIONAL, ST_NET_OPERATIONAL}
    \<Longrightarrow> mch_net_next_state_given_event ST_NET_OPERATIONAL e = ST_NET_OPERATIONAL"
  by (cases e) simp_all

lemma net_handle:
  assumes "net_inv w"
  shows "if net_exits e w then mch_net_handle_event e w = Inl (Exit 1)
    else \<exists>w'. mch_net_handle_event e w = Inr w' \<and> net_inv w'
      \<and> net_state_of w' = mch_net_next_state_given_event (net_state_of w) e
      \<and> net_env.more w' = net_env.more w"
proof (cases "mch_net_next_state_given_event (net_state_of w) e = net_state_of w")
  case True
  with assms show ?thesis by (simp add: net_exits_def net_machine.handle_ignored)
next
  case ch: False
  let ?s = "mch_net_next_state_given_event (net_state_of w) e"
  from net_exit [OF assms] obtain w1 where w1: "mch_net_on_exit w = Inr w1" "ds_inv w1"
    "ds_state_of w1 = ST_DS_DISABLED" "net_kept w w1"
    "net_state_of w \<noteq> ST_NET_OPERATIONAL \<longrightarrow> w1 = w" by blast
  let ?v = "set_net_state ?s w1"
  from assms w1(4) have h: "net_handlers_set ?v"
    by (simp add: net_inv_def net_handlers_set_def net_kept_def)
  have eq: "mch_net_handle_event e w = mch_net_on_enter ?v"
    using ch w1(1) by (simp add: net_machine.handle_changed)
  have same: "?s \<in> {ST_NET_PREOPERATIONAL, ST_NET_OPERATIONAL} \<Longrightarrow> w1 = w"
    using ch net_from_operational [of e] w1(5) by (cases "net_state_of w = ST_NET_OPERATIONAL") auto
  show ?thesis
  proof (cases "net_exits e w")
    case True
    then have "?s \<in> {ST_NET_PREOPERATIONAL, ST_NET_OPERATIONAL}" "sdo_poisoned ?v"
      using same by (simp_all add: net_exits_def)
    with net_enter_poisoned [OF h] True eq show ?thesis by simp
  next
    case False
    then have np: "\<not> (net_state_of ?v \<in> {ST_NET_PREOPERATIONAL, ST_NET_OPERATIONAL} \<and> sdo_poisoned ?v)"
      using same ch by (auto simp: net_exits_def)
    from net_enter [OF _ h _ np] w1(2,3) obtain w' where
      w': "mch_net_on_enter ?v = Inr w'" "net_inv w'" "net_kept ?v w'" by auto
    with w1(4) eq False show ?thesis by (simp add: net_kept_def)
  qed
qed

section \<open>Safety\<close>

text \<open>Everything that can happen to the three machines, in any order.\<close>

datatype plant_op = Net_event mch_net_event_t | Drive drive_op

fun plant_op_action :: "plant_op \<Rightarrow> 'z net_env_scheme action" where
  "plant_op_action (Net_event e) = mch_net_handle_event e"
| "plant_op_action (Drive x) = drive_op_action x"

text \<open>The events of the other machines that only a callback may send are excluded.\<close>

definition plant_op_ok :: "plant_op \<Rightarrow> bool" where
  "plant_op_ok x \<longleftrightarrow> (case x of Net_event e \<Rightarrow> True
     | Drive y \<Rightarrow> drive_op_ok y \<and> y \<noteq> Ds_event EV_DS_NET_OPERATIONAL \<and> y \<noteq> Ds_event EV_DS_NET_INOPERATIONAL)"

lemma net_kept_inv:
  assumes "net_inv w" and "ds_inv w'" and "net_kept w w'"
    and "ds_state_of w' = ST_DS_DISABLED \<longleftrightarrow> ds_state_of w = ST_DS_DISABLED"
  shows "net_inv w'"
  using assms by (simp add: net_inv_def net_kept_def net_handlers_set_def net_ds_tied_def)

lemma drive_op_net:
  assumes "net_inv w" and "plant_op_ok (Drive x)"
  shows "\<exists>w'. drive_op_action x w = Inr w' \<and> net_inv w'"
proof -
  from assms(1) have d: "ds_inv w" by (simp add: net_inv_def)
  show ?thesis
  proof (cases x)
    case (Ds_event e)
    from net_ds_event [OF d, of e] obtain w' where
      w': "mch_ds_handle_event e w = Inr w'" "ds_inv w'" "net_kept w w'"
        "ds_state_of w' = mch_ds_next_state_given_event (ds_state_of w) e" by blast
    with Ds_event assms(2) have "ds_state_of w' = ST_DS_DISABLED \<longleftrightarrow> ds_state_of w = ST_DS_DISABLED"
      by (auto simp: plant_op_ok_def ds_next_disabled_iff)
    from net_kept_inv [OF assms(1) w'(2,3) this] w'(1) Ds_event show ?thesis by simp
  next
    case (Mp_event e)
    with assms(2) have "e \<noteq> EV_MP_DS_OPERATIONAL" "e \<noteq> EV_MP_DS_INOPERATIONAL"
      by (auto simp: plant_op_ok_def drive_op_ok_def)
    from mp_event_keeps_ds_inv [OF d this] obtain w' where
      w': "mch_mp_handle_event e w = Inr w'" "ds_inv w'" "ds_frame w w'" "mch_ds w' = mch_ds w" by blast
    have "net_kept w w'"
      using net_env_of_ds_more [OF ds_frame_more [OF w'(3)]] by (simp add: net_kept_def)
    from net_kept_inv [OF assms(1) w'(2) this] w'(1,4) Mp_event show ?thesis by simp
  qed
qed

lemma plant_op_step:
  assumes "net_inv w" and "plant_op_ok x"
  shows "plant_op_action x w = Inl (Exit 1) \<or> (\<exists>w'. plant_op_action x w = Inr w' \<and> net_inv w')"
proof (cases x)
  case (Net_event e)
  with net_handle [OF assms(1), of e] show ?thesis by (auto split: if_splits)
next
  case (Drive y)
  with drive_op_net [of w y] assms show ?thesis by auto
qed

text \<open>
  C5: no motion without a network and an enabled drive. Whatever events the network, the status
  word and the clients produce, in any order: the process either ends with status 1, or goes on in
  a state in which the drive machine is out of its disabled state exactly if the network is
  operational, and the motion machine exactly if the drive machine is in \<^verbatim>\<open>OPERATION_ENABLED\<close>. No
  assertion fails and nothing undefined happens on the way.
\<close>

theorem plant_lockstep:
  assumes "net_inv w" and "\<forall>x \<in> set ops. plant_op_ok x"
  shows "run_steps (map plant_op_action ops) w = Inl (Exit 1)
    \<or> (\<exists>w'. run_steps (map plant_op_action ops) w = Inr w'
        \<and> (ds_state_of w' \<noteq> ST_DS_DISABLED \<longleftrightarrow> net_state_of w' = ST_NET_OPERATIONAL)
        \<and> (mp_state_of w' \<noteq> ST_MP_DISABLED \<longleftrightarrow> ds_state_of w' = ST_DS_OPERATION_ENABLED))"
  using assms
proof (induction ops arbitrary: w)
  case Nil
  then show ?case by (simp add: net_inv_def net_ds_tied_def ds_inv_def ds_mp_tied_def)
next
  case (Cons x ops)
  from Cons.prems plant_op_step [of w x] consider "plant_op_action x w = Inl (Exit 1)"
    | w1 where "plant_op_action x w = Inr w1" "net_inv w1" by auto
  then show ?case
  proof cases
    case 1
    then show ?thesis by simp
  next
    case 2
    with Cons.IH [OF 2(2)] Cons.prems(2) show ?thesis by simp
  qed
qed

definition sample_net_env :: "mch_net_state_t \<Rightarrow> mch_ds_state_t \<Rightarrow> mch_sdo_t \<Rightarrow> net_env" where
  "sample_net_env n d s = profile_env.extend
     (ds_env.extend ((sample_ds_env d ST_MP_DISABLED)\<lparr>mch_sdo := s\<rparr>)
       \<lparr>profiles = [], current_profile = None\<rparr>)
     \<lparr>mch_net = \<lparr>net_state = n, sdos_enabled_handler = True, sdos_disabled_handler = True,
        enter_operational_handler = True, leave_operational_handler = True\<rparr>\<rparr>"

lemma sample_net_simps [simp]:
  "net_state_of (sample_net_env n d s) = n"
  "ds_state_of (sample_net_env n d s) = d"
  "mch_sdo (sample_net_env n d s) = s"
  "net_handlers_set (sample_net_env n d s)"
  "sent (sample_net_env n d s) = []"
  by (simp_all add: sample_net_env_def profile_env.defs ds_env.defs sample_ds_simps
      net_handlers_set_def)

lemma sample_net_inv:
  assumes "sdo_active s = None" and "sdo_state s = ST_SDO_DISABLED \<or> sdo_state s = ST_SDO_WAITING \<and> sdo_queue s = []"
    and "d \<noteq> ST_DS_DISABLED \<longleftrightarrow> n = ST_NET_OPERATIONAL" and "d \<noteq> ST_DS_OPERATION_ENABLED"
  shows "net_inv (sample_net_env n d s)"
proof -
  have "mp_state_of (sample_net_env n d s) = ST_MP_DISABLED" "ds_handlers_set (sample_net_env n d s)"
    by (simp_all add: sample_net_env_def profile_env.defs ds_env.defs sample_ds_simps)
  with assms show ?thesis
    by (auto simp: net_inv_def ds_inv_def ds_mp_tied_def net_ds_tied_def sdo_quiet_def)
qed

theorem plant_lockstep_witness:
  "run_steps (map plant_op_action [Net_event EV_NET_OPERATIONAL, Drive (Ds_event EV_DS_FAULT)])
     (sample_net_env ST_NET_STARTREMOTENODE ST_DS_DISABLED (mch_sdo_create\<lparr>sdo_state := ST_SDO_WAITING\<rparr>))
     = Inl (Exit 1)
   \<or> (\<exists>w'. run_steps (map plant_op_action [Net_event EV_NET_OPERATIONAL, Drive (Ds_event EV_DS_FAULT)])
     (sample_net_env ST_NET_STARTREMOTENODE ST_DS_DISABLED (mch_sdo_create\<lparr>sdo_state := ST_SDO_WAITING\<rparr>))
     = Inr w' \<and> (ds_state_of w' \<noteq> ST_DS_DISABLED \<longleftrightarrow> net_state_of w' = ST_NET_OPERATIONAL))"
proof -
  have "net_inv (sample_net_env ST_NET_STARTREMOTENODE ST_DS_DISABLED
      (mch_sdo_create\<lparr>sdo_state := ST_SDO_WAITING\<rparr>))"
    by (rule sample_net_inv) (simp_all add: mch_sdo_create_def)
  from plant_lockstep [OF this, of "[Net_event EV_NET_OPERATIONAL, Drive (Ds_event EV_DS_FAULT)]"]
  show ?thesis by (auto simp: plant_op_ok_def drive_op_ok_def)
qed

section \<open>Uploading the configuration\<close>

lemma queue_while_sending:
  assumes "sdo_state_of w = ST_SDO_SENDING"
  shows "\<exists>w'. run_steps (map queue_sdo rs) w = Inr w' \<and> sdo_state_of w' = ST_SDO_SENDING
    \<and> sdo_queue_of w' = sdo_queue_of w @ rs \<and> sdo_active_of w' = sdo_active_of w
    \<and> sent w' = sent w \<and> interface w' = interface w \<and> sdo_env.more w' = sdo_env.more w"
  using assms
proof (induction rs arbitrary: w)
  case Nil
  then show ?case by simp
next
  case (Cons r rs)
  from Cons.prems have "queue_sdo r w = Inr (push_sdo r w)" by (simp add: queue_sdo_total)
  moreover from Cons.prems Cons.IH [of "push_sdo r w"] obtain w' where
    "run_steps (map queue_sdo rs) (push_sdo r w) = Inr w'" "sdo_state_of w' = ST_SDO_SENDING"
    "sdo_queue_of w' = (sdo_queue_of w @ [r]) @ rs" "sdo_active_of w' = sdo_active_of w"
    "sent w' = sent w" "interface w' = interface w" "sdo_env.more w' = sdo_env.more w" by auto
  ultimately show ?case by simp
qed

lemma queue_when_idle:
  assumes "sdo_state_of w = ST_SDO_WAITING" and "sdo_queue_of w = []"
  shows "\<exists>w'. run_steps (map queue_sdo (r # rs)) w = Inr w' \<and> sdo_state_of w' = ST_SDO_SENDING
    \<and> sdo_queue_of w' = rs \<and> sdo_active_of w' = Some r \<and> sent w' = sent w @ [sdo_frame r]
    \<and> sdo_armed (interface w') r \<and> sdo_env.more w' = sdo_env.more w"
proof -
  let ?w = "send_front r [] (push_sdo r w)"
  have "queue_sdo r w = Inr ?w" using assms by (simp add: queue_sdo_total)
  moreover from queue_while_sending [of ?w rs] obtain w' where
    "run_steps (map queue_sdo rs) ?w = Inr w'" "sdo_state_of w' = ST_SDO_SENDING"
    "sdo_queue_of w' = rs" "sdo_active_of w' = Some r" "sent w' = sent w @ [sdo_frame r]"
    "interface w' = interface ?w" "sdo_env.more w' = sdo_env.more w" by auto
  ultimately show ?thesis by simp
qed

text \<open>The drive's acknowledgement of a write, as the interface hands it to the SDO machine.\<close>

definition write_ack :: "sdo_t \<Rightarrow> 'z net_env_scheme action" where
  "write_ack r = mch_sdo_write_callback call_write (sdo_index r) (sdo_subindex r)"

lemma write_ack_plain:
  assumes "sdo_state_of w = ST_SDO_SENDING" and "sdo_active_of w = Some r" and "sdo_queue_of w = r' # rs"
    and "sdo_armed (interface w) r" and "is_write r" and "write_callback r = None"
  shows "\<exists>w'. write_ack r w = Inr w' \<and> sdo_state_of w' = ST_SDO_SENDING \<and> sdo_active_of w' = Some r'
    \<and> sdo_queue_of w' = rs \<and> sdo_armed (interface w') r' \<and> sent w' = sent w @ [sdo_frame r']
    \<and> sdo_env.more w' = sdo_env.more w"
proof -
  from assms(4) have "sdo_callback_data (interface w)" by (simp add: sdo_armed_def)
  with assms(1-3,5,6) show ?thesis
    by (simp add: write_ack_def mch_sdo_write_callback_def finish_active_eq Let_def)
qed

lemma write_ack_final:
  assumes "sdo_state_of w = ST_SDO_SENDING" and "sdo_active_of w = Some r" and "sdo_queue_of w = []"
    and "sdo_armed (interface w) r" and "is_write r"
    and "write_callback r = Some Mch_net_sdo_write_callback"
    and "net_state_of w = ST_NET_PREOPERATIONAL"
  shows "\<exists>w'. write_ack r w = Inr w' \<and> sdo_state_of w' = ST_SDO_WAITING \<and> sdo_queue_of w' = []
    \<and> sent w' = sent w @ [nmt_frame NMT_STARTREMOTENODE] \<and> net_state_of w' = ST_NET_STARTREMOTENODE"
proof -
  obtain w1 where w1: "send_nmt NMT_STARTREMOTENODE (set_net_state ST_NET_STARTREMOTENODE w) = Inr w1"
    and f: "mch_sdo w1 = mch_sdo w" "interface w1 = interface w"
      "sent w1 = sent w @ [nmt_frame NMT_STARTREMOTENODE]" "net_state_of w1 = ST_NET_STARTREMOTENODE"
    by (simp add: send_nmt_def intf_send_nmt_command_def intf_write_def driver_call_def Let_def)
  have "mch_net_handle_event EV_NET_UPLOAD_COMPLETE w = Inr w1"
    using assms(7) w1
    by (simp add: net_machine.handle_changed mch_net_on_exit_def mch_net_on_enter_def)
  then have "write_ack r w = finish_active EV_SDO_WRITE_RESPONSE w1"
    using assms by (simp add: write_ack_def mch_sdo_write_callback_def sdo_armed_def
        mch_net_sdo_write_callback_def)
  moreover have "finish_active EV_SDO_WRITE_RESPONSE w1
      = Inr (set_sdo_state ST_SDO_WAITING (w1\<lparr>mch_sdo := (mch_sdo w1)\<lparr>sdo_active := None\<rparr>\<rparr>))"
    using assms(1,3) f(1) by (simp add: finish_active_eq)
  ultimately show ?thesis using f assms(3) by (simp add: set_sdo_state_def)
qed

lemma write_acks:
  assumes "sdo_state_of w = ST_SDO_SENDING" and "sdo_active_of w = Some r" and "sdo_queue_of w = rs"
    and "sdo_armed (interface w) r" and "net_state_of w = ST_NET_PREOPERATIONAL"
    and "\<forall>x \<in> set (r # rs). is_write x" and "\<forall>x \<in> set (butlast (r # rs)). write_callback x = None"
    and "write_callback (last (r # rs)) = Some Mch_net_sdo_write_callback"
  shows "\<exists>w'. run_steps (map write_ack (r # rs)) w = Inr w'
    \<and> net_state_of w' = ST_NET_STARTREMOTENODE \<and> sdo_queue_of w' = []
    \<and> sent w' = sent w @ map sdo_frame rs @ [nmt_frame NMT_STARTREMOTENODE]"
  using assms
proof (induction rs arbitrary: w r)
  case Nil
  from write_ack_final [of w r] Nil.prems show ?case by auto
next
  case (Cons r' rs)
  from Cons.prems(6,7) have "is_write r" "write_callback r = None" by simp_all
  from write_ack_plain [OF Cons.prems(1-4) this] obtain w1 where
    w1: "write_ack r w = Inr w1" "sdo_state_of w1 = ST_SDO_SENDING" "sdo_active_of w1 = Some r'"
      "sdo_queue_of w1 = rs" "sdo_armed (interface w1) r'" "sent w1 = sent w @ [sdo_frame r']"
      "sdo_env.more w1 = sdo_env.more w" by blast
  have "net_state_of w1 = ST_NET_PREOPERATIONAL"
    using net_env_of_sdo_more(3) [OF w1(7)] Cons.prems(5) by simp
  moreover have "\<forall>x \<in> set (r' # rs). is_write x" using Cons.prems(6) by simp
  moreover have "\<forall>x \<in> set (butlast (r' # rs)). write_callback x = None"
    using Cons.prems(7) by (simp only: butlast.simps list.simps if_False) simp
  moreover have "write_callback (last (r' # rs)) = Some Mch_net_sdo_write_callback"
    using Cons.prems(8) by (simp only: last.simps list.simps if_False)
  ultimately obtain w' where
    "run_steps (map write_ack (r' # rs)) w1 = Inr w'" "net_state_of w' = ST_NET_STARTREMOTENODE"
    "sdo_queue_of w' = []"
    "sent w' = sent w1 @ map sdo_frame rs @ [nmt_frame NMT_STARTREMOTENODE]"
    using Cons.IH [OF w1(2-5)] by blast
  with w1(1,6) show ?case by simp
qed

lemma net_preoperational:
  assumes "net_handlers_set w" and "net_state_of w \<in> {ST_NET_UNKNOWN, ST_NET_ENTERPREOPERATIONAL}"
    and "sdo_state_of w = ST_SDO_DISABLED \<or> sdo_state_of w = ST_SDO_ERROR" and "\<not> sdo_poisoned w"
  shows "\<exists>w'. mch_net_handle_event EV_NET_PREOPERATIONAL w = Inr w'
    \<and> net_state_of w' = ST_NET_PREOPERATIONAL \<and> sdo_state_of w' = ST_SDO_SENDING
    \<and> sdo_active_of w' = Some (hd config_requests) \<and> sdo_queue_of w' = tl config_requests
    \<and> sdo_armed (interface w') (hd config_requests)
    \<and> sent w' = sent w @ [sdo_frame (hd config_requests)]"
proof -
  let ?w = "set_net_state ST_NET_PREOPERATIONAL w"
  define w1 where "w1 = ?w\<lparr>mch_sdo := (mch_sdo ?w)\<lparr>sdo_queue := [], sdo_state := ST_SDO_WAITING\<rparr>\<rparr>"
  have cons: "config_requests = hd config_requests # tl config_requests"
    by (simp add: config_requests_def)
  have w1s: "sdo_state_of w1 = ST_SDO_WAITING" "sdo_queue_of w1 = []" "sent w1 = sent w"
    "net_state_of w1 = ST_NET_PREOPERATIONAL" by (simp_all add: w1_def)
  from queue_when_idle [OF w1s(1,2), of "hd config_requests" "tl config_requests", folded cons]
  obtain w2 where w2: "mch_net_queue_setup w1 = Inr w2" "sdo_state_of w2 = ST_SDO_SENDING"
    "sdo_queue_of w2 = tl config_requests" "sdo_active_of w2 = Some (hd config_requests)"
    "sent w2 = sent w @ [sdo_frame (hd config_requests)]"
    "sdo_armed (interface w2) (hd config_requests)" "sdo_env.more w2 = sdo_env.more w1"
    unfolding queue_setup_eq w1s(3) by blast
  have e: "mch_sdo_handle_event EV_NET_SDO_ENABLED ?w = Inr w1"
    using assms(3,4) by (auto simp: sdo_enable_eq sdo_poisoned_def w1_def)
  have "mch_net_on_enter ?w = Inr w2"
    using assms(1) e w2(1)
    by (simp add: mch_net_on_enter_def net_handlers_set_def mch_net_on_sdos_enabled_def)
  then have "mch_net_handle_event EV_NET_PREOPERATIONAL w = Inr w2"
    using assms(2) by (auto simp: net_machine.handle_changed mch_net_on_exit_def)
  moreover have "net_state_of w2 = ST_NET_PREOPERATIONAL"
    using net_env_of_sdo_more(3) [OF w2(7)] w1s(4) by simp
  ultimately show ?thesis using w2 by blast
qed

text \<open>
  C16: the node is started only after its whole configuration has been confirmed. When the drive
  reports pre-operational (and no stale request with an abort callback waits), the 24 writes of the
  configuration are sent, each after the acknowledgement of the one before; after 24
  acknowledgements the frames on the bus are exactly these, in the order of the source, followed by
  the command to start the node.
\<close>

theorem config_upload:
  assumes "net_handlers_set w" and "net_state_of w \<in> {ST_NET_UNKNOWN, ST_NET_ENTERPREOPERATIONAL}"
    and "sdo_state_of w = ST_SDO_DISABLED \<or> sdo_state_of w = ST_SDO_ERROR" and "\<not> sdo_poisoned w"
  shows "\<exists>w'. run_steps (mch_net_handle_event EV_NET_PREOPERATIONAL # map write_ack config_requests) w
      = Inr w'
    \<and> net_state_of w' = ST_NET_STARTREMOTENODE \<and> sdo_queue_of w' = []
    \<and> sent w' = sent w @ map sdo_frame config_requests @ [nmt_frame NMT_STARTREMOTENODE]
    \<and> length config_requests = 24"
proof -
  have cons: "config_requests = hd config_requests # tl config_requests"
    by (simp add: config_requests_def)
  from net_preoperational [OF assms] obtain w1 where
    w1: "mch_net_handle_event EV_NET_PREOPERATIONAL w = Inr w1"
      "net_state_of w1 = ST_NET_PREOPERATIONAL" "sdo_state_of w1 = ST_SDO_SENDING"
      "sdo_active_of w1 = Some (hd config_requests)" "sdo_queue_of w1 = tl config_requests"
      "sdo_armed (interface w1) (hd config_requests)"
      "sent w1 = sent w @ [sdo_frame (hd config_requests)]" by blast
  have "\<exists>w'. run_steps (map write_ack (hd config_requests # tl config_requests)) w1 = Inr w'
    \<and> net_state_of w' = ST_NET_STARTREMOTENODE \<and> sdo_queue_of w' = []
    \<and> sent w' = sent w1 @ map sdo_frame (tl config_requests) @ [nmt_frame NMT_STARTREMOTENODE]"
    by (rule write_acks [OF w1(3-6,2)])
      (simp_all add: config_requests_def setup_request_def write_request_def)
  moreover have "map sdo_frame config_requests = sdo_frame (hd config_requests) # map sdo_frame (tl config_requests)"
    by (subst cons) simp
  moreover have "length config_requests = 24" by (simp add: config_requests_def)
  ultimately show ?thesis unfolding cons [symmetric] using w1(1,7) by auto
qed

theorem config_upload_witness:
  "\<exists>w'. run_steps (mch_net_handle_event EV_NET_PREOPERATIONAL # map write_ack config_requests)
      (sample_net_env ST_NET_UNKNOWN ST_DS_DISABLED mch_sdo_create) = Inr w'
    \<and> net_state_of w' = ST_NET_STARTREMOTENODE"
  using config_upload [of "sample_net_env ST_NET_UNKNOWN ST_DS_DISABLED mch_sdo_create"]
  by (auto simp: sdo_poisoned_def mch_sdo_create_def)

section \<open>Losing the network\<close>

text \<open>
  C33: losing the network while the configuration is being uploaded ends the server. If the
  watchdog fires in \<^verbatim>\<open>PREOPERATIONAL\<close> while a request that carries an abort callback (as all of the
  configuration do) still waits in the queue, the queue is kept, and when the drive is
  pre-operational again, enabling the SDO machine calls the abort callback: the process exits.
\<close>

theorem reconnect_during_upload_exits:
  assumes "net_inv w" and "net_state_of w = ST_NET_PREOPERATIONAL"
    and "sdo_state_of w = ST_SDO_SENDING" and "sdo \<in> set (sdo_queue_of w)"
    and "abort_callback sdo \<noteq> None"
  shows "run_steps (map mch_net_handle_event [EV_NET_WATCHDOG_FAILED, EV_NET_PREOPERATIONAL]) w
    = Inl (Exit 1)"
proof -
  let ?w1 = "set_sdo_state ST_SDO_DISABLED (set_net_state ST_NET_UNKNOWN w)"
  from assms have h: "net_handlers_set w" by (simp add: net_inv_def)
  obtain w2 where w2: "send_nmt NMT_ENTERPREOPERATIONAL ?w1 = Inr w2"
    and q: "mch_sdo w2 = mch_sdo ?w1" "mch_net w2 = mch_net ?w1"
    by (simp add: send_nmt_def intf_send_nmt_command_def intf_write_def driver_call_def Let_def)
  have "mch_net_handle_event EV_NET_WATCHDOG_FAILED w = Inr w2"
    using assms(2,3) h w2
    by (simp add: net_machine.handle_changed mch_net_on_exit_def mch_net_on_enter_def
        net_handlers_set_def mch_net_on_sdos_disabled_def sdo_disable_eq)
  moreover have st: "net_state_of w2 = ST_NET_UNKNOWN" and h2: "net_handlers_set w2"
    using h by (simp_all add: q set_sdo_state_def net_handlers_set_def)
  have "sdo_poisoned w2" using assms(4,5) by (auto simp: sdo_poisoned_def q set_sdo_state_def)
  then have "mch_net_handle_event EV_NET_PREOPERATIONAL w2 = Inl (Exit 1)"
    using st h2 net_enter_poisoned [of "set_net_state ST_NET_PREOPERATIONAL w2"]
    by (simp add: net_machine.handle_changed mch_net_on_exit_def)
  ultimately show ?thesis by simp
qed

theorem reconnect_during_upload_exits_witness:
  "\<exists>w. mch_net_handle_event EV_NET_PREOPERATIONAL
      (sample_net_env ST_NET_UNKNOWN ST_DS_DISABLED mch_sdo_create) = Inr w
    \<and> run_steps (map mch_net_handle_event [EV_NET_WATCHDOG_FAILED, EV_NET_PREOPERATIONAL]) w
      = Inl (Exit 1)"
proof -
  let ?w = "sample_net_env ST_NET_UNKNOWN ST_DS_DISABLED mch_sdo_create"
  have inv: "net_inv ?w" by (rule sample_net_inv) (simp_all add: mch_sdo_create_def)
  have np: "\<not> sdo_poisoned ?w" by (simp add: sdo_poisoned_def mch_sdo_create_def)
  from net_preoperational [of ?w] np obtain w where
    w: "mch_net_handle_event EV_NET_PREOPERATIONAL ?w = Inr w" "net_state_of w = ST_NET_PREOPERATIONAL"
      "sdo_state_of w = ST_SDO_SENDING" "sdo_queue_of w = tl config_requests"
    by (auto simp: mch_sdo_create_def)
  have "net_inv w" using net_handle [OF inv, of EV_NET_PREOPERATIONAL] np w(1)
    by (auto simp: net_exits_def split: if_splits)
  moreover have "last config_requests \<in> set (sdo_queue_of w)"
    and "abort_callback (last config_requests) \<noteq> None"
    by (simp_all add: w(4) config_requests_def setup_request_def write_request_def)
  ultimately show ?thesis using reconnect_during_upload_exits [OF _ w(2,3)] w(1) by blast
qed

text \<open>
  A node that is found stopped is never used again. Entering \<^verbatim>\<open>STOPPED\<close> sends the command to
  start the node, but whatever the node then reports (operational, pre-operational, stopped), and
  also when the watchdog fires, the machine stays in \<^verbatim>\<open>STOPPED\<close>: only closing the interface leaves it.
\<close>

lemma stopped_is_final:
  assumes "net_state_of w = ST_NET_STOPPED" and "EV_NET_INTF_CLOSED \<notin> set es"
  shows "run_steps (map mch_net_handle_event es) w = Inr w"
proof (rule net_machine.stuck_run [where E = "- {EV_NET_INTF_CLOSED}"])
  show "set es \<subseteq> - {EV_NET_INTF_CLOSED}" using assms(2) by auto
qed (use assms(1) in simp_all)

end
