(* ===== verification/Plant_Frame.thy ===== *)
theory Plant_Frame
  imports Mch_Net
begin

text \<open>
  What the events of the motion, drive and network machine leave alone. All three act on the rest
  of the program through SDO requests, NMT frames and the profile table only; so a predicate that
  these respect is kept by every event. The contract is the locale \<open>plant_frame\<close>; it is used for
  the device and handlers of the interface, and for the consistency of profile table and queue.
\<close>

section \<open>Well-formed requests\<close>

text \<open>
  A request whose callbacks can be called: none is a read callback, and the callback of a profile
  comes with an entry of the profile table.
\<close>

definition request_ok :: "sdo_t \<Rightarrow> bool" where
  "request_ok r \<longleftrightarrow> \<not> read_callback r
     \<and> (write_callback r = Some On_success_callback \<longrightarrow>
         (case sdo_dat r of Data_profile i \<Rightarrow> i < MAX_PROFILES | _ \<Rightarrow> False))"

lemma request_ok_plain [simp]:
  "request_ok (plain_write index subindex val sz)"
  "request_ok (plain_read index subindex)"
  "request_ok (setup_request final index subindex val sz)"
  "request_ok (copy_request from to)"
  by (simp_all add: request_ok_def plain_write_def plain_read_def setup_request_def write_request_def
      copy_request_def)

lemma request_ok_field [simp]: "request_ok (field_request i f v) \<longleftrightarrow> i < MAX_PROFILES"
  by (simp add: request_ok_def field_request_def write_request_def)

lemma config_requests_ok: "r \<in> set config_requests \<Longrightarrow> request_ok r"
  by (auto simp: config_requests_def)

section \<open>The contract\<close>

locale plant_frame =
  fixes P :: "'z net_env_scheme \<Rightarrow> bool"
  assumes sdo_event: "keeps P (mch_sdo_handle_event e)"
    and request: "request_ok r \<Longrightarrow> keeps P (queue_sdo r)"
    and nmt_command: "keeps P (send_nmt command)"
    and mp_state: "P (set_mp_state s1 w) = P w"
    and ds_state: "P (set_ds_state s2 w) = P w"
    and net_state: "P (set_net_state s3 w) = P w"
    and reset: "P w \<Longrightarrow> P (sled_profiles_reset w)"
begin

lemmas requests = mch_sdo_queue_write_eq mch_sdo_queue_read_eq mch_mp_send_mode_switch_def
  mch_mp_send_control_word_def mch_ds_send_control_word_def

lemma queued: "request_ok r \<Longrightarrow> queue_sdo r w = Inr w' \<Longrightarrow> P w \<Longrightarrow> P w'"
  using request by (blast dest: keepsD)

lemma mp_out: "keeps P mch_mp_on_exit" "keeps P mch_mp_on_enter"
  by (auto intro!: keepsI simp: mch_mp_on_exit_def mch_mp_on_enter_def requests
      split: mch_mp_state_t.splits elim!: queued [rotated])

lemma mp_event: "keeps P (mch_mp_handle_event e)"
  by (rule mp_machine.handle_keeps [OF mp_out(1)]) (metis keepsD mp_out(2) mp_state)

lemma ds_out: "keeps P mch_ds_on_exit" "keeps P mch_ds_on_enter"
  by (auto intro!: keepsI simp: mch_ds_on_exit_def mch_ds_on_enter_def requests when_step_def
      mch_ds_on_operation_enabled_def mch_ds_on_operation_disabled_def
      split: mch_ds_state_t.splits if_splits elim!: queued [rotated] keepsD [OF mp_event, rotated])

lemma ds_event: "keeps P (mch_ds_handle_event e)"
  by (rule ds_machine.handle_keeps [OF ds_out(1)]) (metis keepsD ds_out(2) ds_state)

lemma queue_setup: "keeps P mch_net_queue_setup"
  unfolding queue_setup_eq by (intro keeps_run_steps) (auto intro: request config_requests_ok)

lemma enter_operational: "keeps P mch_net_on_enter_operational"
  unfolding mch_net_on_enter_operational_def
  by (rule keepsI) (metis keepsD ds_event reset)

lemma net_out: "keeps P mch_net_on_exit" "keeps P mch_net_on_enter"
proof -
  show "keeps P mch_net_on_exit"
    by (rule keepsI) (auto simp: mch_net_on_exit_def mch_net_on_leave_operational_def when_step_def
        split: mch_net_state_t.splits if_splits dest: keepsD [OF ds_event])
  have d: "keeps P (when_step b mch_net_on_sdos_disabled)"
    "keeps P (when_step b mch_net_on_sdos_enabled)"
    "keeps P (when_step b mch_net_on_enter_operational)" for b
    unfolding mch_net_on_sdos_disabled_def mch_net_on_sdos_enabled_def
    by (intro keeps_when sdo_event enter_operational)+
  show "keeps P mch_net_on_enter"
  proof (rule keepsI)
    fix w w' assume p: "P w" and e: "mch_net_on_enter w = Inr w'"
    have two: "run_steps [f, g] w = Inr w' \<Longrightarrow> keeps P f \<Longrightarrow> keeps P g \<Longrightarrow> P w'"
      for f g using p by (auto simp: bind_outcome_eq_Inr dest: keepsD)
    have one: "f w = Inr w' \<Longrightarrow> keeps P f \<Longrightarrow> P w'" for f using p by (auto dest: keepsD)
    show "P w'"
      using e
      by (cases "net_state_of w")
        (simp_all add: mch_net_on_enter_def del: run_steps.simps,
         (erule two one; intro d queue_setup nmt_command)+)
  qed
qed

lemma net_event: "keeps P (mch_net_handle_event e)"
  by (rule net_machine.handle_keeps [OF net_out(1)]) (metis keepsD net_out(2) net_state)

end

section \<open>Device and handlers\<close>

text \<open>
  The part of the interface record that the machines inside never touch: the device and the
  handlers. Only the SDO callbacks are theirs.
\<close>

definition port :: "intf_t \<Rightarrow> nat \<times> int \<times> bool \<times> bool \<times> bool \<times> bool" where
  "port i = (handle i, fd i, read_event i, nmt_state_handler i, tpdo_handler i, close_handler i)"

definition port_is :: "nat \<times> int \<times> bool \<times> bool \<times> bool \<times> bool \<Rightarrow> 'z io_env_scheme \<Rightarrow> bool" where
  "port_is c w \<longleftrightarrow> port (interface w) = c"

lemma port_send [simp]: "port (interface (mch_sdo_send sdo w)) = port (interface w)"
  by (simp add: mch_sdo_send_def intf_send_write_req_def intf_send_read_req_def intf_write_def
      driver_call_def set_interface_def port_def Let_def)

lemma port_simps [simp]:
  "port_is c (push_sdo sdo w) = port_is c w"
  "port_is c (set_sdo_state s w) = port_is c w"
  "port_is c (w\<lparr>mch_sdo := m\<rparr>) = port_is c w"
  "port_is c (mch_sdo_send sdo w) = port_is c w"
  by (simp_all add: port_is_def push_sdo_def)

text \<open>A predicate that holds of the SDO machine's own steps is kept by all its events.\<close>

lemma sdo_event_keeps:
  assumes "\<And>s w. P w \<Longrightarrow> P (set_sdo_state s w)"
    and "\<And>w. P w \<Longrightarrow> P (w\<lparr>mch_sdo := (mch_sdo w)\<lparr>sdo_queue := []\<rparr>\<rparr>)"
    and "\<And>w sdo rest. P w \<Longrightarrow> sdo_queue_of w = sdo # rest \<Longrightarrow>
      P (mch_sdo_send sdo (w\<lparr>mch_sdo := (mch_sdo w)\<lparr>sdo_active := Some sdo, sdo_queue := rest\<rparr>\<rparr>))"
  shows "keeps P (mch_sdo_handle_event e)"
proof (rule sdo_machine.handle_keeps)
  show "keeps P mch_sdo_on_exit"
    by (rule keepsI) (auto simp: mch_sdo_on_exit_def mch_sdo_clear_queue_eq assms(2)
        split: mch_sdo_state_t.splits if_splits)
next
  have sending: "P w \<Longrightarrow> sdo_state_of w = ST_SDO_SENDING \<Longrightarrow> mch_sdo_on_enter w = Inr w' \<Longrightarrow> P w'"
    for w w' by (auto simp: mch_sdo_on_enter.simps assms(3) split: list.splits)
  fix w s w' assume p: "P w" and e: "mch_sdo_on_enter (set_sdo_state s w) = Inr w'"
  show "P w'"
  proof (cases "s = ST_SDO_WAITING \<and> sdo_queue_of w \<noteq> []")
    case True
    with e have "mch_sdo_on_enter (set_sdo_state ST_SDO_SENDING (set_sdo_state ST_SDO_WAITING w)) = Inr w'"
      by (simp add: mch_sdo_on_enter.simps [of "set_sdo_state ST_SDO_WAITING w"]
          sdo_machine.handle_changed mch_sdo_on_exit_def)
    then show ?thesis using sending assms(1) p by (metis set_sdo_state_simps(1))
  next
    case False
    with e p sending [OF assms(1) [OF p], of s w'] show ?thesis
      by (cases s) (auto simp: mch_sdo_on_enter.simps assms(1))
  qed
qed

lemma queue_keeps:
  assumes "\<And>e. keeps P (mch_sdo_handle_event e)" and "\<And>w. P w \<Longrightarrow> P (push_sdo r w)"
  shows "keeps P (queue_sdo r)"
  by (rule keepsI) (metis queue_sdo_def assms keepsD)

interpretation port_frame: plant_frame "port_is c" for c
proof
  show s: "keeps (port_is c) (mch_sdo_handle_event e)" for e
    by (rule sdo_event_keeps) simp_all
  show "keeps (port_is c) (queue_sdo r)" for r
    by (rule queue_keeps [OF s]) simp
qed (auto intro!: keepsI simp: port_is_def set_mp_state_def set_ds_state_def
    sled_profiles_reset_def send_nmt_def intf_send_nmt_command_def frame_simps)

section \<open>Profile table and queue\<close>

text \<open>
  The table has its 99 entries with their numbers, every link is a possible index or negative, and
  every request can be answered.
\<close>

definition links_ok :: "'z profile_env_scheme \<Rightarrow> bool" where
  "links_ok w \<longleftrightarrow> (\<forall>p \<in> set (profiles w). next_profile p < int MAX_PROFILES)"

definition requests_ok :: "'z sdo_env_scheme \<Rightarrow> bool" where
  "requests_ok w \<longleftrightarrow> (\<forall>r \<in> set (sdo_queue_of w) \<union> set_option (sdo_active_of w). request_ok r)"

definition prof_inv :: "'z profile_env_scheme \<Rightarrow> bool" where
  "prof_inv w \<longleftrightarrow> table_ok w \<and> links_ok w \<and> requests_ok w"

lemma prof_inv_cong:
  assumes "profiles w' = profiles w" and "requests_ok w \<Longrightarrow> requests_ok w'"
  shows "prof_inv w \<Longrightarrow> prof_inv w'"
  using assms by (simp add: prof_inv_def table_ok_def links_ok_def)

lemma prof_inv_reset: "prof_inv w \<Longrightarrow> prof_inv (sled_profiles_reset w)"
  by (auto simp: prof_inv_def table_ok_def links_ok_def requests_ok_def sled_profiles_reset_def
      sled_profile_mark_as_unsaved_def)

lemma send_profiles [simp]: "profiles (mch_sdo_send sdo w) = profiles w"
  by (rule profile_env_of_sdo_more(1)) simp

interpretation prof_frame: plant_frame prof_inv
proof
  show s: "keeps (prof_inv :: 'a net_env_scheme \<Rightarrow> bool) (mch_sdo_handle_event e)" for e
    by (rule sdo_event_keeps; erule prof_inv_cong [rotated 2])
      (auto simp: set_sdo_state_def requests_ok_def)
  show "keeps (prof_inv :: 'a net_env_scheme \<Rightarrow> bool) (queue_sdo r)" if "request_ok r" for r
    by (rule queue_keeps [OF s]; erule prof_inv_cong [rotated 2])
      (use that in \<open>auto simp: push_sdo_def requests_ok_def\<close>)
  show "keeps (prof_inv :: 'a net_env_scheme \<Rightarrow> bool) (send_nmt command)" for command
    by (rule keepsI) (auto elim!: prof_inv_cong [rotated 2] simp: send_nmt_def requests_ok_def
        intf_send_nmt_command_def intf_write_def driver_call_def Let_def)
qed (auto simp: prof_inv_reset, auto simp: prof_inv_def table_ok_def links_ok_def requests_ok_def
    set_mp_state_def set_ds_state_def)

end
