(* ===== verification/Mch_Intf.thy ===== *)
theory Mch_Intf
  imports Plant_Frame
begin

text \<open>
  The interface machine, \<^verbatim>\<open>libsled/machines/mch_intf.cc\<close>, together with the functions of
  \<^verbatim>\<open>libsled/interface.cc\<close> it is mutually recursive with: entering \<^verbatim>\<open>OPENING\<close> opens the device,
  closing the device calls the close handler, which is an event of the machine again.
\<close>

section \<open>Data\<close>

datatype mch_intf_state_t = ST_INTF_CLOSED | ST_INTF_OPENED | ST_INTF_OPENING | ST_INTF_CLOSING

datatype mch_intf_event_t = EV_INTF_OPEN | EV_INTF_CLOSE | EV_INTF_OPENED | EV_INTF_CLOSED

record mch_intf_t =
  intf_state :: mch_intf_state_t
  opened_handler :: bool
  closed_handler :: bool

record intf_env = net_env +
  mch_intf :: mch_intf_t

definition mch_intf_create :: mch_intf_t where
  "mch_intf_create = \<lparr>intf_state = ST_INTF_CLOSED, opened_handler = False, closed_handler = False\<rparr>"

abbreviation intf_state_of :: "'z intf_env_scheme \<Rightarrow> mch_intf_state_t" where
  "intf_state_of w \<equiv> intf_state (mch_intf w)"

definition set_intf_state :: "mch_intf_state_t \<Rightarrow> 'z intf_env_scheme \<Rightarrow> 'z intf_env_scheme" where
  "set_intf_state s w = w\<lparr>mch_intf := (mch_intf w)\<lparr>intf_state := s\<rparr>\<rparr>"

section \<open>The machine\<close>

fun mch_intf_next_state_given_event ::
    "mch_intf_state_t \<Rightarrow> mch_intf_event_t \<Rightarrow> mch_intf_state_t" where
  "mch_intf_next_state_given_event ST_INTF_CLOSED event =
     (if event = EV_INTF_OPEN then ST_INTF_OPENING else ST_INTF_CLOSED)"
| "mch_intf_next_state_given_event ST_INTF_OPENING event =
     (if event = EV_INTF_OPENED then ST_INTF_OPENED else ST_INTF_OPENING)"
| "mch_intf_next_state_given_event ST_INTF_CLOSING event =
     (if event = EV_INTF_CLOSED then ST_INTF_CLOSED else ST_INTF_CLOSING)"
| "mch_intf_next_state_given_event ST_INTF_OPENED event =
     (if event = EV_INTF_CLOSE then ST_INTF_CLOSING else ST_INTF_OPENED)"

definition mch_intf_on_opened :: "'z intf_env_scheme action" where
  "mch_intf_on_opened = mch_net_handle_event EV_NET_INTF_OPENED"

definition mch_intf_on_closed :: "'z intf_env_scheme action" where
  "mch_intf_on_closed = mch_net_handle_event EV_NET_INTF_CLOSED"

definition mch_intf_on_exit :: "'z intf_env_scheme action" where
  "mch_intf_on_exit w = Inr w"

text \<open>Ranks for the termination of the mutual recursion: how much a call can still set off.\<close>

definition intf_event_rank :: "mch_intf_event_t \<Rightarrow> mch_intf_state_t \<Rightarrow> nat" where
  "intf_event_rank e s =
     (if e = EV_INTF_OPEN then 10
      else if e = EV_INTF_CLOSE then (if s = ST_INTF_OPENED then 6 else 0)
      else 2)"

definition intf_enter_rank :: "mch_intf_state_t \<Rightarrow> nat" where
  "intf_enter_rank s = (if s = ST_INTF_OPENING then 9 else if s = ST_INTF_CLOSING then 5 else 1)"

lemma intf_core_state:
  "(b, w') = intf_close_core w \<Longrightarrow> mch_intf w' = mch_intf w"
  "(r, w') = intf_open_core w \<Longrightarrow> mch_intf w' = mch_intf w"
proof -
  have "mch_intf (snd (intf_close_core w)) = mch_intf w"
    by (simp add: intf_close_core_def driver_call_def set_interface_def Let_def)
  then show "(b, w') = intf_close_core w \<Longrightarrow> mch_intf w' = mch_intf w" by (metis snd_conv)
  have "mch_intf (snd (intf_open_core w)) = mch_intf w"
    by (simp add: intf_open_core_def driver_call_def set_interface_def Let_def split: option.split)
  then show "(r, w') = intf_open_core w \<Longrightarrow> mch_intf w' = mch_intf w" by (metis snd_conv)
qed

lemma intf_rank_step:
  "s \<noteq> mch_intf_next_state_given_event s e \<Longrightarrow>
    intf_enter_rank (mch_intf_next_state_given_event s e) < intf_event_rank e s"
  by (cases s; cases e) (simp_all add: intf_enter_rank_def intf_event_rank_def)

function mch_intf_handle_event :: "mch_intf_event_t \<Rightarrow> 'z intf_env_scheme action"
  and mch_intf_on_enter :: "'z intf_env_scheme action"
  and intf_open :: "'z intf_env_scheme \<Rightarrow> (int \<times> 'z intf_env_scheme) outcome"
  and intf_close :: "'z intf_env_scheme \<Rightarrow> (int \<times> 'z intf_env_scheme) outcome" where
  "mch_intf_handle_event event w =
     (let next_state = mch_intf_next_state_given_event (intf_state_of w) event in
      if intf_state_of w \<noteq> next_state
      then bind_outcome (mch_intf_on_exit w) (\<lambda>w. mch_intf_on_enter (set_intf_state next_state w))
      else Inr w)"
| "mch_intf_on_enter w =
     (case intf_state_of w of
        ST_INTF_OPENING \<Rightarrow>
          bind_outcome (intf_open w) (\<lambda>(r, w).
            if r \<noteq> 0 then mch_intf_handle_event EV_INTF_CLOSED w
            else mch_intf_handle_event EV_INTF_OPENED w)
      | ST_INTF_CLOSING \<Rightarrow>
          bind_outcome (intf_close w) (\<lambda>(r, w). mch_intf_handle_event EV_INTF_CLOSED w)
      | ST_INTF_OPENED \<Rightarrow> when_step (opened_handler (mch_intf w)) mch_intf_on_opened w
      | ST_INTF_CLOSED \<Rightarrow> when_step (closed_handler (mch_intf w)) mch_intf_on_closed w)"
| "intf_open w =
     (let (r, w) = intf_open_core w in
      case r of
        Open_done \<Rightarrow> Inr (0, w)
      | Open_failed \<Rightarrow> Inr (- 1, w)
      | Open_init_failed \<Rightarrow> bind_outcome (intf_close w) (\<lambda>(r, w). Inr (- 1, w)))"
| "intf_close w =
     (let (closed, w) = intf_close_core w in
      if \<not> closed then Inr (- 1, w)
      else if close_handler (interface w)
      then bind_outcome (mch_intf_handle_event EV_INTF_CLOSE w) (\<lambda>w. Inr (0, w))
      else Inr (0, w))"
  by pat_completeness auto

termination
  by (relation "measure (\<lambda>x. case x of
      Inl (Inl (e, w)) \<Rightarrow> intf_event_rank e (intf_state_of w)
    | Inl (Inr w) \<Rightarrow> intf_enter_rank (intf_state_of w)
    | Inr (Inl w) \<Rightarrow> 8
    | Inr (Inr w) \<Rightarrow> Suc (intf_event_rank EV_INTF_CLOSE (intf_state_of w)))")
    (auto simp: set_intf_state_def intf_rank_step intf_core_state,
     auto simp: intf_event_rank_def intf_enter_rank_def)

declare mch_intf_handle_event.simps [simp del] mch_intf_on_enter.simps [simp del]
declare intf_open.simps [simp del] intf_close.simps [simp del]

interpretation intf_machine: event_machine "intf_state_of" set_intf_state
  mch_intf_next_state_given_event mch_intf_on_exit mch_intf_on_enter mch_intf_handle_event
  by unfold_locales (simp_all add: mch_intf_handle_event.simps Let_def)

section \<open>Opening and closing\<close>

text \<open>What the device functions leave alone, and what the invariant of the machines depends on.\<close>

definition same_plant :: "'z intf_env_scheme \<Rightarrow> 'z intf_env_scheme \<Rightarrow> bool" where
  "same_plant w w' \<longleftrightarrow> mch_sdo w' = mch_sdo w \<and> sdo_armed (interface w') = sdo_armed (interface w)
     \<and> close_handler (interface w') = close_handler (interface w) \<and> sdo_env.more w' = sdo_env.more w
     \<and> sent w' = sent w \<and> driver w' = driver w"

lemma sdo_armed_set [simp]:
  "sdo_armed (i\<lparr>handle := h\<rparr>) = sdo_armed i"
  "sdo_armed (i\<lparr>fd := f\<rparr>) = sdo_armed i"
  "sdo_armed (i\<lparr>read_event := b\<rparr>) = sdo_armed i"
  by (simp_all add: sdo_armed_def fun_eq_iff)

lemma intf_core_same:
  "(b, w') = intf_close_core w \<Longrightarrow> same_plant w w'"
  "(r, w') = intf_open_core w \<Longrightarrow> same_plant w w'"
proof -
  have "same_plant w (snd (intf_close_core w))"
    by (simp add: same_plant_def intf_close_core_def driver_call_def set_interface_def Let_def)
  then show "(b, w') = intf_close_core w \<Longrightarrow> same_plant w w'" by (metis snd_conv)
  have "same_plant w (snd (intf_open_core w))"
    by (simp add: same_plant_def intf_open_core_def driver_call_def set_interface_def Let_def
        split: option.split)
  then show "(r, w') = intf_open_core w \<Longrightarrow> same_plant w w'" by (metis snd_conv)
qed

lemma intf_env_of_sdo_more:
  assumes "sdo_env.more w' = sdo_env.more w"
  shows "mch_intf w' = mch_intf w" and "intf_env.more w' = intf_env.more w"
  using assms by (cases w; cases w'; simp)+

lemma same_plant_inv:
  assumes "same_plant w w'"
  shows "net_inv w' = net_inv w" and "mch_intf w' = mch_intf w" and "mch_net w' = mch_net w"
    and "mch_sdo w' = mch_sdo w" and "close_handler (interface w') = close_handler (interface w)"
    and "intf_env.more w' = intf_env.more w"
proof -
  from assms have m: "sdo_env.more w' = sdo_env.more w" and s: "mch_sdo w' = mch_sdo w"
    "sdo_armed (interface w') = sdo_armed (interface w)"
    "close_handler (interface w') = close_handler (interface w)" by (simp_all add: same_plant_def)
  from net_env_of_sdo_more [OF m] s show "net_inv w' = net_inv w"
    by (simp add: net_inv_def ds_inv_def sdo_quiet_def ds_handlers_set_def ds_mp_tied_def
        net_handlers_set_def net_ds_tied_def)
  from intf_env_of_sdo_more [OF m] net_env_of_sdo_more [OF m] s
  show "mch_intf w' = mch_intf w" "mch_net w' = mch_net w" "mch_sdo w' = mch_sdo w"
    "close_handler (interface w') = close_handler (interface w)"
    "intf_env.more w' = intf_env.more w" by simp_all
qed

text \<open>The handlers \<^verbatim>\<open>sled_create\<close> registers, which everything below needs.\<close>

definition intf_wired :: "'z intf_env_scheme \<Rightarrow> bool" where
  "intf_wired w \<longleftrightarrow> opened_handler (mch_intf w) \<and> closed_handler (mch_intf w)
     \<and> close_handler (interface w) \<and> nmt_state_handler (interface w) \<and> tpdo_handler (interface w)"

text \<open>The network machine is enabled exactly while the interface is open.\<close>

definition intf_inv :: "'z intf_env_scheme \<Rightarrow> bool" where
  "intf_inv w \<longleftrightarrow> net_inv w \<and> intf_wired w
     \<and> (net_state_of w \<noteq> ST_NET_DISABLED \<longleftrightarrow> intf_state_of w = ST_INTF_OPENED)"

lemma net_next_disabled_iff:
  "mch_net_next_state_given_event s e = ST_NET_DISABLED \<longleftrightarrow>
     s = ST_NET_DISABLED \<and> e \<noteq> EV_NET_INTF_OPENED \<or> s \<noteq> ST_NET_DISABLED \<and> e = EV_NET_INTF_CLOSED"
  by (cases s) auto

lemma intf_env_of_net_more:
  assumes "net_env.more w' = net_env.more w"
  shows "mch_intf w' = mch_intf w" and "intf_env.more w' = intf_env.more w"
  using assms by (cases w; cases w'; simp)+

lemma set_intf_state_simps [simp]:
  "intf_state_of (set_intf_state s w) = s"
  "opened_handler (mch_intf (set_intf_state s w)) = opened_handler (mch_intf w)"
  "closed_handler (mch_intf (set_intf_state s w)) = closed_handler (mch_intf w)"
  "net_inv (set_intf_state s w) = net_inv w"
  "intf_wired (set_intf_state s w) = intf_wired w"
  "mch_net (set_intf_state s w) = mch_net w"
  "mch_sdo (set_intf_state s w) = mch_sdo w"
  "interface (set_intf_state s w) = interface w"
  "sent (set_intf_state s w) = sent w"
  "driver (set_intf_state s w) = driver w"
  "calls (set_intf_state s w) = calls w"
  "intf_env.more (set_intf_state s w) = intf_env.more w"
  by (simp_all add: set_intf_state_def net_inv_def ds_inv_def sdo_quiet_def ds_handlers_set_def
      ds_mp_tied_def net_handlers_set_def net_ds_tied_def intf_wired_def)

text \<open>An event of the network machine, seen from the interface machine.\<close>

lemma net_in_intf:
  assumes "net_inv w" and "\<not> net_exits e w"
  shows "\<exists>w'. mch_net_handle_event e w = Inr w' \<and> net_inv w'
    \<and> net_state_of w' = mch_net_next_state_given_event (net_state_of w) e
    \<and> mch_intf w' = mch_intf w \<and> intf_env.more w' = intf_env.more w
    \<and> port (interface w') = port (interface w) \<and> intf_wired w' = intf_wired w"
proof -
  from net_handle [OF assms(1), of e] assms(2) obtain w' where
    w': "mch_net_handle_event e w = Inr w'" "net_inv w'"
      "net_state_of w' = mch_net_next_state_given_event (net_state_of w) e"
      "net_env.more w' = net_env.more w" by auto
  have p: "port (interface w') = port (interface w)"
    using keepsD [OF port_frame.net_event, of "port (interface w)" w e w'] w'(1) by (simp add: port_is_def)
  note m = intf_env_of_net_more [OF w'(4)]
  from p m(1) have "intf_wired w' = intf_wired w" by (simp add: intf_wired_def port_def)
  with w' m p show ?thesis by blast
qed

lemma same_plant_wired:
  assumes "same_plant w w'" and "nmt_state_handler (interface w') = nmt_state_handler (interface w)"
    and "tpdo_handler (interface w') = tpdo_handler (interface w)"
  shows "intf_wired w' = intf_wired w"
  using assms same_plant_inv [OF assms(1)] by (simp add: intf_wired_def)

text \<open>What closing the device does to the interface record.\<close>

definition closed_port :: "intf_t \<Rightarrow> bool" where
  "closed_port i \<longleftrightarrow> handle i = 0 \<and> \<not> read_event i"

lemma close_core_facts:
  assumes "intf_close_core w = (b, w')"
  shows "same_plant w w'" and "intf_wired w' = intf_wired w"
    and "b \<longleftrightarrow> handle (interface w) = 0 \<or> CAN_Close (driver w) (calls w) = CAN_ERR_OK (driver w)"
    and "b \<Longrightarrow> closed_port (interface w')" and "\<not> read_event (interface w')"
    and "\<not> b \<Longrightarrow> handle (interface w') = handle (interface w)"
proof -
  show s: "same_plant w w'" using intf_core_same(1) [of b w' w] assms by simp
  show "intf_wired w' = intf_wired w"
    by (rule same_plant_wired [OF s])
      (use assms in \<open>auto simp: intf_close_core_def driver_call_def set_interface_def Let_def
        split: if_splits\<close>)
  show "b \<longleftrightarrow> handle (interface w) = 0 \<or> CAN_Close (driver w) (calls w) = CAN_ERR_OK (driver w)"
    "b \<Longrightarrow> closed_port (interface w')" "\<not> read_event (interface w')"
    "\<not> b \<Longrightarrow> handle (interface w') = handle (interface w)"
    using assms by (auto simp: intf_close_core_def driver_call_def set_interface_def Let_def
        closed_port_def split: if_splits)
qed

lemma intf_enter_closed:
  assumes "net_inv w" and "intf_wired w" and "intf_state_of w = ST_INTF_CLOSED"
  shows "\<exists>w'. mch_intf_on_enter w = Inr w' \<and> intf_inv w' \<and> net_state_of w' = ST_NET_DISABLED
    \<and> intf_state_of w' = ST_INTF_CLOSED \<and> port (interface w') = port (interface w)
    \<and> intf_env.more w' = intf_env.more w"
proof -
  have n: "mch_net_next_state_given_event (net_state_of w) EV_NET_INTF_CLOSED = ST_NET_DISABLED"
    by (simp add: net_next_disabled_iff)
  then have "\<not> net_exits EV_NET_INTF_CLOSED w" by (simp add: net_exits_def)
  from net_in_intf [OF assms(1) this] n obtain w' where
    w': "mch_net_handle_event EV_NET_INTF_CLOSED w = Inr w'" "net_inv w'"
      "net_state_of w' = ST_NET_DISABLED" "mch_intf w' = mch_intf w"
      "intf_env.more w' = intf_env.more w" "port (interface w') = port (interface w)"
      "intf_wired w' = intf_wired w" by auto
  moreover have "mch_intf_on_enter w = Inr w'"
    using assms(2,3) w'(1) by (simp add: mch_intf_on_enter.simps mch_intf_on_closed_def intf_wired_def)
  ultimately show ?thesis using assms(2,3) by (simp add: intf_inv_def)
qed

text \<open>Unless the machine is open, the close handler has no effect.\<close>

lemma intf_close_ignored:
  assumes "intf_state_of w \<noteq> ST_INTF_OPENED"
  shows "\<exists>r w'. intf_close w = Inr (r, w') \<and> same_plant w w' \<and> intf_wired w' = intf_wired w
    \<and> (handle (interface w) = 0 \<longrightarrow> closed_port (interface w'))"
proof -
  obtain b w1 where c: "intf_close_core w = (b, w1)" by fastforce
  note f = close_core_facts [OF c]
  have "mch_intf w1 = mch_intf w" using same_plant_inv(2) [OF f(1)] .
  then have "mch_intf_handle_event EV_INTF_CLOSE w1 = Inr w1"
    using assms by (cases "intf_state_of w") (simp_all add: intf_machine.handle_ignored)
  with c have "\<exists>r. intf_close w = Inr (r, w1)" by (simp add: intf_close.simps)
  with f show ?thesis by blast
qed

lemma intf_close_event:
  assumes "net_inv w" and "intf_wired w" and "intf_state_of w = ST_INTF_OPENED"
  shows "\<exists>w'. mch_intf_handle_event EV_INTF_CLOSE w = Inr w' \<and> intf_inv w'
    \<and> net_state_of w' = ST_NET_DISABLED \<and> intf_state_of w' = ST_INTF_CLOSED
    \<and> intf_env.more w' = intf_env.more w
    \<and> (handle (interface w) = 0 \<longrightarrow> closed_port (interface w'))"
proof -
  let ?v = "set_intf_state ST_INTF_CLOSING w"
  from intf_close_ignored [of ?v] obtain r w1 where
    c: "intf_close ?v = Inr (r, w1)" "same_plant ?v w1" "intf_wired w1 = intf_wired ?v"
      "handle (interface ?v) = 0 \<longrightarrow> closed_port (interface w1)" by auto
  note s = same_plant_inv [OF c(2)]
  let ?u = "set_intf_state ST_INTF_CLOSED w1"
  from intf_enter_closed [of ?u] s(1) c(3) assms obtain w' where
    w': "mch_intf_on_enter ?u = Inr w'" "intf_inv w'" "net_state_of w' = ST_NET_DISABLED"
      "intf_state_of w' = ST_INTF_CLOSED" "port (interface w') = port (interface w1)"
      "intf_env.more w' = intf_env.more w1" by auto
  have "mch_intf_handle_event EV_INTF_CLOSED w1 = Inr w'"
    using s(2) w'(1) by (simp add: intf_machine.handle_changed mch_intf_on_exit_def)
  then have "mch_intf_handle_event EV_INTF_CLOSE w = Inr w'"
    using assms(3) c(1)
    by (simp add: intf_machine.handle_changed mch_intf_on_exit_def mch_intf_on_enter.simps)
  moreover have "handle (interface w) = 0 \<longrightarrow> closed_port (interface w')"
    using c(4) w'(5) by (simp add: closed_port_def port_def)
  ultimately show ?thesis using w' s(6) by simp
qed

text \<open>\<^verbatim>\<open>intf_close\<close>, called when reading from the device failed: success and failure.\<close>

lemma intf_close_opened:
  assumes "intf_inv w" and "intf_state_of w = ST_INTF_OPENED"
  shows "if handle (interface w) = 0 \<or> CAN_Close (driver w) (calls w) = CAN_ERR_OK (driver w)
    then \<exists>w'. intf_close w = Inr (0, w') \<and> intf_inv w' \<and> net_state_of w' = ST_NET_DISABLED
      \<and> intf_state_of w' = ST_INTF_CLOSED \<and> closed_port (interface w')
      \<and> intf_env.more w' = intf_env.more w
    else \<exists>w'. intf_close w = Inr (- 1, w') \<and> same_plant w w' \<and> intf_wired w'
      \<and> handle (interface w') = handle (interface w) \<and> \<not> read_event (interface w')"
proof -
  obtain b w1 where c: "intf_close_core w = (b, w1)" by fastforce
  note f = close_core_facts [OF c] and s = same_plant_inv [OF close_core_facts(1) [OF c]]
  from assms(1) f(2) have h: "net_inv w" "intf_wired w1" "close_handler (interface w1)"
    by (simp_all add: intf_inv_def intf_wired_def)
  show ?thesis
  proof (cases b)
    case True
    from intf_close_event [of w1] h s(1,2) assms(2) obtain w' where
      w': "mch_intf_handle_event EV_INTF_CLOSE w1 = Inr w'" "intf_inv w'"
        "net_state_of w' = ST_NET_DISABLED" "intf_state_of w' = ST_INTF_CLOSED"
        "intf_env.more w' = intf_env.more w1"
        "handle (interface w1) = 0 \<longrightarrow> closed_port (interface w')" by auto
    moreover from True f(4) have "handle (interface w1) = 0" by (simp add: closed_port_def)
    ultimately show ?thesis
      using True c h(3) f(3) s(6) by (simp add: intf_close.simps)
  next
    case False
    with c f h show ?thesis by (simp add: intf_close.simps)
  qed
qed

lemma intf_inv_same:
  assumes "intf_inv w" and "same_plant w w'" and "intf_wired w' = intf_wired w"
  shows "intf_inv w'" and "intf_env.more w' = intf_env.more w"
  using assms same_plant_inv [OF assms(2)] by (simp_all add: intf_inv_def)

lemma intf_close_total:
  assumes "intf_inv w"
  shows "\<exists>r w'. intf_close w = Inr (r, w') \<and> intf_inv w' \<and> intf_env.more w' = intf_env.more w"
proof (cases "intf_state_of w = ST_INTF_OPENED")
  case True
  show ?thesis
  proof (cases "handle (interface w) = 0 \<or> CAN_Close (driver w) (calls w) = CAN_ERR_OK (driver w)")
    case c: True
    with intf_close_opened [OF assms True] obtain w' where
      "intf_close w = Inr (0, w')" "intf_inv w'" "intf_env.more w' = intf_env.more w" by auto
    then show ?thesis by blast
  next
    case c: False
    with intf_close_opened [OF assms True] obtain w' where
      w': "intf_close w = Inr (- 1, w')" "same_plant w w'" "intf_wired w'" by auto
    from w'(3) assms have "intf_wired w' = intf_wired w" by (simp add: intf_inv_def)
    from intf_inv_same [OF assms w'(2) this] w'(1) show ?thesis by blast
  qed
next
  case False
  from intf_close_ignored [OF this] obtain r w' where
    w': "intf_close w = Inr (r, w')" "same_plant w w'" "intf_wired w' = intf_wired w" by blast
  from intf_inv_same [OF assms w'(2,3)] w'(1) show ?thesis by blast
qed

section \<open>Opening\<close>

lemma open_core_facts:
  assumes "intf_open_core w = (r, w')"
  shows "same_plant w w'" and "intf_wired w' = intf_wired w"
proof -
  show s: "same_plant w w'" using intf_core_same(2) [of r w' w] assms by simp
  show "intf_wired w' = intf_wired w"
    by (rule same_plant_wired [OF s])
      (use assms in \<open>auto simp: intf_open_core_def driver_call_def set_interface_def Let_def
        split: if_splits option.splits\<close>)
qed

text \<open>An attempt to open the device from \<^verbatim>\<open>OPENING\<close>: 0 exactly if every driver call succeeded.\<close>

lemma intf_open_opening:
  assumes "intf_state_of w = ST_INTF_OPENING"
  shows "\<exists>r w'. intf_open w = Inr (r, w') \<and> same_plant w w' \<and> intf_wired w' = intf_wired w
    \<and> (r = 0 \<longleftrightarrow> fst (intf_open_core w) = Open_done)"
proof -
  obtain x w1 where o: "intf_open_core w = (x, w1)" by fastforce
  note f = open_core_facts [OF o] and s = same_plant_inv [OF open_core_facts(1) [OF o]]
  show ?thesis
  proof (cases "x = Open_init_failed")
    case False
    with o f show ?thesis by (cases x) (simp_all add: intf_open.simps)
  next
    case True
    from intf_close_ignored [of w1] s(2) assms obtain r w2 where
      w2: "intf_close w1 = Inr (r, w2)" "same_plant w1 w2" "intf_wired w2 = intf_wired w1" by auto
    from f(1) w2(2) have "same_plant w w2" by (simp add: same_plant_def)
    with True o f(2) w2 show ?thesis by (simp add: intf_open.simps)
  qed
qed

lemma intf_open_event:
  assumes "intf_inv w" and "intf_state_of w = ST_INTF_CLOSED"
  shows "\<exists>w'. mch_intf_handle_event EV_INTF_OPEN w = Inr w' \<and> intf_inv w'
    \<and> intf_env.more w' = intf_env.more w
    \<and> (if fst (intf_open_core (set_intf_state ST_INTF_OPENING w)) = Open_done
       then intf_state_of w' = ST_INTF_OPENED \<and> net_state_of w' = ST_NET_UNKNOWN
       else intf_state_of w' = ST_INTF_OPENING \<and> net_state_of w' = ST_NET_DISABLED \<and> sent w' = sent w)"
proof -
  let ?v = "set_intf_state ST_INTF_OPENING w"
  from assms have inv: "net_inv w" "intf_wired w" "net_state_of w = ST_NET_DISABLED"
    by (auto simp: intf_inv_def)
  from intf_open_opening [of ?v] obtain r w1 where
    o: "intf_open ?v = Inr (r, w1)" "same_plant ?v w1" "intf_wired w1 = intf_wired ?v"
      "r = 0 \<longleftrightarrow> fst (intf_open_core ?v) = Open_done" by auto
  note s = same_plant_inv [OF o(2)]
  have e: "mch_intf_handle_event EV_INTF_OPEN w
      = (if r \<noteq> 0 then mch_intf_handle_event EV_INTF_CLOSED w1
         else mch_intf_handle_event EV_INTF_OPENED w1)"
    using assms(2) o(1)
    by (simp add: intf_machine.handle_changed mch_intf_on_exit_def mch_intf_on_enter.simps)
  show ?thesis
  proof (cases "r = 0")
    case True
    let ?u = "set_intf_state ST_INTF_OPENED w1"
    have n: "mch_net_next_state_given_event (net_state_of ?u) EV_NET_INTF_OPENED = ST_NET_UNKNOWN"
      using inv(3) s(3) by simp
    then have "\<not> net_exits EV_NET_INTF_OPENED ?u" by (simp add: net_exits_def)
    from net_in_intf [OF _ this] s(1) inv(1) n obtain w' where
      w': "mch_net_handle_event EV_NET_INTF_OPENED ?u = Inr w'" "net_inv w'"
        "net_state_of w' = ST_NET_UNKNOWN" "mch_intf w' = mch_intf ?u"
        "intf_env.more w' = intf_env.more ?u" "intf_wired w' = intf_wired ?u" by auto
    have "mch_intf_handle_event EV_INTF_OPENED w1 = Inr w'"
      using s(2) w'(1) o(3) inv(2)
      by (simp add: intf_machine.handle_changed mch_intf_on_exit_def mch_intf_on_enter.simps
          mch_intf_on_opened_def intf_wired_def)
    with True e w' o inv(2) s(6) show ?thesis by (simp add: intf_inv_def)
  next
    case False
    then have "mch_intf_handle_event EV_INTF_OPEN w = Inr w1"
      using e s(2) by (simp add: intf_machine.handle_ignored)
    moreover from o(2) have "sent w1 = sent w" by (simp add: same_plant_def)
    ultimately show ?thesis using False o s inv by (simp add: intf_inv_def)
  qed
qed

text \<open>
  The interface machine makes one attempt to open the device. If the driver opens it, the
  network machine starts; if not, the machine stays in \<^verbatim>\<open>OPENING\<close>: the event that reports the
  failure is not handled there, and neither a close nor another open event leaves the state. The
  machines of network, drive and motion stay disabled and nothing is ever sent.
\<close>

lemma open_failure_is_final:
  assumes "intf_inv w" and "intf_state_of w = ST_INTF_CLOSED"
    and "set es \<subseteq> {EV_INTF_OPEN, EV_INTF_CLOSE, EV_INTF_CLOSED}"
  shows "if fst (intf_open_core (set_intf_state ST_INTF_OPENING w)) = Open_done
    then \<exists>w'. mch_intf_handle_event EV_INTF_OPEN w = Inr w' \<and> intf_inv w'
      \<and> intf_state_of w' = ST_INTF_OPENED \<and> net_state_of w' = ST_NET_UNKNOWN
    else \<exists>w'. run_steps (map mch_intf_handle_event (EV_INTF_OPEN # es)) w = Inr w' \<and> intf_inv w'
      \<and> intf_state_of w' = ST_INTF_OPENING \<and> net_state_of w' = ST_NET_DISABLED \<and> sent w' = sent w"
proof -
  from intf_open_event [OF assms(1,2)] obtain w' where
    w': "mch_intf_handle_event EV_INTF_OPEN w = Inr w'" "intf_inv w'"
      "if fst (intf_open_core (set_intf_state ST_INTF_OPENING w)) = Open_done
       then intf_state_of w' = ST_INTF_OPENED \<and> net_state_of w' = ST_NET_UNKNOWN
       else intf_state_of w' = ST_INTF_OPENING \<and> net_state_of w' = ST_NET_DISABLED \<and> sent w' = sent w"
    by blast
  have "intf_state_of w' = ST_INTF_OPENING \<Longrightarrow> run_steps (map mch_intf_handle_event es) w' = Inr w'"
    by (rule intf_machine.stuck_run [OF _ _ assms(3)]) auto
  with w' show ?thesis by simp
qed

text \<open>
  C26: closing the device. When a read fails on an open interface, \<^verbatim>\<open>intf_close\<close> returns 0 exactly
  if the driver closed the device; then the handle is released, no read event is registered, and
  interface, network, drive and motion machine are all shut down. If the driver cannot close it,
  -1 is returned and every machine still counts as running, although nothing is read any more.
\<close>

theorem close_shuts_down:
  assumes "intf_inv w" and "intf_state_of w = ST_INTF_OPENED"
  shows "if handle (interface w) = 0 \<or> CAN_Close (driver w) (calls w) = CAN_ERR_OK (driver w)
    then \<exists>w'. intf_close w = Inr (0, w') \<and> intf_state_of w' = ST_INTF_CLOSED
      \<and> net_state_of w' = ST_NET_DISABLED \<and> ds_state_of w' = ST_DS_DISABLED
      \<and> mp_state_of w' = ST_MP_DISABLED
      \<and> handle (interface w') = 0 \<and> \<not> read_event (interface w')
    else \<exists>w'. intf_close w = Inr (- 1, w') \<and> intf_state_of w' = ST_INTF_OPENED
      \<and> net_state_of w' = net_state_of w \<and> ds_state_of w' = ds_state_of w
      \<and> mp_state_of w' = mp_state_of w
      \<and> handle (interface w') = handle (interface w) \<and> \<not> read_event (interface w')"
proof (cases "handle (interface w) = 0 \<or> CAN_Close (driver w) (calls w) = CAN_ERR_OK (driver w)")
  case True
  with intf_close_opened [OF assms] obtain w' where
    w': "intf_close w = Inr (0, w')" "intf_inv w'" "net_state_of w' = ST_NET_DISABLED"
      "intf_state_of w' = ST_INTF_CLOSED" "closed_port (interface w')" by auto
  have "ds_state_of w' = ST_DS_DISABLED" "mp_state_of w' = ST_MP_DISABLED"
    using w'(2,3) by (auto simp: intf_inv_def net_inv_def net_ds_tied_def ds_inv_def ds_mp_tied_def)
  with True w' show ?thesis by (simp add: closed_port_def)
next
  case False
  with intf_close_opened [OF assms] obtain w' where
    w': "intf_close w = Inr (- 1, w')" "same_plant w w'"
      "handle (interface w') = handle (interface w)" "\<not> read_event (interface w')" by auto
  from w'(2) have m: "sdo_env.more w' = sdo_env.more w" by (simp add: same_plant_def)
  from False w' net_env_of_sdo_more [OF m] intf_env_of_sdo_more [OF m] assms(2) show ?thesis by simp
qed

section \<open>Sample environments\<close>

definition sample_intf :: intf_t where
  "sample_intf = intf_create\<lparr>close_handler := True, nmt_state_handler := True, tpdo_handler := True\<rparr>"

definition sample_intf_env :: "mch_intf_state_t \<Rightarrow> mch_net_state_t \<Rightarrow> can_driver \<Rightarrow> intf_t \<Rightarrow> intf_env" where
  "sample_intf_env s n d i = net_env.extend
     ((sample_net_env n ST_DS_DISABLED mch_sdo_create)\<lparr>driver := d, interface := i\<rparr>)
     \<lparr>mch_intf = \<lparr>intf_state = s, opened_handler = True, closed_handler = True\<rparr>\<rparr>"

lemma sample_intf_simps [simp]:
  "intf_state_of (sample_intf_env s n d i) = s"
  "net_state_of (sample_intf_env s n d i) = n"
  "ds_state_of (sample_intf_env s n d i) = ST_DS_DISABLED"
  "mp_state_of (sample_intf_env s n d i) = ST_MP_DISABLED"
  "mch_sdo (sample_intf_env s n d i) = mch_sdo_create"
  "driver (sample_intf_env s n d i) = d"
  "interface (sample_intf_env s n d i) = i"
  "sent (sample_intf_env s n d i) = []"
  by (simp_all add: sample_intf_env_def net_env.defs sample_net_env_def profile_env.defs ds_env.defs
      sample_ds_simps)

lemma sample_intf_inv:
  assumes "n \<noteq> ST_NET_OPERATIONAL" and "n \<noteq> ST_NET_DISABLED \<longleftrightarrow> s = ST_INTF_OPENED"
    and "close_handler i" and "nmt_state_handler i" and "tpdo_handler i"
  shows "intf_inv (sample_intf_env s n d i)"
proof -
  have "opened_handler (mch_intf (sample_intf_env s n d i))"
    "closed_handler (mch_intf (sample_intf_env s n d i))"
    "ds_handlers_set (sample_intf_env s n d i)" "net_handlers_set (sample_intf_env s n d i)"
    by (simp_all add: sample_intf_env_def net_env.defs sample_net_env_def profile_env.defs
        ds_env.defs sample_ds_simps net_handlers_set_def)
  with assms show ?thesis
    by (auto simp: intf_inv_def net_inv_def ds_inv_def ds_mp_tied_def net_ds_tied_def sdo_quiet_def
        intf_wired_def mch_sdo_create_def)
qed

definition sample_message :: can_rdmsg where
  "sample_message = \<lparr>rd_ID = 0x701, rd_MSGTYPE = 0, rd_LEN = 1, rd_DATA = Bytes8 0x7F 0 0 0 0 0 0 0\<rparr>"

theorem close_shuts_down_witness:
  "\<exists>w'. intf_close (sample_intf_env ST_INTF_OPENED ST_NET_UNKNOWN (sample_driver sample_message)
       (sample_intf\<lparr>handle := 1, fd := 5, read_event := True\<rparr>)) = Inr (0, w')
     \<and> intf_state_of w' = ST_INTF_CLOSED \<and> net_state_of w' = ST_NET_DISABLED"
proof -
  let ?w = "sample_intf_env ST_INTF_OPENED ST_NET_UNKNOWN (sample_driver sample_message)
       (sample_intf\<lparr>handle := 1, fd := 5, read_event := True\<rparr>)"
  have "intf_inv ?w" by (rule sample_intf_inv) (simp_all add: sample_intf_def)
  from close_shuts_down [OF this] show ?thesis by (auto simp: sample_driver_def)
qed

end
