(* ===== verification/Profile_Props.thy ===== *)
theory Profile_Props
  imports Profile_Sync
begin

text \<open>
  Properties of the profile table: the setters keep table and drive in agreement, allocation,
  execution, the accuracy of the conversions, and three schedules in which the drive ends up
  with settings that are not those of the table.
\<close>

section \<open>The operations of the table\<close>

datatype table_op =
    Op_create
  | Op_create_pt double double
  | Op_destroy int
  | Op_set_table int int
  | Op_set_target int position_type_t double double
  | Op_set_next int int double blend_type_t
  | Op_reset

fun table_op_action :: "table_op \<Rightarrow> 'z profile_env_scheme action" where
  "table_op_action Op_create w = Inr (snd (sled_profile_create w))"
| "table_op_action (Op_create_pt pos t) w = Inr (snd (sled_profile_create_pt pos t w))"
| "table_op_action (Op_destroy i) w = Inr (snd (sled_profile_destroy i w))"
| "table_op_action (Op_set_table i tab) w = Inr (snd (sled_profile_set_table i tab w))"
| "table_op_action (Op_set_target i type pos t) w =
     Inr (snd (sled_profile_set_target i type pos t w))"
| "table_op_action (Op_set_next i n d b) w = Inr (snd (sled_profile_set_next i n d b w))"
| "table_op_action Op_reset w = Inr (sled_profiles_reset w)"

text \<open>
  A change of one profile that an agreement survives: the number stays, and a field whose value
  changes is marked.
\<close>

definition marks_changes :: "(sled_profile_t \<Rightarrow> sled_profile_t) \<Rightarrow> bool" where
  "marks_changes g \<longleftrightarrow> (\<forall>p. profile_no (g p) = profile_no p
     \<and> (\<forall>f. field_states (g p) f \<noteq> FIELD_CHANGED \<longrightarrow>
          field_states p f \<noteq> FIELD_CHANGED \<and> (\<forall>n. field_value n f (g p) = field_value n f p)
          \<and> (f = F_FN \<longrightarrow> next_profile (g p) = next_profile p)))"

lemma marks_changesD:
  assumes "marks_changes g"
  shows "profile_no (g p) = profile_no p"
    and "field_states (g p) f \<noteq> FIELD_CHANGED \<Longrightarrow> field_states p f \<noteq> FIELD_CHANGED"
    and "field_states (g p) f \<noteq> FIELD_CHANGED \<Longrightarrow> field_value n f (g p) = field_value n f p"
    and "field_states (g p) f \<noteq> FIELD_CHANGED \<Longrightarrow> f = F_FN \<Longrightarrow>
      next_profile (g p) = next_profile p"
  using assms unfolding marks_changes_def by blast+

lemma marks_changes_comp:
  assumes g: "marks_changes g" and h: "marks_changes h"
  shows "marks_changes (\<lambda>p. h (g p))"
  unfolding marks_changes_def
proof (intro allI conjI impI)
  fix p f n
  show "profile_no (h (g p)) = profile_no p" by (simp only: marks_changesD(1) [OF g] marks_changesD(1) [OF h])
  assume c: "field_states (h (g p)) f \<noteq> FIELD_CHANGED"
  note hc = marks_changesD(2-) [OF h c]
  note gc = marks_changesD(2-) [OF g hc(1)]
  show "field_states p f \<noteq> FIELD_CHANGED" by (rule gc(1))
  show "field_value n f (h (g p)) = field_value n f p" by (simp only: hc(2) gc(2))
  assume "f = F_FN"
  with hc(3) gc(3) show "next_profile (h (g p)) = next_profile p" by simp
qed

lemma marks_changes_id: "marks_changes (\<lambda>p. p)"
  by (simp add: marks_changes_def)

lemma d_neq_False [simp]: "\<not> d_neq a b \<longleftrightarrow> a = b \<and> a \<noteq> NaN"
  by (cases a; cases b) auto

lemma d_neq_self [simp]: "d_neq a a \<longleftrightarrow> a = NaN"
  by (cases a) auto

lemmas field_value_defs = half_time_ms_def sled_profile_get_controlword_def

lemma marks_with_table: "marks_changes (with_table tab)"
proof -
  have "field_value n f (p\<lparr>table_no := tab, field_states := s\<rparr>) = field_value n f p"
    if "f \<noteq> F_TAB" for n f p s using that by (cases f) (simp_all add: field_value_defs)
  then show ?thesis by (auto simp: marks_changes_def with_table_def mark_changed_def)
qed

lemma marks_with_position_type: "marks_changes (with_position_type type)"
proof -
  have "field_value n f (p\<lparr>field_states := s, position_type := type\<rparr>) = field_value n f p"
    if "f \<noteq> F_C" for n f p s using that by (cases f) (simp_all add: field_value_defs)
  then show ?thesis by (auto simp: marks_changes_def with_position_type_def mark_changed_def)
qed

lemma marks_with_position: "marks_changes (with_position pos)"
proof -
  have "field_value n f (p\<lparr>field_states := s, position := pos\<rparr>) = field_value n f p"
    if "f \<noteq> F_P" for n f p s using that by (cases f) (simp_all add: field_value_defs)
  then show ?thesis by (auto simp: marks_changes_def with_position_def mark_changed_def)
qed

lemma marks_with_time: "marks_changes (with_time t)"
proof -
  have "field_value n f (p\<lparr>field_states := s, time := t\<rparr>) = field_value n f p"
    if "f \<noteq> F_ACC" "f \<noteq> F_DEC" for n f p s using that by (cases f) (simp_all add: field_value_defs)
  then show ?thesis by (auto simp: marks_changes_def with_time_def mark_changed_def)
qed

lemma marks_with_next: "marks_changes (with_next n')"
proof -
  have "field_value n f (p\<lparr>field_states := s, next_profile := n'\<rparr>) = field_value n f p"
    if "f \<noteq> F_C" for n f p s using that by (cases f) (simp_all add: field_value_defs)
  then show ?thesis by (auto simp: marks_changes_def with_next_def mark_changed_def)
qed

lemma marks_with_delay: "marks_changes (with_delay d)"
proof -
  have "field_value n f (p\<lparr>field_states := s, delay := d\<rparr>) = field_value n f p"
    if "f \<noteq> F_FT" for n f p s using that by (cases f) (simp_all add: field_value_defs)
  then show ?thesis by (auto simp: marks_changes_def with_delay_def mark_changed_def)
qed

lemma marks_with_blend: "marks_changes (with_blend b)"
proof -
  have "field_value n f (p\<lparr>field_states := s, blend_type := b\<rparr>) = field_value n f p"
    if "f \<noteq> F_C" for n f p s using that by (cases f) (simp_all add: field_value_defs)
  then show ?thesis by (auto simp: marks_changes_def with_blend_def mark_changed_def)
qed

lemma marks_all: "(\<And>p. profile_no (g p) = profile_no p) \<Longrightarrow>
    (\<And>p f. field_states (g p) f = FIELD_CHANGED) \<Longrightarrow> marks_changes g"
  by (simp add: marks_changes_def)

lemma marks_in_use: "marks_changes (\<lambda>p. p\<lparr>in_use := b\<rparr>)"
proof -
  have "field_value n f (p\<lparr>in_use := b\<rparr>) = field_value n f p" for n f p
    by (cases f) (simp_all add: field_value_defs)
  then show ?thesis by (simp add: marks_changes_def)
qed

lemma marks_reset: "marks_changes (\<lambda>p. if in_use p then sled_profile_mark_as_unsaved p else p)"
  by (simp add: marks_changes_def sled_profile_mark_as_unsaved_def)

text \<open>Agreement survives such changes, of any profiles at once.\<close>

lemma agrees_marks:
  assumes g: "\<And>k. k < length (profiles w) \<Longrightarrow> \<exists>g. marks_changes g \<and> profiles w' ! k = g (profiles w ! k)"
    and len: "length (profiles w') = length (profiles w)" and j: "j < length (profiles w)"
    and t: "tasks m0 w' = tasks m0 w" and ag: "agrees m0 w j"
  shows "agrees m0 w' j"
  unfolding agrees_def
proof (intro allI impI)
  fix f v
  assume c: "field_states (profiles w' ! j) f \<noteq> FIELD_CHANGED" and d: "desired w' j f = Inr v"
  from g [OF j] obtain h where h: "marks_changes h" "profiles w' ! j = h (profiles w ! j)" by blast
  note m = marks_changesD(2-) [OF h(1), of "profiles w ! j" f, folded h(2)]
  have no: "profile_no (profiles w' ! k) = profile_no (profiles w ! k)"
    if "k < length (profiles w)" for k using g [OF that] marks_changesD(1) by metis
  have "desired w j f = desired w' j f"
  proof (cases "f = F_FN")
    case True
    with m(3) [OF c] len no show ?thesis
      by (auto simp: desired_def next_number_def get_profile_def Let_def)
  next
    case False
    with m(2) [OF c] show ?thesis by (simp add: desired_def)
  qed
  with d ag m(1) [OF c] t show "tasks m0 w' (201 + j) f = word_of_int v" by (simp add: agrees_def)
qed

lemma agrees_update:
  assumes "marks_changes g" and "j < length (profiles w)" and "agrees m0 w j"
  shows "agrees m0 (update_profile i g w) j"
proof (rule agrees_marks [OF _ _ assms(2) _ assms(3)])
  fix k assume "k < length (profiles w)"
  with assms(1) marks_changes_id
  show "\<exists>h. marks_changes h \<and> profiles (update_profile i g w) ! k = h (profiles w ! k)"
    by (cases "k = i") auto
qed (simp_all add: tasks_def)

lemma free_profile_Some:
  "free_profile ps = Some i \<Longrightarrow> i < length ps \<and> \<not> in_use (ps ! i) \<and> (\<forall>k < i. in_use (ps ! k))"
proof (induction ps arbitrary: i)
  case Nil
  then show ?case by simp
next
  case (Cons p ps)
  then show ?case by (auto simp: less_Suc_eq_0_disj split: if_splits)
qed

lemma free_profile_None: "free_profile ps = None \<longleftrightarrow> (\<forall>p \<in> set ps. in_use p)"
  by (induction ps) auto

definition created_profile :: "nat \<Rightarrow> sled_profile_t \<Rightarrow> sled_profile_t" where
  "created_profile i p = (cleared_profile (int i) True p)\<lparr>in_use := True, never_sent := Some True\<rparr>"

lemma sled_profile_create_eq:
  assumes "length (profiles w) = MAX_PROFILES"
  shows "sled_profile_create w =
    (case free_profile (profiles w) of None \<Rightarrow> (- 1, w)
     | Some i \<Rightarrow> (int i, update_profile i (created_profile i) w))"
proof (cases "free_profile (profiles w)")
  case None
  then show ?thesis by (simp add: sled_profile_create_def)
next
  case (Some i)
  with free_profile_Some [OF Some] assms show ?thesis
    by (simp add: sled_profile_create_def sled_profile_clear_def update_profile_def
        created_profile_def)
qed

lemma agrees_created:
  assumes "table_ok w" and "i < MAX_PROFILES" and "j < MAX_PROFILES" and "agrees m0 w j"
  shows "agrees m0 (update_profile i (\<lambda>p. (created_profile i p)\<lparr>position := pos, time := t\<rparr>) w) j"
    (is "agrees m0 (update_profile i ?c w) j")
proof (rule agrees_marks [where w = w])
  fix k assume k: "k < length (profiles w)"
  let ?h = "\<lambda>p. (?c p)\<lparr>profile_no := profile_no p\<rparr>"
  have "marks_changes ?h"
    by (rule marks_all) (simp_all add: created_profile_def cleared_profile_def
        sled_profile_mark_as_unsaved_def)
  moreover have "?h (profiles w ! i) = ?c (profiles w ! i)"
    using assms(1,2) by (simp add: table_ok_def created_profile_def cleared_profile_def
        sled_profile_mark_as_unsaved_def)
  ultimately show "\<exists>h. marks_changes h \<and> profiles (update_profile i ?c w) ! k = h (profiles w ! k)"
    using marks_changes_id k by (cases "k = i") auto
qed (use assms in \<open>simp_all add: tasks_def table_ok_def\<close>)

lemma created_profile_pt:
  "created_profile i p = (created_profile i p)\<lparr>position := Fin 0, time := Fin 1\<rparr>"
  by (simp add: created_profile_def cleared_profile_def sled_profile_mark_as_unsaved_def)

lemma table_ok_update:
  assumes "table_ok w" and "\<And>p. profile_no p = 201 + int i \<Longrightarrow> profile_no (g p) = 201 + int i"
  shows "table_ok (update_profile i g w)"
proof -
  have "profile_no (profiles (update_profile i g w) ! k) = 201 + int k" if "k < MAX_PROFILES" for k
    using assms that by (cases "k = i") (simp_all add: table_ok_def)
  with assms(1) show ?thesis by (simp add: table_ok_def)
qed

text \<open>Whether the table has its shape and every profile agrees with its motion task.\<close>

definition table_agrees :: "task_memory \<Rightarrow> 'z profile_env_scheme \<Rightarrow> bool" where
  "table_agrees m0 w \<longleftrightarrow> table_ok w \<and> (\<forall>j < MAX_PROFILES. agrees m0 w j)"

lemma table_agrees_update:
  assumes "table_agrees m0 w" and "marks_changes g"
  shows "table_agrees m0 (update_profile i g w)"
proof -
  from assms(1) have t: "table_ok w" and ag: "\<And>j. j < MAX_PROFILES \<Longrightarrow> agrees m0 w j"
    by (simp_all add: table_agrees_def)
  have "agrees m0 (update_profile i g w) j" if "j < MAX_PROFILES" for j
    using that t by (intro agrees_update [OF assms(2) _ ag]) (simp_all add: table_ok_def)
  moreover have "table_ok (update_profile i g w)"
    using t by (rule table_ok_update) (simp add: marks_changesD(1) [OF assms(2)])
  ultimately show ?thesis by (simp add: table_agrees_def)
qed

lemma table_agrees_created:
  assumes "table_agrees m0 w" and "i < MAX_PROFILES"
  shows "table_agrees m0 (update_profile i (\<lambda>p. (created_profile i p)\<lparr>position := pos, time := t\<rparr>) w)"
proof -
  from assms(1) have t: "table_ok w" and ag: "\<And>j. j < MAX_PROFILES \<Longrightarrow> agrees m0 w j"
    by (simp_all add: table_agrees_def)
  have "table_ok (update_profile i (\<lambda>p. (created_profile i p)\<lparr>position := pos, time := t\<rparr>) w)"
    using t by (rule table_ok_update) (simp add: created_profile_def cleared_profile_def
        sled_profile_mark_as_unsaved_def)
  with agrees_created [OF t assms(2)] ag show ?thesis by (simp add: table_agrees_def)
qed

lemma table_agrees_create:
  assumes "table_agrees m0 w"
  shows "table_agrees m0 (snd (sled_profile_create w))"
    and "table_agrees m0 (snd (sled_profile_create_pt pos t w))"
proof -
  from assms have len: "length (profiles w) = MAX_PROFILES" by (simp add: table_agrees_def table_ok_def)
  have "table_agrees m0 (snd (sled_profile_create w))
      \<and> table_agrees m0 (snd (sled_profile_create_pt pos t w))"
  proof (cases "free_profile (profiles w)")
    case None
    with assms len show ?thesis by (simp add: sled_profile_create_pt_def sled_profile_create_eq)
  next
    case (Some i)
    with free_profile_Some len have i: "i < MAX_PROFILES" by fastforce
    have c: "created_profile i = (\<lambda>p. (created_profile i p)\<lparr>position := Fin 0, time := Fin 1\<rparr>)"
      by (rule ext) (rule created_profile_pt)
    have "table_agrees m0 (update_profile i (created_profile i) w)"
      by (subst c) (rule table_agrees_created [OF assms i])
    moreover have "update_profile i (\<lambda>p. p\<lparr>position := pos, time := t\<rparr>)
        (update_profile i (created_profile i) w)
      = update_profile i (\<lambda>p. (created_profile i p)\<lparr>position := pos, time := t\<rparr>) w"
      using i len by (simp add: update_profile_def)
    ultimately show ?thesis using Some len table_agrees_created [OF assms i]
      by (simp add: sled_profile_create_pt_def sled_profile_create_eq)
  qed
  then show "table_agrees m0 (snd (sled_profile_create w))"
    and "table_agrees m0 (snd (sled_profile_create_pt pos t w))" by simp_all
qed

lemma table_agrees_reset:
  assumes "table_agrees m0 w"
  shows "table_agrees m0 (sled_profiles_reset w)"
proof -
  from assms have t: "table_ok w" and ag: "\<And>j. j < MAX_PROFILES \<Longrightarrow> agrees m0 w j"
    by (simp_all add: table_agrees_def)
  have "agrees m0 (sled_profiles_reset w) j" if "j < MAX_PROFILES" for j
  proof (rule agrees_marks [where w = w])
    fix k assume "k < length (profiles w)"
    with marks_reset show "\<exists>h. marks_changes h
        \<and> profiles (sled_profiles_reset w) ! k = h (profiles w ! k)"
      by (auto simp: sled_profiles_reset_def)
  qed (use that t ag in \<open>simp_all add: sled_profiles_reset_def table_ok_def tasks_def sdo_backlog_def\<close>)
  moreover have "table_ok (sled_profiles_reset w)"
    using t by (simp add: table_ok_def sled_profiles_reset_def sled_profile_mark_as_unsaved_def)
  ultimately show ?thesis by (simp add: table_agrees_def)
qed

lemma table_op_keeps: "total_on (table_agrees m0) (table_op_action x)"
proof (rule total_onI)
  fix w :: "'a profile_env_scheme" assume a: "table_agrees m0 w"
  show "\<exists>w'. table_op_action x w = Inr w' \<and> table_agrees m0 w'"
  proof (cases x)
    case (Op_set_target i type pos t)
    have "marks_changes (\<lambda>p. with_time t (with_position pos (with_position_type type p)))"
      by (rule marks_changes_comp [OF marks_changes_comp [OF marks_with_position_type
            marks_with_position] marks_with_time])
    from table_agrees_update [OF a this] a Op_set_target show ?thesis
      by (simp add: sled_profile_set_target_def)
  next
    case (Op_set_next i n d b)
    have "marks_changes (\<lambda>p. with_blend b (with_delay d (with_next n p)))"
      by (rule marks_changes_comp [OF marks_changes_comp [OF marks_with_next marks_with_delay]
            marks_with_blend])
    from table_agrees_update [OF a this] a Op_set_next show ?thesis
      by (simp add: sled_profile_set_next_def)
  qed (simp_all add: a table_agrees_create table_agrees_reset sled_profile_destroy_def
      sled_profile_set_table_def table_agrees_update marks_in_use marks_with_table)
qed

text \<open>
  C18: whatever clients do to the table (creating, destroying and resetting profiles, setting
  target, table and successor, with valid and invalid handles, in any order), a profile field
  that is not marked as changed still has the value that the drive's motion task has.
\<close>

theorem table_ops_keep_agreement:
  assumes "table_agrees m0 w"
  shows "\<exists>w'. run_steps (map table_op_action ops) w = Inr w' \<and> table_agrees m0 w'"
proof -
  have "total_on (table_agrees m0) (run_steps (map table_op_action ops :: 'a profile_env_scheme action list))"
    by (rule total_on_run_steps) (auto simp: table_op_keeps)
  from this assms obtain w' where "run_steps (map table_op_action ops) w = Inr w'" "table_agrees m0 w'"
    by (rule total_onE)
  then show ?thesis by blast
qed

section \<open>Concrete tables\<close>

text \<open>A table as \<^verbatim>\<open>sled_create\<close> leaves it, with profile 0 created, and variants of it.\<close>

definition blank_profile :: sled_profile_t where
  "blank_profile = \<lparr>in_use = False, never_sent = None, profile_no = 0, table_no = 0,
     position_type = pos_absolute, position = NaN, time = NaN, next_profile = 0, delay = NaN,
     blend_type = bln_none, field_states = (\<lambda>f. FIELD_INVALID)\<rparr>"

definition sample_table :: "sled_profile_t list" where
  "sample_table = map (\<lambda>i. cleared_profile (int i) False blank_profile) [0 ..< MAX_PROFILES]"

definition sample_profile_env :: "sled_profile_t list \<Rightarrow> int option \<Rightarrow> profile_env" where
  "sample_profile_env ps c = ds_env.extend (sample_ds_env ST_DS_OPERATION_ENABLED ST_MP_PP_IDLE)
     \<lparr>profiles = ps, current_profile = c\<rparr>"

definition fresh_sample :: profile_env where
  "fresh_sample = sample_profile_env (sample_table[0 := created_profile 0 blank_profile]) None"

definition sent_profile :: "nat \<Rightarrow> sled_profile_t" where
  "sent_profile i = (created_profile i blank_profile)
     \<lparr>never_sent := Some False, field_states := (\<lambda>f. FIELD_WRITTEN)\<rparr>"

definition sent_sample :: profile_env where
  "sent_sample = sample_profile_env
     (sample_table[0 := sent_profile 0, 1 := created_profile 1 blank_profile]) (Some 201)"

lemma sample_env_simps [simp]:
  "profiles (sample_profile_env ps c) = ps"
  "current_profile (sample_profile_env ps c) = c"
  "mp_state_of (sample_profile_env ps c) = ST_MP_PP_IDLE"
  "sdo_quiet (sample_profile_env ps c)"
  "sdo_backlog (sample_profile_env ps c) = []"
  by (simp_all add: sample_profile_env_def ds_env.defs sample_ds_simps sdo_backlog_def)

lemma sample_table_simps [simp]:
  "length sample_table = MAX_PROFILES"
  "i < MAX_PROFILES \<Longrightarrow> sample_table ! i = cleared_profile (int i) False blank_profile"
  by (simp_all add: sample_table_def)

lemma created_simps [simp]:
  "in_use (created_profile i p)" "never_sent (created_profile i p) = Some True"
  "profile_no (created_profile i p) = 201 + int i" "next_profile (created_profile i p) = - 1"
  "field_states (created_profile i p) f = FIELD_CHANGED"
  "profile_no (cleared_profile k u p) = 201 + k"
  by (simp_all add: created_profile_def cleared_profile_def sled_profile_mark_as_unsaved_def)

lemma sent_simps [simp]:
  "in_use (sent_profile i)" "never_sent (sent_profile i) = Some False"
  "profile_no (sent_profile i) = 201 + int i" "next_profile (sent_profile i) = - 1"
  "field_states (sent_profile i) f = FIELD_WRITTEN"
  "position_type (sent_profile i) = pos_absolute" "position (sent_profile i) = Fin 0"
  "time (sent_profile i) = Fin 1"
  by (simp_all add: sent_profile_def created_profile_def cleared_profile_def
      sled_profile_mark_as_unsaved_def)

lemma sample_half_time: "to_int32 (d_add (d_div_const (rnd 1000) 2) (Fin (1 / 2))) = Inr 500"
  by code_simp

lemma created_field_value: "\<exists>v. field_value n f (created_profile i p) = Inr v"
proof -
  have z: "rnd 0 = Fin 0" by (simp add: rnd_def)
  show ?thesis
    by (cases f) (simp_all add: created_profile_def cleared_profile_def z trunc_def int32_range_def
        sled_profile_mark_as_unsaved_def half_time_ms_def sample_half_time)
qed

lemma sent_field_value: "\<exists>v. field_value n f (sent_profile i) = Inr v"
proof -
  have "field_value n f (sent_profile i) = field_value n f (created_profile i blank_profile)"
    by (cases f) (simp_all add: sent_profile_def field_value_defs)
  with created_field_value show ?thesis by simp
qed

lemma fresh_sample_inv: "upload_inv m0 {0} fresh_sample"
proof -
  have t: "table_ok fresh_sample"
    by (auto simp: table_ok_def fresh_sample_def nth_list_update MAX_PROFILES_def)
  have p: "profiles fresh_sample ! 0 = created_profile 0 blank_profile"
    by (simp add: fresh_sample_def MAX_PROFILES_def)
  have d: "\<exists>v. desired fresh_sample 0 f = Inr v" for f
    using created_field_value [of 0 f 0 blank_profile]
    by (cases "f = F_FN") (simp_all add: desired_def p next_number_def)
  have c: "chain_ok {0} fresh_sample" by (simp add: chain_ok_def p d MAX_PROFILES_def)
  have "agrees m0 fresh_sample 0" by (simp add: agrees_def p)
  moreover have "fresh_mode {0} fresh_sample" by (simp add: fresh_mode_def p)
  moreover have "sdo_quiet fresh_sample" by (simp add: fresh_sample_def)
  ultimately show ?thesis using t c by (simp add: upload_inv_def)
qed

text \<open>Two new profiles that follow each other, as the sinusoid has them.\<close>

definition ring_sample :: profile_env where
  "ring_sample = sample_profile_env
     (sample_table[0 := (created_profile 0 blank_profile)\<lparr>next_profile := 1\<rparr>,
        1 := (created_profile 1 blank_profile)\<lparr>next_profile := 0\<rparr>]) None"

lemma relinked_field_value: "\<exists>v. field_value n f ((created_profile i p)\<lparr>next_profile := k\<rparr>) = Inr v"
  using created_field_value [of n f i p] by (cases f) (simp_all add: field_value_defs)

lemma ring_sample_inv: "upload_inv m0 {0, 1} ring_sample"
proof -
  have p: "profiles ring_sample ! 0 = (created_profile 0 blank_profile)\<lparr>next_profile := 1\<rparr>"
      "profiles ring_sample ! Suc 0 = (created_profile 1 blank_profile)\<lparr>next_profile := 0\<rparr>"
      "length (profiles ring_sample) = MAX_PROFILES"
    by (simp_all add: ring_sample_def MAX_PROFILES_def)
  have t: "table_ok ring_sample"
    by (auto simp: table_ok_def ring_sample_def nth_list_update MAX_PROFILES_def)
  have "\<exists>v. desired ring_sample i f = Inr v" if "i = 0 \<or> i = 1" for i f
    using that relinked_field_value [of 0 f]
    by (cases "f = F_FN") (auto simp: desired_def p next_number_def get_profile_def MAX_PROFILES_def)
  then have "chain_ok {0, 1} ring_sample" by (simp add: chain_ok_def p MAX_PROFILES_def)
  moreover have "agrees m0 ring_sample i" if "i \<in> {0, 1}" for i
    using that by (auto simp: agrees_def p)
  moreover have "fresh_mode {0, 1} ring_sample" by (simp add: fresh_mode_def p)
  moreover have "sdo_quiet ring_sample" by (simp add: ring_sample_def)
  ultimately show ?thesis using t by (simp add: upload_inv_def)
qed

lemma ring_sample_reached: "reached ring_sample 0 1"
  by (rule reached_next) (simp_all add: ring_sample_def MAX_PROFILES_def reached_refl
      has_changes_pending_iff)


theorem table_ops_keep_agreement_witness:
  "\<exists>w'. run_steps (map table_op_action [Op_set_target 0 pos_absolute (Fin 1) (Fin 2),
      Op_create, Op_destroy 0, Op_set_next 77 3 NaN bln_after]) fresh_sample = Inr w'
    \<and> table_agrees (\<lambda>_ _. 0) w'"
proof -
  have "table_agrees (\<lambda>_ _. 0) fresh_sample"
    using fresh_sample_inv [of "\<lambda>_ _. 0"]
    by (auto simp: table_agrees_def upload_inv_def agrees_def fresh_sample_def nth_list_update
        cleared_profile_def sled_profile_mark_as_unsaved_def MAX_PROFILES_def)
  from table_ops_keep_agreement [OF this] show ?thesis by blast
qed

section \<open>Execution\<close>

lemma apply_other_frame:
  assumes "index = OB_MOTION_TASK \<or> index = OB_CONTROL_WORD"
  shows "apply_frame m (sdo_frame (plain_write index sub val sz)) = m"
  using assms
  by (elim disjE; simp add: apply_frame_def plain_write_def field_of_index_def all_fields_def
      OB_O_P_def OB_O_V_def OB_O_C_def OB_O_ACC_def OB_O_DEC_def OB_O_TAB_def OB_O_FN_def OB_O_FT_def
      OB_COPY_MOTION_TASK_def OB_MOTION_TASK_def OB_CONTROL_WORD_def)

lemma execute_profile:
  assumes "upload_inv m0 R w" and "nat i \<in> R" and "profile_handle i w"
    and "mp_state_of w = ST_MP_PP_IDLE"
  shows "\<exists>w' rs. sled_profile_execute i w = Inr (0, w')
    \<and> mp_state_of w' = ST_MP_PP_SP_NACK \<and> sdo_quiet w'
    \<and> sdo_backlog w' = sdo_backlog w @ map sdo_frame rs
        @ [write_req_frame OB_MOTION_TASK 0 (word_of_int (201 + i)) 2,
           write_req_frame OB_CONTROL_WORD 0 0x3F 2]
    \<and> (\<forall>f. \<exists>v. desired w (nat i) f = Inr v \<and> tasks m0 w' (201 + nat i) f = word_of_int v)"
proof -
  from assms(3) have i: "0 \<le> i" "nat i < MAX_PROFILES" by (auto simp: profile_handle_def)
  from write_pending_inv [OF assms(1) i(1) assms(2)] obtain w1 rs where
    w1: "sled_profile_write_pending_changes i w = Inr w1" "upload_inv m0 R w1" "prof_ext w rs w1"
      "\<not> pending w1 (nat i)" "\<forall>j. desired w1 j = desired w j" by blast
  from w1(2) i have no: "profile_no (profiles w1 ! nat i) = 201 + i"
    by (simp add: upload_inv_def table_ok_def)
  from prof_ext_quiet [OF w1(3)] obtain w2 where
    w2: "queue_sdo (plain_write OB_MOTION_TASK 0 (word_of_int (201 + i)) 2) w1 = Inr w2"
      "prof_ext w1 [plain_write OB_MOTION_TASK 0 (word_of_int (201 + i)) 2] w2"
    by (rule queue_sdo_prof_ext)
  from prof_ext_quiet [OF w2(2)] obtain w3 where
    w3: "queue_sdo (plain_write OB_CONTROL_WORD 0 0x3F 2) w2 = Inr w3"
      "prof_ext w2 [plain_write OB_CONTROL_WORD 0 0x3F 2] w3"
    by (rule queue_sdo_prof_ext)
  let ?rs = "[plain_write OB_MOTION_TASK 0 (word_of_int (201 + i)) 2, plain_write OB_CONTROL_WORD 0 0x3F 2]"
  have x3: "prof_ext w (rs @ ?rs) w3"
    using prof_ext_trans [OF prof_ext_trans [OF w1(3) w2(2)] w3(2)] by simp
  then have "mp_state_of w3 = ST_MP_PP_IDLE" using assms(4) by (simp add: prof_ext_def)
  with mp_machine.handle_ok [OF prof_ext_quiet [OF w3(2)], of EV_MP_SETPOINT_SET] obtain w4 where
    w4: "mch_mp_handle_event EV_MP_SETPOINT_SET w3 = Inr w4" "sdo_quiet w4"
      "mp_state_of w4 = ST_MP_PP_SP_NACK" by (auto simp: mp_next_def)
  have b4: "sdo_backlog w4 = sdo_backlog w3"
    using mp_machine.handle_log [OF prof_ext_quiet [OF w3(2)] w4(1)] \<open>mp_state_of w3 = ST_MP_PP_IDLE\<close>
    by (simp add: mp_machine.step_out_def mp_next_def)
  have "sled_profile_execute i w = Inr (0, w4)"
    using assms(3,4) w1(1) w2(1) w3(1) w4(1) no
    by (simp add: sled_profile_execute_def mch_sdo_queue_write_eq)
  moreover have "sdo_backlog w4 = sdo_backlog w @ map sdo_frame rs
        @ [write_req_frame OB_MOTION_TASK 0 (word_of_int (201 + i)) 2,
           write_req_frame OB_CONTROL_WORD 0 0x3F 2]"
    using x3 b4 by (simp add: prof_ext_def sdo_frame_def plain_write_def write_request_def)
  moreover have t: "tasks m0 w4 = tasks m0 w1"
    using b4 prof_ext_tasks [OF w2(2), of m0] prof_ext_tasks [OF w3(2), of m0]
    by (simp add: tasks_def apply_other_frame)
  moreover have "\<exists>v. desired w (nat i) f = Inr v \<and> tasks m0 w1 (201 + nat i) f = word_of_int v" for f
  proof -
    from w1(2) assms(2) have "\<exists>v. desired w1 (nat i) f = Inr v" and ag: "agrees m0 w1 (nat i)"
      by (simp_all add: upload_inv_def chain_ok_def)
    then obtain v where v: "desired w1 (nat i) f = Inr v" by blast
    with ag w1(4) have "tasks m0 w1 (201 + nat i) f = word_of_int v"
      by (simp add: agrees_def has_changes_pending_iff)
    with v w1(5) show ?thesis by simp
  qed
  ultimately show ?thesis using w4(2,3) by metis
qed



section \<open>Allocation\<close>

lemma free_profileI:
  assumes "i < length ps" and "\<not> in_use (ps ! i)" and "\<forall>k < i. in_use (ps ! k)"
  shows "free_profile ps = Some i"
proof (cases "free_profile ps")
  case None
  with assms(1,2) show ?thesis by (simp only: free_profile_None) (meson nth_mem)
next
  case (Some k)
  with free_profile_Some [OF Some] assms show ?thesis by (metis linorder_neqE_nat)
qed

text \<open>
  C27: allocation. \<^verbatim>\<open>sled_profile_create\<close> fails exactly when all 99 profiles are in use, and then
  changes nothing; otherwise it returns the lowest index that was not in use, which becomes a
  valid handle of a profile that is to be written completely, and leaves every other profile as
  it is. Destroying it makes the index available again.
\<close>

theorem create_allocates:
  assumes "table_ok w"
  shows "(if \<forall>k < MAX_PROFILES. in_use (profiles w ! k) then sled_profile_create w = (- 1, w)
     else \<exists>i w'. sled_profile_create w = (int i, w') \<and> i < MAX_PROFILES
       \<and> \<not> in_use (profiles w ! i) \<and> (\<forall>k < i. in_use (profiles w ! k))
       \<and> profile_handle (int i) w' \<and> (\<forall>f. field_states (profiles w' ! i) f = FIELD_CHANGED)
       \<and> never_sent (profiles w' ! i) = Some True
       \<and> (\<forall>k. k \<noteq> i \<longrightarrow> profiles w' ! k = profiles w ! k)
       \<and> fst (sled_profile_create (snd (sled_profile_destroy (int i) w'))) = int i)"
proof -
  from assms have len: "length (profiles w) = MAX_PROFILES" by (simp add: table_ok_def)
  show ?thesis
  proof (cases "free_profile (profiles w)")
    case None
    then have "\<forall>k < MAX_PROFILES. in_use (profiles w ! k)"
      using len by (simp only: free_profile_None) (simp add: all_set_conv_all_nth)
    with None len show ?thesis by (simp add: sled_profile_create_eq)
  next
    case (Some i)
    from free_profile_Some [OF Some] len have i: "i < MAX_PROFILES" "\<not> in_use (profiles w ! i)"
      "\<forall>k < i. in_use (profiles w ! k)" by simp_all
    let ?w = "update_profile i (created_profile i) w"
    let ?w2 = "update_profile i (\<lambda>p. p\<lparr>in_use := False\<rparr>) ?w"
    have h: "profile_handle (int i) ?w" using i len by (simp add: profile_handle_def)
    have free2: "free_profile (profiles ?w2) = Some i" by (rule free_profileI) (use i len in simp_all)
    have len2: "length (profiles ?w2) = MAX_PROFILES" using len by simp
    have "snd (sled_profile_destroy (int i) ?w) = ?w2" using h by (simp add: sled_profile_destroy_def)
    then have "fst (sled_profile_create (snd (sled_profile_destroy (int i) ?w))) = int i"
      by (simp only: sled_profile_create_eq [OF len2] free2) simp
    moreover have "sled_profile_create w = (int i, ?w)" using Some len by (simp add: sled_profile_create_eq)
    ultimately show ?thesis using i h len by auto
  qed
qed

theorem create_allocates_witness: "fst (sled_profile_create fresh_sample) = 1"
proof -
  have t: "table_ok fresh_sample" using fresh_sample_inv [of "\<lambda>_ _. 0"] by (simp add: upload_inv_def)
  have u: "\<not> in_use (profiles fresh_sample ! k)" if "0 < k" "k < MAX_PROFILES" for k
    using that by (simp add: fresh_sample_def cleared_profile_def sled_profile_mark_as_unsaved_def)
  have "1 < MAX_PROFILES" by (simp add: MAX_PROFILES_def)
  with u [of 1] have "\<not> (\<forall>k < MAX_PROFILES. in_use (profiles fresh_sample ! k))" by auto
  with create_allocates [OF t] obtain i where i: "fst (sled_profile_create fresh_sample) = int i"
    "\<not> in_use (profiles fresh_sample ! i)" "\<forall>k < i. in_use (profiles fresh_sample ! k)" by auto
  have "in_use (profiles fresh_sample ! 0)" by (simp add: fresh_sample_def MAX_PROFILES_def)
  with i(2) have "i \<noteq> 0" by metis
  moreover have "\<not> 1 < i" using i(3) u [of 1] \<open>1 < MAX_PROFILES\<close> by auto
  ultimately show ?thesis using i(1) by simp
qed

section \<open>Accuracy\<close>

lemma mul_1000_error:
  assumes "\<bar>q\<bar> \<le> 2 ^ 900"
  obtains r where "d_mul (Fin q) (Fin 1000) = Fin r"
    and "\<bar>r - q * 1000\<bar> \<le> \<bar>q * 1000\<bar> / 2 ^ 53 + pow2 (- 1074)"
proof -
  have "\<bar>q * 1000\<bar> \<le> 2 ^ 900 * 1000" using assms by (simp add: abs_mult)
  also have "\<dots> \<le> (2::rat) ^ 1000" by simp
  finally have "\<bar>q * 1000\<bar> \<le> 2 ^ 1000" .
  from rnd_error [OF this] that show ?thesis by (metis d_mul.simps(1))
qed

lemma pow2_tiny: "pow2 (- 1074) \<le> 1 / 2 ^ 60"
proof -
  have "pow2 (- 1074) \<le> pow2 (- 60)" by (rule pow2_mono) simp
  then show ?thesis by (simp add: pow2_def)
qed

lemma position_error:
  assumes "position p = Fin q" and "\<bar>q\<bar> \<le> 2147"
  shows "\<exists>v. field_value n F_P p = Inr v \<and> \<bar>of_int v - q * 1000000\<bar> < 1 + 1 / 1000000"
proof -
  have "\<bar>q\<bar> \<le> 2 ^ 900" using assms(2) by (rule order_trans) simp
  then obtain r where r: "d_mul (Fin q) (Fin 1000) = Fin r"
    "\<bar>r - q * 1000\<bar> \<le> \<bar>q * 1000\<bar> / 2 ^ 53 + pow2 (- 1074)" by (rule mul_1000_error)
  have q3: "\<bar>q * 1000\<bar> \<le> 2147000" using assms(2) by (simp add: abs_mult)
  then have "\<bar>q * 1000\<bar> / 2 ^ 53 \<le> 2147000 / 2 ^ 53" by (intro divide_right_mono) simp_all
  with r(2) pow2_tiny have e1: "\<bar>r - q * 1000\<bar> \<le> 3 / 10000000000" by simp
  with q3 have r3: "\<bar>r\<bar> \<le> 2147001" by linarith
  then have "\<bar>r\<bar> \<le> 2 ^ 900" by (rule order_trans) simp
  then obtain s where s: "d_mul (Fin r) (Fin 1000) = Fin s"
    "\<bar>s - r * 1000\<bar> \<le> \<bar>r * 1000\<bar> / 2 ^ 53 + pow2 (- 1074)" by (rule mul_1000_error)
  have "\<bar>r * 1000\<bar> / 2 ^ 53 \<le> 2147001000 / 2 ^ 53"
    using r3 by (intro divide_right_mono) (simp_all add: abs_mult)
  with s(2) pow2_tiny have "\<bar>s - r * 1000\<bar> \<le> 3 / 10000000" by simp
  with e1 have e2: "\<bar>s - q * 1000000\<bar> \<le> 1 / 1000000" by linarith
  with q3 have "\<bar>s\<bar> \<le> 2147000001" by linarith
  with trunc_error [of s] have "\<bar>of_int (trunc s) :: rat\<bar> < 2147000002" by linarith
  then have "\<bar>trunc s\<bar> < 2147000002" by (metis of_int_abs of_int_less_iff of_int_numeral)
  then have "int32_range (trunc s)" by (simp add: int32_range_def abs_less_iff)
  with assms(1) r(1) s(1) have "field_value n F_P p = Inr (trunc s)" by simp
  moreover from trunc_error [of s] e2 have "\<bar>of_int (trunc s) - q * 1000000\<bar> < 1 + 1 / 1000000"
    by linarith
  ultimately show ?thesis by blast
qed

text \<open>
  C28: the position that is written to the drive. For a position of at most 2147 m in magnitude
  the conversion to an integer of micrometres is defined, and the result differs from the
  position by less than 1.000001 micrometre.
\<close>

theorem position_accuracy:
  assumes "position p = Fin q" and "\<bar>q\<bar> \<le> 2147"
  shows "\<exists>v. field_value n F_P p = Inr v \<and> \<bar>of_int v - q * 1000000\<bar> < 1 + 1 / 1000000"
  by (rule position_error [OF assms])

text \<open>
  The bound is nearly attained: the conversion truncates, so that 4.9 mm, read as a
  \<^verbatim>\<open>double\<close>, is written as 4899 micrometres.
\<close>

theorem position_accuracy_witness:
  "\<exists>v. field_value 0 F_P (sent_profile 0) = Inr v \<and> \<bar>of_int v\<bar> < (1 + 1 / 1000000 :: rat)"
  using position_accuracy [of "sent_profile 0" 0 0] by simp

section \<open>Schedules that lose a setting\<close>

lemma upload_last:
  assumes "table_ok w" and "i < MAX_PROFILES" and "pending w i" and "next_profile (profiles w ! i) < 0"
  shows "sled_profile_write_pending_changes (int i) w = upload_profile i w"
proof -
  from assms have "get_profile (int i) w = Inr (profiles w ! i)"
    by (simp add: table_ok_def get_profile_def)
  with assms(3,4) show ?thesis by (simp add: sled_profile_write_pending_changes.simps [of "int i"])
qed

text \<open>The upload of a profile without successor, with all that the drive is told.\<close>

lemma upload_alone:
  assumes "sdo_quiet w" and t: "table_ok w" and i: "i < MAX_PROFILES" and p: "pending w i" "next_profile (profiles w ! i) < 0"
    and ns: "never_sent (profiles w ! i) = Some ns" "ns \<or> current_profile w \<noteq> None"
    and v: "\<And>f. field_value 0 f (profiles w ! i) = Inr (v f)"
  obtains w' where "sled_profile_write_pending_changes (int i) w = Inr w'" "sdo_quiet w'" "table_ok w'"
    "profiles w' = (profiles w)[i := uploaded (profiles w ! i)]"
    "current_profile w' = (if ns then current_profile w else Some (201 + int i))"
    "\<And>m0. tasks m0 w' = (tasks m0 w)(0 := merged v (profiles w ! i) (upload_base m0 w i),
       201 + i := merged v (profiles w ! i) (upload_base m0 w i))"
proof -
  from t i have len: "i < length (profiles w)" and no: "profile_no (profiles w ! i) = 201 + int i"
    by (simp_all add: table_ok_def)
  have "next_number i w = Inr 0" using p(2) by (simp add: next_number_def)
  from upload_ext [OF assms(1) len ns this v] obtain w' where w': "upload_profile i w = Inr w'"
    "prof_ext w (upload_requests i v (profiles w ! i) (current_profile w)) w'"
    "current_profile w' = (if ns then current_profile w else Some (201 + int i))" unfolding no .
  note pw = upload_profiles [OF w'(1) len]
  have "table_ok w'" using t len by (simp add: table_ok_def pw nth_list_update)
  with w' pw that upload_last [OF t i p] prof_ext_quiet [OF w'(2)] upload_tasks [OF w'(2) t i] show thesis by simp
qed

lemma position_only:
  assumes "profile_handle (int i) w" and "d_neq (position (profiles w ! i)) pos"
    and "\<not> d_neq (time (profiles w ! i)) (time (profiles w ! i))"
  shows "sled_profile_set_target (int i) (position_type (profiles w ! i)) pos (time (profiles w ! i)) w
    = (0, update_profile i (\<lambda>p. mark_changed [F_P] p\<lparr>position := pos\<rparr>) w)"
proof -
  let ?p = "profiles w ! i"
  have "with_time (time ?p) (with_position pos (with_position_type (position_type ?p) ?p))
      = mark_changed [F_P] ?p\<lparr>position := pos\<rparr>"
    using assms(2,3) by (simp add: with_time_def with_position_def with_position_type_def
        mark_changed_def)
  with assms(1) show ?thesis by (simp add: sled_profile_set_target_def update_profile_def)
qed

text \<open>
  C34: the first upload of a profile leaves \<^verbatim>\<open>current_profile\<close> behind. Let a be the profile in task
  0, completely written, and b a new profile. After b is uploaded, \<^verbatim>\<open>current_profile\<close> still names
  a although task 0 holds b; a change of only the position of a is then merged with the settings
  of b: when the drive has processed everything, the motion task of a has the table, the times
  and the blending of b.
\<close>

theorem first_upload_stale_task:
  assumes "sdo_quiet w" and t: "table_ok w"
    and ab: "a < MAX_PROFILES" "b < MAX_PROFILES" "a \<noteq> b"
    and a: "current_profile w = Some (201 + int a)" "never_sent (profiles w ! a) = Some False"
      "\<not> pending w a" "in_use (profiles w ! a)" "next_profile (profiles w ! a) < 0"
    and b: "never_sent (profiles w ! b) = Some True" "next_profile (profiles w ! b) < 0"
      "\<And>f. field_states (profiles w ! b) f = FIELD_CHANGED"
    and va: "\<And>f. field_value 0 f (profiles w ! a) = Inr (va f)"
    and vb: "\<And>f. field_value 0 f (profiles w ! b) = Inr (vb f)"
    and pos: "d_neq (position (profiles w ! a)) pos" "time (profiles w ! a) \<noteq> NaN"
      "to_int32 (d_mul (d_mul pos (Fin 1000)) (Fin 1000)) = Inr x"
  shows "\<exists>w1 w2 w3. sled_profile_write_pending_changes (int b) w = Inr w1
    \<and> sled_profile_set_target (int a) (position_type (profiles w ! a)) pos (time (profiles w ! a)) w1
        = (0, w2)
    \<and> sled_profile_write_pending_changes (int a) w2 = Inr w3
    \<and> (\<forall>f. f \<noteq> F_P \<longrightarrow> tasks m0 w3 (201 + a) f = word_of_int (vb f))"
proof -
  let ?a = "profiles w ! a"
  have pb: "pending w b" using b(3) by (simp add: has_changes_pending_iff)
  from upload_alone [OF assms(1) t ab(2) pb b(2,1) _ vb] obtain w1 where
    w1: "sled_profile_write_pending_changes (int b) w = Inr w1" "sdo_quiet w1" "table_ok w1"
      "profiles w1 = (profiles w)[b := uploaded (profiles w ! b)]" "current_profile w1 = current_profile w"
    and t1: "tasks m0 w1 = (tasks m0 w)(0 := merged vb (profiles w ! b) (upload_base m0 w b),
       201 + b := merged vb (profiles w ! b) (upload_base m0 w b))" by auto
  define w2 where "w2 = update_profile a (\<lambda>p. mark_changed [F_P] p\<lparr>position := pos\<rparr>) w1"
  have a1: "profiles w1 ! a = ?a" using ab(3) by (simp add: w1(4))
  have h: "profile_handle (int a) w1" using a(4) ab by (simp add: profile_handle_def a1)
  have s: "sled_profile_set_target (int a) (position_type ?a) pos (time ?a) w1 = (0, w2)"
    using position_only [OF h, unfolded a1, OF pos(1)] pos(2) by (simp add: w2_def)
  have la: "a < length (profiles w1)" using w1(3) ab(1) by (simp add: table_ok_def)
  have a2: "profiles w2 ! a = mark_changed [F_P] ?a\<lparr>position := pos\<rparr>" using la by (simp add: w2_def a1)
  have f2: "sdo_quiet w2" "current_profile w2 = Some (201 + int a)" "tasks m0 w2 = tasks m0 w1"
    using w1(2,5) a(1) by (simp_all add: w2_def tasks_def)
  have p2: "pending w2 a" "next_profile (profiles w2 ! a) < 0" "never_sent (profiles w2 ! a) = Some False"
    using a(2,5) by (auto simp: has_changes_pending_iff a2 mark_changed_def)
  have t2: "table_ok w2" unfolding w2_def by (rule table_ok_update [OF w1(3)]) (simp add: mark_changed_def)
  have v2: "field_value 0 f (profiles w2 ! a) = Inr ((va(F_P := x)) f)" for f
    using va [of f] pos(3) by (cases f) (simp_all add: a2 mark_changed_def field_value_defs)
  have "False \<or> current_profile w2 \<noteq> None" using f2(2) by simp
  from upload_alone [OF f2(1) t2 ab(1) p2 this v2] obtain w3 where
    w3: "sled_profile_write_pending_changes (int a) w2 = Inr w3"
    and t3: "tasks m0 w3 = (tasks m0 w2)(0 := merged (va(F_P := x)) (profiles w2 ! a) (upload_base m0 w2 a),
       201 + a := merged (va(F_P := x)) (profiles w2 ! a) (upload_base m0 w2 a))" by blast
  have "tasks m0 w3 (201 + a) f = word_of_int (vb f)" if "f \<noteq> F_P" for f
  proof -
    have "field_states (profiles w2 ! a) f \<noteq> FIELD_CHANGED"
      using that a(3) by (simp add: a2 mark_changed_def has_changes_pending_iff)
    then show ?thesis using t1 f2(2,3) b(3) by (simp add: t3 merged_def upload_base_def)
  qed
  with w1(1) s w3 show ?thesis by blast
qed

theorem first_upload_stale_task_witness:
  "\<exists>w1 w2 w3 va vb. sled_profile_write_pending_changes (int 1) sent_sample = Inr w1
    \<and> sled_profile_set_target (int 0) pos_absolute (Fin 1) (Fin 1) w1 = (0, w2)
    \<and> sled_profile_write_pending_changes (int 0) w2 = Inr w3
    \<and> (\<forall>f. field_value 0 f (profiles sent_sample ! 1) = Inr (vb f))
    \<and> (\<forall>f. f \<noteq> F_P \<longrightarrow> tasks (\<lambda>_ _. 0) w3 (201 + 0) f = word_of_int (vb f))"
proof -
  have "profiles sent_sample ! 0 = sent_profile 0"
    and "profiles sent_sample ! 1 = created_profile 1 blank_profile"
    and "sdo_quiet sent_sample" and "current_profile sent_sample = Some (201 + int 0)"
    and "table_ok sent_sample" and "0 < MAX_PROFILES" and "1 < MAX_PROFILES"
    by (auto simp: sent_sample_def MAX_PROFILES_def table_ok_def nth_list_update)
  note f = this
  obtain va where va: "\<And>f. field_value 0 f (sent_profile 0) = Inr (va f)"
    using sent_field_value [of 0 _ 0] by metis
  obtain vb where vb: "\<And>f. field_value 0 f (created_profile 1 blank_profile) = Inr (vb f)"
    using created_field_value [of 0 _ 1 blank_profile] by metis
  have x: "to_int32 (d_mul (rnd 1000) (Fin 1000)) = Inr 1000000" by code_simp
  have "\<exists>w1 w2 w3. sled_profile_write_pending_changes (int 1) sent_sample = Inr w1
    \<and> sled_profile_set_target (int 0) (position_type (profiles sent_sample ! 0)) (Fin 1)
        (time (profiles sent_sample ! 0)) w1 = (0, w2)
    \<and> sled_profile_write_pending_changes (int 0) w2 = Inr w3
    \<and> (\<forall>f. f \<noteq> F_P \<longrightarrow> tasks (\<lambda>_ _. 0) w3 (201 + 0) f = word_of_int (vb f))"
    by (rule first_upload_stale_task [where va = va and x = 1000000])
      (simp_all add: f f(2) [unfolded One_nat_def] f(7) [unfolded One_nat_def] va vb
        vb [unfolded One_nat_def] x has_changes_pending_iff)
  with vb show ?thesis unfolding f by auto
qed

text \<open>
  C35: an acknowledgement that arrives after a setting was changed hides the change. If the
  position of a profile is changed while the write of its old position is in flight, the
  acknowledgement of that write marks the field as written; the profile then has no changes
  pending although the drive has never been sent the new position, and an upload sends nothing.
\<close>

theorem late_ack_loses_position:
  assumes "table_ok w" and "profile_handle (int i) w" and "d_neq (position (profiles w ! i)) pos"
    and "time (profiles w ! i) \<noteq> NaN" and "field_states (profiles w ! i) F_P = FIELD_WRITING"
    and "\<not> pending w i"
  shows "\<exists>w1 w2. sled_profile_set_target (int i) (position_type (profiles w ! i)) pos
        (time (profiles w ! i)) w = (0, w1)
    \<and> pending w1 i
    \<and> on_success_callback i OB_O_P 1 w1 = Inr w2
    \<and> position (profiles w2 ! i) = pos \<and> \<not> pending w2 i
    \<and> sled_profile_write_pending_changes (int i) w2 = Inr w2"
proof -
  from assms(2) have "i < MAX_PROFILES" by (auto simp: profile_handle_def)
  with assms(1) have i: "i < length (profiles w)" by (simp add: table_ok_def)
  define w1 where "w1 = update_profile i (\<lambda>p. mark_changed [F_P] p\<lparr>position := pos\<rparr>) w"
  define w2 where "w2 = update_profile i (\<lambda>p. p\<lparr>field_states := (field_states p)(F_P := FIELD_WRITTEN)\<rparr>) w1"
  have p1: "profiles w1 ! i = mark_changed [F_P] (profiles w ! i)\<lparr>position := pos\<rparr>"
    using i by (simp add: w1_def)
  have p2: "profiles w2 ! i = (profiles w1 ! i)
      \<lparr>field_states := (field_states (profiles w1 ! i))(F_P := FIELD_WRITTEN)\<rparr>"
    using i by (simp add: w2_def w1_def)
  have 1: "sled_profile_set_target (int i) (position_type (profiles w ! i)) pos
      (time (profiles w ! i)) w = (0, w1)"
    using position_only [OF assms(2,3)] assms(4) by (simp add: w1_def)
  have "field_of_index OB_O_P = Some F_P" using field_of_field_index [of F_P] by simp
  then have 2: "on_success_callback i OB_O_P 1 w1 = Inr w2"
    by (simp add: on_success_callback_def sled_profile_set_field_state_def w2_def)
  have np: "\<not> pending w2 i"
    using assms(6) by (auto simp: has_changes_pending_iff p2 p1 mark_changed_def)
  have "i < length (profiles w2)" using i by (simp add: w2_def w1_def)
  then have "sled_profile_write_pending_changes (int i) w2 = Inr w2"
    using np by (simp add: sled_profile_write_pending_changes.simps [of "int i"] get_profile_def)
  moreover have "pending w1 i" by (auto simp: has_changes_pending_iff p1 mark_changed_def)
  moreover have "position (profiles w2 ! i) = pos" by (simp add: p2 p1)
  ultimately show ?thesis using 1 2 np by blast
qed

theorem late_ack_loses_position_witness:
  "\<exists>w1 w2. sled_profile_set_target (int 0) pos_absolute (Fin 1) (Fin 1)
      (sample_profile_env (sample_table[0 := (sent_profile 0)\<lparr>field_states := (\<lambda>f. FIELD_WRITING)\<rparr>])
        (Some 201)) = (0, w1)
    \<and> on_success_callback 0 OB_O_P 1 w1 = Inr w2
    \<and> sled_profile_write_pending_changes (int 0) w2 = Inr w2"
proof -
  define w where "w = sample_profile_env
    (sample_table[0 := (sent_profile 0)\<lparr>field_states := (\<lambda>f. FIELD_WRITING)\<rparr>]) (Some 201)"
  have "profiles w ! 0 = (sent_profile 0)\<lparr>field_states := (\<lambda>f. FIELD_WRITING)\<rparr>" and "table_ok w"
    and "0 < MAX_PROFILES"
    by (auto simp: w_def MAX_PROFILES_def table_ok_def nth_list_update)
  note f = this
  have "\<exists>w1 w2. sled_profile_set_target (int 0) (position_type (profiles w ! 0)) (Fin 1)
        (time (profiles w ! 0)) w = (0, w1)
    \<and> pending w1 0
    \<and> on_success_callback 0 OB_O_P 1 w1 = Inr w2
    \<and> position (profiles w2 ! 0) = Fin 1 \<and> \<not> pending w2 0
    \<and> sled_profile_write_pending_changes (int 0) w2 = Inr w2"
    by (rule late_ack_loses_position)
      (simp_all add: f profile_handle_def has_changes_pending_iff)
  then show ?thesis unfolding f w_def [symmetric] by auto
qed

text \<open>
  \<^verbatim>\<open>sled_create\<close> does not initialise \<^verbatim>\<open>current_profile\<close>. As long as nothing has assigned it, the
  first upload of new profiles works, but the upload of a change of a profile that has been sent
  reads the indeterminate value.
\<close>

lemma reupload_reads_indeterminate:
  assumes "table_ok w" and "i < MAX_PROFILES" and "never_sent (profiles w ! i) = Some False"
    and "pending w i" and "current_profile w = None"
  shows "sled_profile_write_pending_changes (int i) w
    = Inl (Undefined_behaviour Indeterminate_read)"
proof -
  from assms(1,2) have "get_profile (int i) w = Inr (profiles w ! i)"
    by (simp add: table_ok_def get_profile_def)
  moreover have "load_slot i w = Inl (Undefined_behaviour Indeterminate_read)"
    using assms(3,5) by (simp add: load_slot_def read_determined_def Let_def)
  then have "upload_profile i w = Inl (Undefined_behaviour Indeterminate_read)"
    by (simp add: upload_profile_def)
  ultimately show ?thesis
    using assms(4) by (simp add: sled_profile_write_pending_changes.simps [of "int i"])
qed

section \<open>Links that leave the table\<close>

lemma field_value_fails: "field_value n f p = Inl e \<Longrightarrow> e = Undefined_behaviour Unrepresentable"
proof -
  have i: "to_int32 x = Inl e \<Longrightarrow> e = Undefined_behaviour Unrepresentable" for x
    by (cases x) (auto simp: Let_def split: if_splits)
  then have h: "half_time_ms p = Inl e \<Longrightarrow> e = Undefined_behaviour Unrepresentable"
    by (simp add: half_time_ms_def)
  assume "field_value n f p = Inl e"
  with i h show ?thesis
    by (cases f; cases "half_time_ms p") (auto split: if_splits)
qed

lemma write_field_outcome:
  assumes "i < length (profiles w)"
  shows "write_field_if_changed i f (field_value n f) w = Inl (Undefined_behaviour Unrepresentable)
      \<and> (\<exists>e. field_value n f (profiles w ! i) = Inl e)
    \<or> (\<exists>w'. write_field_if_changed i f (field_value n f) w = Inr w')"
proof (cases "field_states (profiles w ! i) f = FIELD_CHANGED")
  case True
  let ?w = "update_profile i (\<lambda>p. p\<lparr>field_states := (field_states p)(f := FIELD_WRITING)\<rparr>) w"
  have "profiles ?w ! i = mark_writing [f] (profiles w ! i)"
    using True assms by (intro sled_profile_t.equality) (auto simp: fun_eq_iff)
  then have v: "field_value n f (profiles ?w ! i) = field_value n f (profiles w ! i)"
    by (simp only: field_value_mark)
  have w: "write_field_if_changed i f (field_value n f) w
      = bind_outcome (field_value n f (profiles w ! i)) (\<lambda>v. queue_sdo (field_request i f v) ?w)"
    using True by (simp only: write_field_if_changed_def Let_def v simp_thms if_True)
  show ?thesis
  proof (cases "field_value n f (profiles w ! i)")
    case (Inl e)
    from field_value_fails [OF Inl] show ?thesis unfolding w Inl by simp
  next
    case (Inr v)
    show ?thesis unfolding w Inr by (simp add: queue_sdo_total)
  qed
qed (simp add: write_field_if_changed_def)

lemma write_fields_outcome:
  assumes "i < length (profiles w)"
  shows "run_steps (map (\<lambda>f. write_field_if_changed i f (field_value n f)) fs) w
        = Inl (Undefined_behaviour Unrepresentable)
      \<and> (\<exists>f \<in> set fs. \<exists>e. field_value n f (profiles w ! i) = Inl e)
    \<or> (\<exists>w'. run_steps (map (\<lambda>f. write_field_if_changed i f (field_value n f)) fs) w = Inr w')"
  using assms
proof (induction fs arbitrary: w)
  case Nil
  then show ?case by simp
next
  case (Cons f fs)
  from write_field_outcome [OF Cons.prems, of f n] show ?case
  proof (elim disjE exE)
    fix w1 assume w1: "write_field_if_changed i f (field_value n f) w = Inr w1"
    note p1 = write_field_profiles [OF w1 Cons.prems]
    have "field_value n g (profiles w1 ! i) = field_value n g (profiles w ! i)" for g
      using Cons.prems by (simp add: p1)
    with Cons.IH [of w1] Cons.prems w1 p1 show ?thesis by auto
  qed auto
qed

lemma load_slot_outcome:
  "load_slot i w = Inl (Undefined_behaviour Indeterminate_read)
      \<and> (never_sent (profiles w ! i) = None
          \<or> never_sent (profiles w ! i) = Some False \<and> current_profile w = None)
    \<or> (\<exists>w'. load_slot i w = Inr w')"
  by (auto simp: load_slot_def read_determined_def copy_motion_task_def queue_sdo_total Let_def
      split: option.splits)

text \<open>What an upload needs besides the link: the values that it reads and converts before.\<close>

definition uploadable :: "'z profile_env_scheme \<Rightarrow> nat \<Rightarrow> bool" where
  "uploadable w i \<longleftrightarrow> never_sent (profiles w ! i) \<noteq> None
     \<and> (never_sent (profiles w ! i) = Some False \<longrightarrow> current_profile w \<noteq> None)
     \<and> (\<forall>f \<in> {F_P, F_ACC, F_DEC}. \<exists>v. field_value 0 f (profiles w ! i) = Inr v)"

lemma upload_bad_link:
  assumes "i < length (profiles w)" and "next_profile (profiles w ! i) \<ge> int (length (profiles w))"
  shows "\<exists>u. upload_profile i w = Inl (Undefined_behaviour u)
    \<and> u \<in> {Out_of_bounds, Indeterminate_read, Unrepresentable}
    \<and> (uploadable w i \<longrightarrow> u = Out_of_bounds)"
proof -
  let ?A = "[F_P, F_V, F_C, F_ACC, F_DEC, F_TAB]"
  let ?fields = "run_steps (map (\<lambda>f. write_field_if_changed i f (field_value 0 f)) ?A)"
  show ?thesis
  proof (cases "load_slot i w")
    case (Inl e)
    with load_slot_outcome [of i w] show ?thesis by (auto simp: upload_profile_def uploadable_def)
  next
    case w1: (Inr w1)
    note p1 = load_slot_profiles [OF w1]
    show ?thesis
    proof (cases "?fields w1")
      case (Inl e)
      with write_fields_outcome [of i w1 0 ?A] assms(1) p1
      have "e = Undefined_behaviour Unrepresentable"
        "\<exists>f \<in> set ?A. \<exists>e. field_value 0 f (profiles w ! i) = Inl e" by auto
      with w1 Inl show ?thesis by (auto simp: upload_profile_def uploadable_def)
    next
      case w2: (Inr w2)
      from write_fields_profiles [OF w2] assms(1) p1
      have p2: "profiles w2 = (profiles w)[i := mark_writing ?A (profiles w ! i)]" by simp
      have "next_number i w2 = Inl (Undefined_behaviour Out_of_bounds)"
        unfolding next_number_cong [OF p2]
        using assms(2) by (simp add: next_number_def get_profile_def Let_def)
      with w1 w2 show ?thesis by (simp add: upload_profile_def)
    qed
  qed
qed

text \<open>
  C21: a link that leaves the table. \<^verbatim>\<open>sled_profile_set_next\<close> checks the profile but not its
  successor: with a handle of a profile in use and any number of 99 or more as a new successor it
  returns 0. The next execution of that profile does not return: it stops with undefined
  behaviour, and if the values that an upload reads and converts before are determined and in
  range, this is the read of \<^verbatim>\<open>profiles\<close> at that number, out of its bounds
  (\<^verbatim>\<open>sled_profile.cc\<close>, line 173).
\<close>

theorem link_out_of_bounds:
  assumes "table_ok w" and "profile_handle i w" and "int MAX_PROFILES \<le> n"
    and "next_profile (profiles w ! nat i) \<noteq> n" and "mp_state_of w = ST_MP_PP_IDLE"
  shows "\<exists>w' u. sled_profile_set_next i n d b w = (0, w')
    \<and> sled_profile_execute i w' = Inl (Undefined_behaviour u)
    \<and> u \<in> {Out_of_bounds, Indeterminate_read, Unrepresentable}
    \<and> (uploadable w (nat i) \<longrightarrow> u = Out_of_bounds)"
proof -
  let ?i = "nat i"
  define w' where "w' = snd (sled_profile_set_next i n d b w)"
  have s: "sled_profile_set_next i n d b w = (0, w')"
    using assms(2) by (simp add: sled_profile_set_next_def w'_def)
  have len: "length (profiles w) = MAX_PROFILES" "?i < length (profiles w)" "0 \<le> i"
    using assms(1,2) by (auto simp: table_ok_def profile_handle_def)
  define p where "p = with_blend b (with_delay d (with_next n (profiles w ! ?i)))"
  have w': "w' = update_profile ?i (\<lambda>_. p) w"
    using assms(2) by (simp add: w'_def sled_profile_set_next_def p_def update_profile_def)
  have p: "next_profile p = n" "in_use p = in_use (profiles w ! ?i)" "field_states p F_FN = FIELD_CHANGED"
    "never_sent p = never_sent (profiles w ! ?i)"
    "\<And>f. f \<in> {F_P, F_ACC, F_DEC} \<Longrightarrow> field_value 0 f p = field_value 0 f (profiles w ! ?i)"
    using assms(4) by (auto simp: p_def with_next_def with_delay_def with_blend_def mark_changed_def
        half_time_ms_def)
  have pi: "profiles w' ! ?i = p" "length (profiles w') = length (profiles w)"
    using len(2) by (simp_all add: w')
  have up: "uploadable w' ?i = uploadable w ?i" unfolding uploadable_def pi p(4)
    using p(5) by (simp add: w' del: field_value.simps)
  from upload_bad_link [of ?i w'] obtain u where
    u: "upload_profile ?i w' = Inl (Undefined_behaviour u)"
      "u \<in> {Out_of_bounds, Indeterminate_read, Unrepresentable}"
      "uploadable w ?i \<longrightarrow> u = Out_of_bounds"
    using len(1,2) assms(3) p(1) by (auto simp: pi up)
  have "pending w' ?i" using p(3) by (auto simp: has_changes_pending_iff pi)
  moreover have "get_profile i w' = Inr (profiles w' ! ?i)" using len(2,3) by (simp add: get_profile_def pi)
  ultimately have "sled_profile_write_pending_changes i w' = Inl (Undefined_behaviour u)"
    using u(1) by (simp add: sled_profile_write_pending_changes.simps [of i])
  moreover have "profile_handle i w'" "mp_state_of w' = ST_MP_PP_IDLE"
    using assms(2,5) p(2) pi by (simp_all add: profile_handle_def w')
  ultimately have "sled_profile_execute i w' = Inl (Undefined_behaviour u)"
    by (simp add: sled_profile_execute_def)
  with s u(2,3) show ?thesis by blast
qed

theorem link_out_of_bounds_witness:
  "\<exists>w'. sled_profile_set_next 0 150 (Fin 0) bln_none sent_sample = (0, w')
    \<and> sled_profile_execute 0 w' = Inl (Undefined_behaviour Out_of_bounds)"
proof -
  have "table_ok sent_sample" "profile_handle 0 sent_sample" "int MAX_PROFILES \<le> 150"
    "next_profile (profiles sent_sample ! nat 0) \<noteq> 150" "mp_state_of sent_sample = ST_MP_PP_IDLE"
    by (auto simp: sent_sample_def table_ok_def profile_handle_def nth_list_update MAX_PROFILES_def)
  from link_out_of_bounds [OF this, of "Fin 0" bln_none] sent_field_value [of 0 _ 0]
  show ?thesis by (auto simp: uploadable_def sent_sample_def MAX_PROFILES_def)
qed

end
