(* ===== verification/Sled.thy ===== *)
theory Sled
  imports Mch_Intf Profile_Props
begin

text \<open>
  The library's interface, \<^verbatim>\<open>libsled/sled.cc\<close>: the handlers it registers with the CAN interface,
  the watchdog, creation, and the functions the server calls. Together with \<^verbatim>\<open>intf_on_read\<close> of
  \<^verbatim>\<open>libsled/interface.cc\<close>, whose calls reach these handlers, they are all the ways in which the
  machines can be made to run.
\<close>

section \<open>Data\<close>

text \<open>
  \<^verbatim>\<open>sled_t\<close> is allocated with \<^verbatim>\<open>malloc\<close>: the last position, velocity and time are \<open>None\<close> until they
  are first assigned. \<open>clock\<close> is what \<^verbatim>\<open>clock_gettime\<close> answers, by the number of calls so far:
  seconds and nanoseconds. \<open>message_written\<close> is the static variable of \<^verbatim>\<open>nmt_watchdog\<close>.
\<close>

record sled_env = intf_env +
  clock :: "nat \<Rightarrow> int \<times> int"
  ticks :: nat
  last_time :: "double option"
  last_position :: "double option"
  last_velocity :: "double option"
  sinusoid_there :: int
  sinusoid_rthere :: int
  sinusoid_back :: int
  sinusoid_rback :: int
  time_last_nmt_msg :: double
  message_written :: bool

definition MAX_NMT_DELAY :: double where "MAX_NMT_DELAY = Fin 2"

definition timespec_seconds :: "int \<times> int \<Rightarrow> double" where
  "timespec_seconds ts = (case ts of (sec, nsec) \<Rightarrow>
     d_add (rnd (of_int sec))
       (d_div_const (d_div_const (d_div_const (rnd (of_int nsec)) 1000) 1000) 1000))"

definition get_time :: "'z sled_env_scheme \<Rightarrow> double \<times> 'z sled_env_scheme" where
  "get_time w = (timespec_seconds (clock w (ticks w)), w\<lparr>ticks := Suc (ticks w)\<rparr>)"

section \<open>Handlers\<close>

definition intf_on_close :: "'z sled_env_scheme action" where
  "intf_on_close = mch_intf_handle_event EV_INTF_CLOSE"

definition nmt_event :: "u8 \<Rightarrow> mch_net_event_t option" where
  "nmt_event state =
     (if state = 0x04 then Some EV_NET_STOPPED
      else if state = 0x05 then Some EV_NET_OPERATIONAL
      else if state = 0x7F then Some EV_NET_PREOPERATIONAL
      else None)"

definition note_nmt_time :: "'z sled_env_scheme action" where
  "note_nmt_time w = (let (t, w) = get_time w in Inr (w\<lparr>time_last_nmt_msg := t\<rparr>))"

definition intf_on_nmt :: "u8 \<Rightarrow> 'z sled_env_scheme action" where
  "intf_on_nmt state =
     run_steps
       [(case nmt_event state of None \<Rightarrow> Inr | Some e \<Rightarrow> mch_net_handle_event e),
        note_nmt_time]"

text \<open>The events of TPDO 1, in the order of the source: first the drive machine, then motion.\<close>

definition status_ds_events :: "u16 \<Rightarrow> mch_ds_event_t list" where
  "status_ds_events status =
     (if status AND 0x4F = 0x40 then [EV_DS_NOT_READY_TO_SWITCH_ON] else [])
     @ (if status AND 0x6F = 0x21 then [EV_DS_READY_TO_SWITCH_ON] else [])
     @ (if status AND 0x6F = 0x23 then [EV_DS_SWITCHED_ON] else [])
     @ (if status AND 0x6F = 0x27 then [EV_DS_OPERATION_ENABLED] else [])
     @ (if status AND 0x4F = 0x08 then [EV_DS_FAULT] else [])
     @ (if status AND 0x4F = 0x0F then [EV_DS_FAULT_REACTION_ACTIVE] else [])
     @ (if status AND 0x6F = 0x07 then [EV_DS_QUICK_STOP_ACTIVE] else [])
     @ (if status AND 0x10 = 0x10 then [EV_DS_VOLTAGE_ENABLED] else [EV_DS_VOLTAGE_DISABLED])"

definition status_mp_events :: "u16 \<Rightarrow> u8 \<Rightarrow> mch_mp_event_t list" where
  "status_mp_events status mode =
     (if status AND 0x400 = 0x400 then [EV_MP_TARGET_REACHED] else [])
     @ (if mode = 0x01
        then [EV_MP_MODE_PP,
              if status AND 0x1000 = 0x1000 then EV_MP_SETPOINT_ACK else EV_MP_SETPOINT_NACK]
        else [])
     @ (if mode = 0x06
        then [EV_MP_MODE_HOMING,
              if status AND 0x1000 = 0x1000 then EV_MP_HOMED else EV_MP_NOTHOMED]
        else [])
     @ (if mode = 0x07 then [EV_MP_MODE_IP] else [])"

text \<open>
  \<^verbatim>\<open>(data[3] << 24) | ... | data[0]\<close>, an \<^verbatim>\<open>int\<close> assembled from promoted bytes. The value is read as
  the 32-bit two's complement number with these bytes.
\<close>

definition tpdo_word :: "u8 \<Rightarrow> u8 \<Rightarrow> u8 \<Rightarrow> u8 \<Rightarrow> u32" where
  "tpdo_word b0 b1 b2 b3 =
     push_bit 24 (ucast b3) OR push_bit 16 (ucast b2) OR push_bit 8 (ucast b1) OR ucast b0"

definition to_metres :: "u32 \<Rightarrow> double" where
  "to_metres x = d_div_const (d_div_const (rnd (of_int (sint x))) 1000) 1000"

definition intf_on_tpdo :: "nat \<Rightarrow> bytes8 \<Rightarrow> 'z sled_env_scheme action" where
  "intf_on_tpdo pdo d =
     run_steps
       [when_step (pdo = 1)
          (let status = push_bit 8 (ucast (byte1 d)) OR ucast (byte0 d); mode = byte2 d in
           run_steps (map mch_ds_handle_event (status_ds_events status)
             @ map mch_mp_handle_event (status_mp_events status mode))),
        when_step (pdo = 2)
          (\<lambda>w. let (t, w) = get_time w in
             Inr (w\<lparr>last_time := Some t,
               last_position := Some (to_metres (tpdo_word (byte0 d) (byte1 d) (byte2 d) (byte3 d))),
               last_velocity := Some (to_metres (tpdo_word (byte4 d) (byte5 d) (byte6 d) (byte7 d)))\<rparr>))]"

text \<open>The log messages of the watchdog are left out; they are what \<open>message_written\<close> guards.\<close>

definition nmt_watchdog :: "'z sled_env_scheme action" where
  "nmt_watchdog w =
     (let (t, w) = get_time w; delta = d_sub t (time_last_nmt_msg w) in
      if d_gt delta MAX_NMT_DELAY
      then mch_net_handle_event EV_NET_WATCHDOG_FAILED (w\<lparr>message_written := True\<rparr>)
      else Inr (w\<lparr>message_written := False\<rparr>))"

section \<open>Reading from the bus\<close>

text \<open>
  The functions behind the calls of \<^verbatim>\<open>intf_dispatch_msg\<close>. No function of the sources is ever a read
  callback of a request.
\<close>

definition call_read :: "sdo_data \<Rightarrow> u16 \<Rightarrow> u8 \<Rightarrow> u32 \<Rightarrow> 'z sled_env_scheme action" where
  "call_read dat index subindex val w = Inl (Undefined_behaviour Null_dereference)"

fun run_upcall :: "intf_upcall \<Rightarrow> 'z sled_env_scheme action" where
  "run_upcall (Nmt_state_handler state) = intf_on_nmt state"
| "run_upcall (Tpdo_handler pdo d) = intf_on_tpdo pdo d"
| "run_upcall (Write_callback index subindex) = mch_sdo_write_callback call_write index subindex"
| "run_upcall (Read_callback index subindex val) = mch_sdo_read_callback call_read index subindex val"
| "run_upcall (Abort_callback index subindex code) = mch_sdo_abort_callback index subindex code"

definition intf_on_read :: "'z sled_env_scheme action" where
  "intf_on_read w =
     (case intf_on_read_core w of
        (Read_nothing, w) \<Rightarrow> Inr w
      | (Read_close, w) \<Rightarrow> bind_outcome (intf_close w) (\<lambda>(r, w). Inr w)
      | (Read_dispatch msg, w) \<Rightarrow>
          run_steps (map run_upcall (intf_dispatch_msg (interface w) msg)) w)"

section \<open>Creation\<close>

definition setup_state_machines :: "'z sled_env_scheme \<Rightarrow> 'z sled_env_scheme" where
  "setup_state_machines w =
     w\<lparr>mch_intf := mch_intf_create\<lparr>opened_handler := True, closed_handler := True\<rparr>,
       mch_sdo := mch_sdo_create,
       mch_net := mch_net_create\<lparr>sdos_enabled_handler := True, sdos_disabled_handler := True,
         enter_operational_handler := True, leave_operational_handler := True\<rparr>,
       mch_ds := mch_ds_create\<lparr>operation_enabled_handler := True, operation_disabled_handler := True\<rparr>,
       mch_mp := mch_mp_create\<rparr>"

text \<open>The part of \<^verbatim>\<open>sled_create\<close> that fills the profile table.\<close>

definition setup_profiles :: "'z sled_env_scheme \<Rightarrow> 'z sled_env_scheme" where
  "setup_profiles w =
     (let w = fold (\<lambda>profile. sled_profile_clear (int profile) False) [0 ..< MAX_PROFILES] w;
          (there, w) = sled_profile_create w; w = w\<lparr>sinusoid_there := there\<rparr>;
          (rthere, w) = sled_profile_create w; w = w\<lparr>sinusoid_rthere := rthere\<rparr>;
          (back, w) = sled_profile_create w; w = w\<lparr>sinusoid_back := back\<rparr>;
          (rback, w) = sled_profile_create w; w = w\<lparr>sinusoid_rback := rback\<rparr>;
          w = snd (sled_profile_set_table there 0 w);
          w = snd (sled_profile_set_table rthere 1 w);
          w = snd (sled_profile_set_table back 0 w);
          w = snd (sled_profile_set_table rback 3 w);
          w = snd (sled_profile_set_next there back (Fin 0) bln_after w);
          w = snd (sled_profile_set_next rthere back (Fin 0) bln_after w)
      in snd (sled_profile_set_next back there (Fin 0) bln_after w))"

definition sled_create :: "'z sled_env_scheme action" where
  "sled_create w =
     (let (t, w) = get_time w;
          w = w\<lparr>time_last_nmt_msg := d_sub t MAX_NMT_DELAY\<rparr>;
          w = setup_profiles w;
          w = set_interface (\<lambda>_. intf_create) w;
          w = setup_state_machines w;
          w = set_interface intf_set_close_handler w;
          w = set_interface intf_set_nmt_state_handler w;
          w = set_interface intf_set_tpdo_handler w
      in mch_intf_handle_event EV_INTF_OPEN w)"

section \<open>Functions of the server\<close>

definition sled_rt_new_setpoint :: "double \<Rightarrow> 'z sled_env_scheme \<Rightarrow> int \<times> 'z sled_env_scheme" where
  "sled_rt_new_setpoint pos w = (- 1, w)"

text \<open>The results with their reference parameters: return value, position, time.\<close>

definition sled_rt_get_position_and_time ::
    "'z sled_env_scheme \<Rightarrow> ((int \<times> double \<times> double) \<times> 'z sled_env_scheme) outcome" where
  "sled_rt_get_position_and_time w =
     (if net_state_of w \<noteq> ST_NET_OPERATIONAL
      then let (t, w) = get_time w in Inr ((- 1, NaN, t), w)
      else bind_outcome (read_determined (last_time w)) (\<lambda>t.
        bind_outcome (read_determined (last_position w)) (\<lambda>pos. Inr ((0, pos, t), w))))"

text \<open>\<open>None\<close>: the reference parameter is not assigned.\<close>

definition sled_rt_get_position ::
    "'z sled_env_scheme \<Rightarrow> ((int \<times> double option) \<times> 'z sled_env_scheme) outcome" where
  "sled_rt_get_position w =
     (if net_state_of w \<noteq> ST_NET_OPERATIONAL then Inr ((- 1, None), w)
      else bind_outcome (read_determined (last_position w)) (\<lambda>pos. Inr ((0, Some pos), w)))"

text \<open>A call of a table operation whose result is not looked at.\<close>

definition quietly :: "('w \<Rightarrow> int \<times> 'w) \<Rightarrow> 'w action" where
  "quietly f w = Inr (snd (f w))"

definition set_target_there ::
    "('z sled_env_scheme \<Rightarrow> int) \<Rightarrow> double \<Rightarrow> double \<Rightarrow> 'z sled_env_scheme action" where
  "set_target_there profile amplitude period w =
     bind_outcome (read_determined (last_position w)) (\<lambda>pos.
       quietly (sled_profile_set_target (profile w) pos_absolute
         (d_add pos (d_mul amplitude (Fin 2))) (d_div_const period 2)) w)"

definition set_target_back ::
    "('z sled_env_scheme \<Rightarrow> int) \<Rightarrow> double \<Rightarrow> 'z sled_env_scheme action" where
  "set_target_back profile period w =
     bind_outcome (read_determined (last_position w)) (\<lambda>pos.
       quietly (sled_profile_set_target (profile w) pos_absolute pos (d_div_const period 2)) w)"

definition set_next_of ::
    "('z sled_env_scheme \<Rightarrow> int) \<Rightarrow> ('z sled_env_scheme \<Rightarrow> int) \<Rightarrow> 'z sled_env_scheme action" where
  "set_next_of profile nxt w =
     quietly (sled_profile_set_next (profile w) (nxt w) (Fin 0) bln_after) w"

definition write_pending_of :: "('z sled_env_scheme \<Rightarrow> int) \<Rightarrow> 'z sled_env_scheme action" where
  "write_pending_of profile w = sled_profile_write_pending_changes (profile w) w"

definition sled_sinusoid_start ::
    "double \<Rightarrow> double \<Rightarrow> 'z sled_env_scheme \<Rightarrow> (int \<times> 'z sled_env_scheme) outcome" where
  "sled_sinusoid_start amplitude period w =
     bind_outcome
       (run_steps
         [set_target_there sinusoid_there amplitude period,
          set_target_back sinusoid_back period,
          set_next_of sinusoid_there sinusoid_back,
          set_next_of sinusoid_back sinusoid_there] w)
       (\<lambda>w. sled_profile_execute (sinusoid_there w) w)"

definition sled_sinusoid_stop :: "'z sled_env_scheme \<Rightarrow> (int \<times> 'z sled_env_scheme) outcome" where
  "sled_sinusoid_stop w =
     bind_outcome
       (run_steps
         [set_next_of sinusoid_there (\<lambda>_. - 1),
          set_next_of sinusoid_back (\<lambda>_. - 1),
          write_pending_of sinusoid_there] w)
       (\<lambda>w. Inr (0, w))"

definition sled_rsinusoid_start ::
    "double \<Rightarrow> double \<Rightarrow> 'z sled_env_scheme \<Rightarrow> (int \<times> 'z sled_env_scheme) outcome" where
  "sled_rsinusoid_start amplitude period w =
     bind_outcome
       (run_steps
         [set_target_there sinusoid_rthere amplitude period,
          set_target_there sinusoid_there amplitude period,
          set_target_back sinusoid_back period,
          set_target_back sinusoid_rback period,
          set_next_of sinusoid_rthere sinusoid_back,
          set_next_of sinusoid_there sinusoid_back,
          set_next_of sinusoid_back sinusoid_there,
          write_pending_of sinusoid_rthere,
          write_pending_of sinusoid_there,
          write_pending_of sinusoid_back,
          write_pending_of sinusoid_rback] w)
       (\<lambda>w. sled_profile_execute (sinusoid_rthere w) w)"

definition sled_rsinusoid_stop :: "'z sled_env_scheme \<Rightarrow> (int \<times> 'z sled_env_scheme) outcome" where
  "sled_rsinusoid_stop w =
     bind_outcome
       (run_steps
         [set_next_of sinusoid_there sinusoid_rback,
          write_pending_of sinusoid_there] w)
       (\<lambda>w. Inr (0, w))"

definition sled_light_set_state ::
    "bool \<Rightarrow> 'z sled_env_scheme \<Rightarrow> (int \<times> 'z sled_env_scheme) outcome" where
  "sled_light_set_state state w =
     (if sdo_state_of w = ST_SDO_DISABLED then Inr (- 1, w)
      else bind_outcome (mch_sdo_queue_write OB_O_O1 0x01 (if state then 0x01 else 0x00) 0x04 w)
        (\<lambda>w. Inr (0, w)))"

end
