(* ===== verification/Sled_Inv.thy ===== *)
theory Sled_Inv
  imports Sled
begin

text \<open>
  The invariant of the whole library, and that every way of entering it keeps this invariant:
  reading from the bus, the watchdog, and the functions the server calls.
\<close>

section \<open>The invariant\<close>

text \<open>The profiles of the sinusoids are entries of the table.\<close>

definition ids_ok :: "'z sled_env_scheme \<Rightarrow> bool" where
  "ids_ok w \<longleftrightarrow> (\<forall>i \<in> {sinusoid_there w, sinusoid_rthere w, sinusoid_back w, sinusoid_rback w}.
     0 \<le> i \<and> i < int MAX_PROFILES)"

definition sys_inv :: "'z sled_env_scheme \<Rightarrow> bool" where
  "sys_inv w \<longleftrightarrow> intf_inv w \<and> prof_inv w \<and> ids_ok w"

lemma ids_ok_more:
  assumes "intf_env.more w' = intf_env.more w"
  shows "ids_ok w' = ids_ok w"
  using assms by (cases w; cases w') (simp add: ids_ok_def)

text \<open>The reasons for which the process may end in a call of the library.\<close>

definition sled_stops :: "stop set" where
  "sled_stops = {Exit 1, Assert_failed, Undefined_behaviour Indeterminate_read,
     Undefined_behaviour Unrepresentable}"

lemma intf_inv_step:
  assumes "intf_inv w" and "sdo_quiet w'" and "sdo_env.more w' = sdo_env.more w"
    and "port (interface w') = port (interface w)"
  shows "intf_inv w'"
  using assms(1,2,4) net_env_of_sdo_more [OF assms(3)] intf_env_of_sdo_more [OF assms(3)]
  by (simp add: intf_inv_def net_inv_def ds_inv_def ds_handlers_set_def ds_mp_tied_def
      net_handlers_set_def net_ds_tied_def intf_wired_def port_def)

lemma sys_inv_quiet: "sys_inv w \<Longrightarrow> sdo_quiet w"
  by (simp add: sys_inv_def intf_inv_def net_inv_def ds_inv_def)

text \<open>An action whose effect on the interface record is that of the SDO machine.\<close>

lemma sys_inv_step:
  assumes "sys_inv w" and "sdo_quiet w'" and "sdo_env.more w' = sdo_env.more w"
    and "port (interface w') = port (interface w)" and "requests_ok w'"
  shows "sys_inv w'"
proof -
  from assms(1) have i: "intf_inv w" and p: "prof_inv w" and d: "ids_ok w" by (simp_all add: sys_inv_def)
  have "profiles w' = profiles w" using profile_env_of_sdo_more(1) [OF assms(3)] .
  from prof_inv_cong [OF this _ p] assms(5) intf_inv_step [OF i assms(2-4)]
    ids_ok_more [OF intf_env_of_sdo_more(2) [OF assms(3)]] d
  show ?thesis by (simp add: sys_inv_def)
qed

lemma sys_request:
  assumes "sys_inv w" and "request_ok r"
  shows "\<exists>w'. queue_sdo r w = Inr w' \<and> sys_inv w' \<and> sdo_env.more w' = sdo_env.more w"
proof -
  from queue_sdo_ext [OF sys_inv_quiet [OF assms(1)]] obtain w' where w': "queue_sdo r w = Inr w'"
    and x: "sdo_ext w [sdo_frame r] w'" by blast
  note e = sdo_extD [OF x]
  have "port_is (port (interface w)) w'"
    by (rule keepsD [OF port_frame.request [OF assms(2)] _ w']) (simp add: port_is_def)
  moreover have "prof_inv w'"
    by (rule keepsD [OF prof_frame.request [OF assms(2)] _ w']) (use assms(1) in \<open>simp add: sys_inv_def\<close>)
  ultimately have "sys_inv w'"
    using sys_inv_step [OF assms(1), of w'] e by (simp add: port_is_def prof_inv_def)
  with w' e show ?thesis by blast
qed

lemma sys_net_event:
  assumes "sys_inv w" and "e \<noteq> EV_NET_INTF_OPENED" and "e \<noteq> EV_NET_INTF_CLOSED"
  shows "mch_net_handle_event e w = Inl (Exit 1) \<and> net_exits e w
    \<or> (\<exists>w'. mch_net_handle_event e w = Inr w' \<and> sys_inv w' \<and> intf_env.more w' = intf_env.more w
        \<and> net_state_of w' = mch_net_next_state_given_event (net_state_of w) e)"
proof (cases "net_exits e w")
  case True
  with net_handle [of w e] assms(1) show ?thesis by (simp add: sys_inv_def intf_inv_def)
next
  case False
  from assms(1) have n: "net_inv w" by (simp add: sys_inv_def intf_inv_def)
  from net_in_intf [OF n False] obtain w' where
    w': "mch_net_handle_event e w = Inr w'" "net_inv w'"
      "net_state_of w' = mch_net_next_state_given_event (net_state_of w) e"
      "mch_intf w' = mch_intf w" "intf_env.more w' = intf_env.more w" "intf_wired w' = intf_wired w"
    by blast
  have "net_state_of w' = ST_NET_DISABLED \<longleftrightarrow> net_state_of w = ST_NET_DISABLED"
    using assms(2,3) w'(3) by (simp add: net_next_disabled_iff)
  then have "intf_inv w'" using assms(1) w' by (auto simp: sys_inv_def intf_inv_def)
  moreover have "prof_inv w'"
    by (rule keepsD [OF prof_frame.net_event _ w'(1)]) (use assms(1) in \<open>simp add: sys_inv_def\<close>)
  moreover have "ids_ok w'" using ids_ok_more [OF w'(5)] assms(1) by (simp add: sys_inv_def)
  ultimately show ?thesis using w' by (simp add: sys_inv_def)
qed

text \<open>Events of drive and motion that are not reserved for the machine above.\<close>

lemma sys_drive_event:
  assumes "sys_inv w" and "plant_op_ok (Drive x)"
  shows "\<exists>w'. drive_op_action x w = Inr w' \<and> sys_inv w' \<and> intf_env.more w' = intf_env.more w"
proof -
  from assms(1) have n: "net_inv w" and d: "ds_inv w" by (simp_all add: sys_inv_def intf_inv_def net_inv_def)
  from drive_op_net [OF n assms(2)] obtain w' where w': "drive_op_action x w = Inr w'" "net_inv w'"
    by blast
  have k: "net_kept w w'"
  proof (cases x)
    case (Ds_event e)
    with net_ds_event [OF d, of e] w'(1) show ?thesis by auto
  next
    case (Mp_event e)
    from d have "sdo_quiet w" by (simp add: ds_inv_def)
    from mp_in_ds [OF this, of e] Mp_event w'(1) have "ds_frame w w'" by auto
    from net_env_of_ds_more [OF ds_frame_more [OF this]] show ?thesis by (simp add: net_kept_def)
  qed
  have f: "keeps P (drive_op_action x)" if "plant_frame P" for P :: "'a sled_env_scheme \<Rightarrow> bool"
    using plant_frame.ds_event [OF that] plant_frame.mp_event [OF that] by (cases x) simp_all
  have "port_is (port (interface w)) w'"
    by (rule keepsD [OF f _ w'(1)], rule port_frame.plant_frame_axioms, simp add: port_is_def)
  then have p: "port (interface w') = port (interface w)" by (simp add: port_is_def)
  have "prof_inv w'"
    by (rule keepsD [OF f _ w'(1)]) (use assms(1) in \<open>simp_all add: sys_inv_def prof_frame.plant_frame_axioms\<close>)
  moreover from k have m: "mch_net w' = mch_net w" "net_env.more w' = net_env.more w"
    by (simp_all add: net_kept_def)
  moreover note intf_env_of_net_more [OF m(2)] ids_ok_more [OF intf_env_of_net_more(2) [OF m(2)]]
  ultimately show ?thesis
    using assms(1) w' p by (simp add: sys_inv_def intf_inv_def intf_wired_def port_def)
qed

section \<open>Handlers\<close>

lemma sys_inv_fields [simp]:
  "sys_inv (w\<lparr>ticks := a\<rparr>) = sys_inv w"
  "sys_inv (w\<lparr>last_time := b\<rparr>) = sys_inv w"
  "sys_inv (w\<lparr>last_position := c\<rparr>) = sys_inv w"
  "sys_inv (w\<lparr>last_velocity := d\<rparr>) = sys_inv w"
  "sys_inv (w\<lparr>time_last_nmt_msg := t\<rparr>) = sys_inv w"
  "sys_inv (w\<lparr>message_written := m\<rparr>) = sys_inv w"
  "sys_inv (w'\<lparr>current_profile := p\<rparr>) = sys_inv w'"
  "sys_inv (w'\<lparr>calls := n\<rparr>) = sys_inv w'"
  by (simp_all add: sys_inv_def intf_inv_def net_inv_def ds_inv_def sdo_quiet_def ds_handlers_set_def
      ds_mp_tied_def net_handlers_set_def net_ds_tied_def intf_wired_def prof_inv_def table_ok_def
      links_ok_def requests_ok_def ids_ok_def)

lemma sys_inv_get_time [simp]: "sys_inv (snd (get_time w)) = sys_inv w"
  by (simp add: get_time_def)

text \<open>No event of a status word is one of those that only another machine may send.\<close>

lemma status_events_ok:
  "e \<in> set (status_ds_events status) \<Longrightarrow> plant_op_ok (Drive (Ds_event e))"
  "e' \<in> set (status_mp_events status mode) \<Longrightarrow> plant_op_ok (Drive (Mp_event e'))"
  by (auto simp: status_ds_events_def status_mp_events_def plant_op_ok_def drive_op_ok_def
      split: if_splits)

lemma total_drive: "plant_op_ok (Drive x) \<Longrightarrow> total_on sys_inv (drive_op_action x)"
  by (rule total_onI) (use sys_drive_event in blast)

lemma total_status:
  "total_on sys_inv (run_steps (map mch_ds_handle_event (status_ds_events status)
     @ map mch_mp_handle_event (status_mp_events status mode)))"
proof (rule total_on_run_steps)
  fix f :: "'a sled_env_scheme action"
  assume "f \<in> set (map mch_ds_handle_event (status_ds_events status)
    @ map mch_mp_handle_event (status_mp_events status mode))"
  then consider e where "e \<in> set (status_ds_events status)" "f = mch_ds_handle_event e"
    | e where "e \<in> set (status_mp_events status mode)" "f = mch_mp_handle_event e" by auto
  then show "total_on sys_inv f"
  proof cases
    case 1
    with total_drive [OF status_events_ok(1) [OF 1(1)]] show ?thesis by simp
  next
    case 2
    with total_drive [OF status_events_ok(2) [OF 2(1)]] show ?thesis by simp
  qed
qed

lemma total_position:
  "total_on sys_inv (\<lambda>w. let (t, w) = get_time w in
     Inr (w\<lparr>last_time := Some t, last_position := Some x, last_velocity := Some v\<rparr>))"
  by (rule total_onI) (simp add: get_time_def)

lemma total_tpdo: "total_on sys_inv (intf_on_tpdo pdo d)"
proof -
  have two: "total_on sys_inv f \<Longrightarrow> total_on sys_inv g \<Longrightarrow> total_on sys_inv (run_steps [f, g])"
    for f g :: "'a sled_env_scheme action" by (rule total_on_run_steps) auto
  show ?thesis
    unfolding intf_on_tpdo_def Let_def [of "push_bit _ _ OR _"] Let_def [of "byte2 d"]
    by (intro two total_on_when total_status total_position)
qed

lemma nmt_event_ok: "nmt_event state = Some e \<Longrightarrow> e \<noteq> EV_NET_INTF_OPENED \<and> e \<noteq> EV_NET_INTF_CLOSED"
  by (auto simp: nmt_event_def split: if_splits)

lemma safe_net:
  assumes "e \<noteq> EV_NET_INTF_OPENED" and "e \<noteq> EV_NET_INTF_CLOSED"
  shows "safe_on {Exit 1} sys_inv (mch_net_handle_event e)"
  by (rule safe_onI) (use sys_net_event [OF _ assms] in blast)

lemma safe_nmt: "safe_on {Exit 1} sys_inv (intf_on_nmt state)"
proof -
  have "safe_on {Exit 1} sys_inv (case nmt_event state of None \<Rightarrow> Inr | Some e \<Rightarrow> mch_net_handle_event e)"
    using nmt_event_ok [of state] safe_net
    by (cases "nmt_event state") (auto simp: safe_on_def [of _ _ Inr])
  moreover have "safe_on {Exit 1} sys_inv note_nmt_time"
    by (rule safe_onI) (simp add: note_nmt_time_def get_time_def)
  ultimately show ?thesis unfolding intf_on_nmt_def by (intro safe_on_run_steps) auto
qed

lemma safe_watchdog: "safe_on {Exit 1} sys_inv nmt_watchdog"
proof (rule safe_onI)
  fix w :: "'a sled_env_scheme" assume "sys_inv w"
  then have "sys_inv (w\<lparr>ticks := Suc (ticks w), message_written := True\<rparr>)" by simp
  from sys_net_event [OF this, of EV_NET_WATCHDOG_FAILED] \<open>sys_inv w\<close>
  show "(\<exists>e \<in> {Exit 1}. nmt_watchdog w = Inl e) \<or> (\<exists>w'. nmt_watchdog w = Inr w' \<and> sys_inv w')"
    by (auto simp: nmt_watchdog_def get_time_def Let_def)
qed

section \<open>Responses\<close>

lemma finish_abort_eq:
  "finish_active EV_SDO_ABORT_RESPONSE w =
    (let w1 = w\<lparr>mch_sdo := (mch_sdo w)\<lparr>sdo_active := None\<rparr>\<rparr> in
     Inr (if sdo_state_of w = ST_SDO_SENDING then set_sdo_state ST_SDO_ERROR w1 else w1))"
  by (cases "sdo_state_of w")
    (simp_all add: finish_active_def sdo_machine.handle_changed sdo_machine.handle_ignored
      mch_sdo_on_exit_def mch_sdo_on_enter.simps)

lemma sys_finish:
  assumes "sys_inv w" and "event \<in> {EV_SDO_READ_RESPONSE, EV_SDO_WRITE_RESPONSE, EV_SDO_ABORT_RESPONSE}"
  shows "\<exists>w'. finish_active event w = Inr w' \<and> sys_inv w'"
proof -
  note q = sys_inv_quiet [OF assms(1)]
  have "\<exists>w'. finish_active event w = Inr w' \<and> sdo_quiet w' \<and> sdo_env.more w' = sdo_env.more w"
  proof (cases "event = EV_SDO_ABORT_RESPONSE")
    case True
    with q show ?thesis by (simp add: finish_abort_eq Let_def sdo_quiet_def set_sdo_state_def)
  next
    case False
    with finish_active_step [OF q, of event] assms(2) show ?thesis by auto
  qed
  then obtain w' where w': "finish_active event w = Inr w'" "sdo_quiet w'"
    "sdo_env.more w' = sdo_env.more w" by blast
  let ?w = "w\<lparr>mch_sdo := (mch_sdo w)\<lparr>sdo_active := None\<rparr>\<rparr>"
  from w'(1) have h: "mch_sdo_handle_event event ?w = Inr w'" by (simp add: finish_active_def)
  have "port_is (port (interface w)) w'"
    by (rule keepsD [OF port_frame.sdo_event _ h]) (simp add: port_is_def)
  moreover have "prof_inv ?w"
    using assms(1) by (auto simp: sys_inv_def prof_inv_def table_ok_def links_ok_def requests_ok_def)
  then have "prof_inv w'" by (rule keepsD [OF prof_frame.sdo_event _ h])
  ultimately have "sys_inv w'"
    using sys_inv_step [OF assms(1) w'(2,3)] by (simp add: port_is_def prof_inv_def)
  with w'(1) show ?thesis by blast
qed

lemma total_finish:
  "event \<in> {EV_SDO_READ_RESPONSE, EV_SDO_WRITE_RESPONSE, EV_SDO_ABORT_RESPONSE} \<Longrightarrow>
    total_on sys_inv (finish_active event)"
  by (rule total_onI) (rule sys_finish)

lemma sys_update_profile:
  assumes "sys_inv w" and "\<And>p. profile_no p = 201 + int i \<Longrightarrow> profile_no (f p) = 201 + int i"
    and "\<And>p. next_profile p < int MAX_PROFILES \<Longrightarrow> next_profile (f p) < int MAX_PROFILES"
  shows "sys_inv (update_profile i f w)"
proof (cases "i < length (profiles w)")
  case True
  with assms(2,3) have "prof_inv w \<Longrightarrow> prof_inv (update_profile i f w)"
    by (auto simp: prof_inv_def table_ok_def links_ok_def requests_ok_def update_profile_def
        nth_list_update dest!: set_update_subset_insert [THEN subsetD] intro: nth_mem)
  moreover have "intf_inv (update_profile i f w) = intf_inv w"
    by (simp add: intf_inv_def net_inv_def ds_inv_def sdo_quiet_def ds_handlers_set_def
      ds_mp_tied_def net_handlers_set_def net_ds_tied_def intf_wired_def update_profile_def)
  moreover have "ids_ok (update_profile i f w) = ids_ok w" by (simp add: ids_ok_def update_profile_def)
  ultimately show ?thesis using assms(1) by (simp add: sys_inv_def)
next
  case False
  then have "update_profile i f w = w" by (cases w) (simp add: update_profile_def list_update_beyond)
  with assms(1) show ?thesis by simp
qed

lemma safe_write_callback:
  assumes "sys_inv w" and "sdo_active_of w = Some sdo"
  shows "case write_callback sdo of None \<Rightarrow> True
    | Some cb \<Rightarrow> call_write cb (sdo_dat sdo) index subindex w = Inl (Exit 1)
        \<or> (\<exists>w'. call_write cb (sdo_dat sdo) index subindex w = Inr w' \<and> sys_inv w')"
proof -
  from assms have ok: "request_ok sdo" by (simp add: sys_inv_def prof_inv_def requests_ok_def)
  have "call_write Mch_net_sdo_write_callback (sdo_dat sdo) index subindex w = Inl (Exit 1)
      \<or> (\<exists>w'. call_write Mch_net_sdo_write_callback (sdo_dat sdo) index subindex w = Inr w' \<and> sys_inv w')"
    using sys_net_event [OF assms(1), of EV_NET_UPLOAD_COMPLETE]
    by (auto simp: mch_net_sdo_write_callback_def)
  moreover have "sys_inv (update_profile i (\<lambda>p. sled_profile_set_field_state p index FIELD_WRITTEN) w)" for i
    by (rule sys_update_profile [OF assms(1)]) (auto simp: sled_profile_set_field_state_def split: option.split)
  moreover have "write_callback sdo = Some On_success_callback \<Longrightarrow> \<exists>i. sdo_dat sdo = Data_profile i"
    using ok by (auto simp: request_ok_def split: sdo_data.splits)
  ultimately show ?thesis
    by (cases "write_callback sdo"; cases "the (write_callback sdo)")
      (auto simp: on_success_callback_def)
qed

lemma safe_write_response:
  "safe_on {Exit 1, Assert_failed} sys_inv (mch_sdo_write_callback call_write index subindex)"
proof (rule safe_onI)
  fix w :: "'a sled_env_scheme" assume inv: "sys_inv w"
  let ?r = "mch_sdo_write_callback call_write index subindex w"
  show "(\<exists>e \<in> {Exit 1, Assert_failed}. ?r = Inl e) \<or> (\<exists>w'. ?r = Inr w' \<and> sys_inv w')"
  proof (cases "sdo_active_of w")
    case None
    then show ?thesis by (simp add: mch_sdo_write_callback_def)
  next
    case (Some sdo)
    have t: "total_on sys_inv (finish_active EV_SDO_WRITE_RESPONSE :: 'a sled_env_scheme action)"
      by (simp add: total_finish)
    have "(\<exists>e \<in> {Exit 1, Assert_failed}. bind_outcome r (finish_active EV_SDO_WRITE_RESPONSE) = Inl e)
        \<or> (\<exists>w'. bind_outcome r (finish_active EV_SDO_WRITE_RESPONSE) = Inr w' \<and> sys_inv w')"
      if "r = Inl (Exit 1) \<or> (\<exists>w'. r = Inr w' \<and> sys_inv w')" for r :: "'a sled_env_scheme outcome"
      using that t by (auto elim: total_onE)
    note fin = this
    have single: "run_steps [f] = f" for f :: "'a sled_env_scheme action" by (rule ext) simp
    show ?thesis
      using safe_write_callback [OF inv Some, of index subindex] fin [of "Inr w"] inv
        fin [of "call_write (the (write_callback sdo)) (sdo_dat sdo) index subindex w"] Some
      by (cases "write_callback sdo") (simp_all add: mch_sdo_write_callback_def single)
  qed
qed

lemma safe_read_response:
  "safe_on {Assert_failed} sys_inv (mch_sdo_read_callback call_read index subindex val)"
proof (rule safe_onI)
  fix w :: "'a sled_env_scheme" assume inv: "sys_inv w"
  let ?r = "mch_sdo_read_callback call_read index subindex val w"
  show "(\<exists>e \<in> {Assert_failed}. ?r = Inl e) \<or> (\<exists>w'. ?r = Inr w' \<and> sys_inv w')"
  proof (cases "sdo_active_of w")
    case None
    then show ?thesis by (simp add: mch_sdo_read_callback_def)
  next
    case (Some sdo)
    with inv have "\<not> read_callback sdo"
      by (simp add: sys_inv_def prof_inv_def requests_ok_def request_ok_def)
    with Some sys_finish [OF inv, of EV_SDO_READ_RESPONSE] show ?thesis
      by (simp add: mch_sdo_read_callback_def)
  qed
qed

lemma safe_abort_response:
  "safe_on {Exit 1, Assert_failed} sys_inv (mch_sdo_abort_callback index subindex code)"
proof (rule safe_onI)
  fix w :: "'a sled_env_scheme" assume inv: "sys_inv w"
  let ?r = "mch_sdo_abort_callback index subindex code w"
  show "(\<exists>e \<in> {Exit 1, Assert_failed}. ?r = Inl e) \<or> (\<exists>w'. ?r = Inr w' \<and> sys_inv w')"
    using sys_finish [OF inv, of EV_SDO_ABORT_RESPONSE]
    by (cases "sdo_active_of w"; cases "abort_callback (the (sdo_active_of w))")
      (simp_all add: mch_sdo_abort_callback_def)
qed

lemma safe_upcall: "safe_on {Exit 1, Assert_failed} sys_inv (run_upcall u)"
  using safe_on_mono [OF safe_nmt, of "{Exit 1, Assert_failed}"] total_on_safe [OF total_tpdo]
    safe_write_response safe_on_mono [OF safe_read_response, of "{Exit 1, Assert_failed}"]
    safe_abort_response
  by (cases u) simp_all

lemma intf_keeps:
  fixes P :: "'z intf_env_scheme \<Rightarrow> bool"
  assumes net: "\<And>e. keeps P (mch_net_handle_event e)"
    and set: "\<And>s w. P (set_intf_state s w) = P w"
    and core: "\<And>w w'. same_plant w w' \<Longrightarrow> P w' = P w"
  shows "mch_intf_handle_event e w = Inr w' \<Longrightarrow> P w \<Longrightarrow> P w'"
    and "mch_intf_on_enter w = Inr w' \<Longrightarrow> P w \<Longrightarrow> P w'"
    and "intf_open w = Inr (r, w') \<Longrightarrow> P w \<Longrightarrow> P w'"
    and "intf_close w = Inr (r', w') \<Longrightarrow> P w \<Longrightarrow> P w'"
proof (induction e w and w and w and w arbitrary: w' and w' and r w' and r' w'
    rule: mch_intf_handle_event_mch_intf_on_enter_intf_open_intf_close.induct)
  case (1 e w)
  then show ?case
    by (auto simp: mch_intf_handle_event.simps [of e w] mch_intf_on_exit_def set Let_def split: if_splits)
next
  case (2 w)
  then show ?case
    by (cases "intf_state_of w")
      (auto simp: mch_intf_on_enter.simps [of w] bind_outcome_eq_Inr when_step_def mch_intf_on_opened_def
        mch_intf_on_closed_def split: if_splits dest: keepsD [OF net])
next
  case (3 w)
  obtain x w1 where o: "intf_open_core w = (x, w1)" by fastforce
  from core [OF open_core_facts(1) [OF o]] 3 o show ?case
    by (cases x) (auto simp: intf_open.simps [of w] bind_outcome_eq_Inr)
next
  case (4 w)
  obtain b w1 where c: "intf_close_core w = (b, w1)" by fastforce
  from core [OF close_core_facts(1) [OF c]] 4 c show ?case
    by (auto simp: intf_close.simps [of w] bind_outcome_eq_Inr split: if_splits)
qed

lemma prof_intf:
  "mch_intf_handle_event e w = Inr w' \<Longrightarrow> prof_inv w \<Longrightarrow> prof_inv w'"
  "intf_close w = Inr (r, w') \<Longrightarrow> prof_inv w \<Longrightarrow> prof_inv w'"
proof -
  have set: "prof_inv (set_intf_state s w) = prof_inv w" for s and w :: "'a intf_env_scheme"
    by (simp add: prof_inv_def table_ok_def links_ok_def requests_ok_def set_intf_state_def)
  have core: "prof_inv w' = prof_inv w" if "same_plant w w'" for w w' :: "'a intf_env_scheme"
    using that net_env_of_sdo_more(1) [of w' w]
    by (simp add: same_plant_def prof_inv_def table_ok_def links_ok_def requests_ok_def)
  note k = intf_keeps [where P = "prof_inv :: 'a intf_env_scheme \<Rightarrow> bool", OF prof_frame.net_event set core]
  show "mch_intf_handle_event e w = Inr w' \<Longrightarrow> prof_inv w \<Longrightarrow> prof_inv w'"
    for e and w w' :: "'a intf_env_scheme" by (rule k(1))
  show "intf_close w = Inr (r, w') \<Longrightarrow> prof_inv w \<Longrightarrow> prof_inv w'"
    for r and w w' :: "'a intf_env_scheme" by (rule k(4))
qed

lemma safe_read: "safe_on {Exit 1, Assert_failed} sys_inv intf_on_read"
proof (rule safe_onI)
  fix w :: "'a sled_env_scheme" assume inv: "sys_inv w"
  obtain r w1 where c: "intf_on_read_core w = (r, w1)" by fastforce
  have "\<exists>n. snd (intf_on_read_core w) = w\<lparr>calls := n\<rparr>"
    by (cases w) (auto simp: intf_on_read_core_def driver_call_def Let_def split: prod.split)
  with c inv have inv1: "sys_inv w1" by auto
  show "(\<exists>e \<in> {Exit 1, Assert_failed}. intf_on_read w = Inl e) \<or> (\<exists>w'. intf_on_read w = Inr w' \<and> sys_inv w')"
  proof (cases r)
    case Read_nothing
    with c inv1 show ?thesis by (simp add: intf_on_read_def)
  next
    case Read_close
    from inv1 have "intf_inv w1" by (simp add: sys_inv_def)
    from intf_close_total [OF this] obtain x w2 where
      w2: "intf_close w1 = Inr (x, w2)" "intf_inv w2" "intf_env.more w2 = intf_env.more w1" by blast
    from prof_intf(2) [OF w2(1)] inv1 w2(2) ids_ok_more [OF w2(3)] have "sys_inv w2" by (simp add: sys_inv_def)
    with w2(1) c Read_close show ?thesis by (simp add: intf_on_read_def)
  next
    case (Read_dispatch msg)
    have "safe_on {Exit 1, Assert_failed} sys_inv
        (run_steps (map run_upcall (intf_dispatch_msg (interface w1) msg)))"
      by (rule safe_on_run_steps) (auto intro: safe_upcall)
    from this inv1 Read_dispatch c show ?thesis
      by (cases rule: safe_onE) (simp_all add: intf_on_read_def)
  qed
qed

section \<open>Profiles\<close>

abbreviation upload_stops :: "stop set" where
  "upload_stops \<equiv> {Undefined_behaviour Indeterminate_read, Undefined_behaviour Unrepresentable}"

lemma total_request: "request_ok r \<Longrightarrow> total_on sys_inv (queue_sdo r)"
  by (rule total_onI) (use sys_request in blast)

lemma safe_field:
  assumes "i < MAX_PROFILES"
  shows "safe_on upload_stops sys_inv (write_field_if_changed i f (field_value n f))"
proof (rule safe_onI)
  fix w :: "'a sled_env_scheme" assume inv: "sys_inv w"
  let ?w = "update_profile i (\<lambda>p. p\<lparr>field_states := (field_states p)(f := FIELD_WRITING)\<rparr>) w"
  let ?r = "write_field_if_changed i f (field_value n f) w"
  have u: "sys_inv ?w" by (rule sys_update_profile [OF inv]) simp_all
  have q: "\<exists>w'. queue_sdo (field_request i f v) ?w = Inr w' \<and> sys_inv w'" for v
    using sys_request [OF u, of "field_request i f v"] assms by auto
  show "(\<exists>e \<in> upload_stops. ?r = Inl e) \<or> (\<exists>w'. ?r = Inr w' \<and> sys_inv w')"
    using inv q field_value_fails [of n f "profiles ?w ! i"]
    by (cases "field_value n f (profiles ?w ! i)") (auto simp: write_field_if_changed_def Let_def)
qed

lemma safe_load_slot: "safe_on upload_stops sys_inv (load_slot i)"
proof (rule safe_onI)
  fix w :: "'a sled_env_scheme" assume inv: "sys_inv w"
  let ?p = "profiles w ! i"
  from sys_request [OF inv, of "copy_request (profile_no ?p) 0"] obtain w1 where
    w1: "copy_motion_task (profile_no ?p) 0 w = Inr w1" "sys_inv w1"
    by (auto simp: copy_motion_task_def)
  then have "sys_inv (w1\<lparr>current_profile := Some (profile_no ?p)\<rparr>)" by simp
  with w1(1) inv show "(\<exists>e \<in> upload_stops. load_slot i w = Inl e) \<or> (\<exists>w'. load_slot i w = Inr w' \<and> sys_inv w')"
    by (cases "never_sent ?p"; cases "current_profile w")
      (simp_all add: load_slot_def read_determined_def Let_def)
qed

lemma next_number_ok:
  assumes "sys_inv w" and "i < MAX_PROFILES"
  shows "\<exists>n. next_number i w = Inr n"
proof -
  from assms have "length (profiles w) = MAX_PROFILES" "next_profile (profiles w ! i) < int MAX_PROFILES"
    by (simp_all add: sys_inv_def prof_inv_def table_ok_def links_ok_def)
  then show ?thesis by (simp add: next_number_def get_profile_def Let_def nat_less_iff)
qed

lemma safe_upload:
  assumes "i < MAX_PROFILES"
  shows "safe_on upload_stops sys_inv (upload_profile i)"
proof -
  have last: "safe_on upload_stops sys_inv (\<lambda>w :: 'a sled_env_scheme. bind_outcome (next_number i w) (\<lambda>n.
      run_steps (map (\<lambda>f. write_field_if_changed i f (field_value n f)) [F_FN, F_FT]) w))"
  proof (rule safe_onI)
    fix w :: "'a sled_env_scheme" assume inv: "sys_inv w"
    from next_number_ok [OF this assms] obtain n where n: "next_number i w = Inr n" by blast
    have "safe_on upload_stops sys_inv
        (run_steps (map (\<lambda>f. write_field_if_changed i f (field_value n f)) [F_FN, F_FT]) :: 'a sled_env_scheme action)"
      by (rule safe_on_run_steps) (auto intro: safe_field [OF assms])
    then show "(\<exists>e \<in> upload_stops. bind_outcome (next_number i w) (\<lambda>n.
          run_steps (map (\<lambda>f. write_field_if_changed i f (field_value n f)) [F_FN, F_FT]) w) = Inl e)
        \<or> (\<exists>w'. bind_outcome (next_number i w) (\<lambda>n.
          run_steps (map (\<lambda>f. write_field_if_changed i f (field_value n f)) [F_FN, F_FT]) w) = Inr w' \<and> sys_inv w')"
      using inv unfolding n bind_outcome_simps by (rule safe_onE) blast+
  qed
  have copy: "safe_on upload_stops sys_inv (\<lambda>w :: 'a sled_env_scheme. copy_motion_task 0 (profile_no (profiles w ! i)) w)"
    by (rule safe_onI) (use sys_request [of _ "copy_request 0 _"] in \<open>auto simp: copy_motion_task_def\<close>)
  have mark: "safe_on upload_stops sys_inv (\<lambda>w :: 'a sled_env_scheme. Inr (update_profile i (\<lambda>p. p\<lparr>never_sent := Some False\<rparr>) w))"
    by (rule safe_onI) (auto intro: sys_update_profile)
  have fields: "safe_on upload_stops sys_inv (run_steps (map (\<lambda>f. write_field_if_changed i f (field_value 0 f))
      [F_P, F_V, F_C, F_ACC, F_DEC, F_TAB]) :: 'a sled_env_scheme action)"
    by (rule safe_on_run_steps) (auto intro: safe_field [OF assms])
  show ?thesis
    unfolding upload_profile_def
    by (rule safe_on_run_steps) (use safe_load_slot fields last copy mark in auto)
qed

lemma safe_write_pending:
  assumes "sys_inv w" and "0 \<le> i" and "i < int MAX_PROFILES"
  shows "(\<exists>e \<in> upload_stops. sled_profile_write_pending_changes i w = Inl e)
    \<or> (\<exists>w'. sled_profile_write_pending_changes i w = Inr w' \<and> sys_inv w')"
  using assms
proof (induction "num_pending (profiles w)" arbitrary: i w rule: less_induct)
  case less
  let ?i = "nat i" and ?p = "profiles w ! nat i"
  from less.prems have len: "?i < length (profiles w)" "?i < MAX_PROFILES"
    and nx: "next_profile ?p < int MAX_PROFILES"
    by (auto simp: sys_inv_def prof_inv_def table_ok_def links_ok_def nat_less_iff)
  from len less.prems(2) have g: "get_profile i w = Inr ?p" by (simp add: get_profile_def)
  note eq = sled_profile_write_pending_changes.simps [of i w, unfolded g bind_outcome_simps]
  show ?case
  proof (cases "sled_profile_has_changes_pending ?p")
    case False
    with less.prems(1) eq show ?thesis by simp
  next
    case True
    from safe_upload [OF len(2)] less.prems(1) show ?thesis
    proof (cases rule: safe_onE)
      case (1 e)
      with True eq show ?thesis by simp
    next
      case (2 w1)
      from upload_profiles [OF 2(1) len(1)] num_pending_upload [OF len(1) True]
      have "num_pending (profiles w1) < num_pending (profiles w)" by simp
      from less.hyps [OF this 2(2) _ nx] True eq 2 show ?thesis by simp
    qed
  qed
qed

text \<open>The table operations, with a link that is a possible index.\<close>

lemma sys_table_ops:
  assumes "sys_inv w"
  shows "sys_inv (snd (sled_profile_set_table i tab w))"
    and "sys_inv (snd (sled_profile_set_target i type pos t w))"
    and "n < int MAX_PROFILES \<Longrightarrow> sys_inv (snd (sled_profile_set_next i n d b w))"
    and "sys_inv (snd (sled_profile_destroy i w))"
    and "sys_inv (snd (sled_profile_create w))"
    and "sys_inv (snd (sled_profile_create_pt pos t w))"
proof -
  show "sys_inv (snd (sled_profile_set_table i tab w))"
    using assms by (auto simp: sled_profile_set_table_def with_table_def mark_changed_def
        intro!: sys_update_profile)
  show "sys_inv (snd (sled_profile_set_target i type pos t w))"
    using assms by (auto simp: sled_profile_set_target_def with_position_def with_time_def
        with_position_type_def mark_changed_def intro!: sys_update_profile)
  show "sys_inv (snd (sled_profile_set_next i n d b w))" if "n < int MAX_PROFILES"
    using assms that by (auto simp: sled_profile_set_next_def with_next_def with_delay_def with_blend_def
        mark_changed_def intro!: sys_update_profile)
  show "sys_inv (snd (sled_profile_destroy i w))"
    using assms by (auto simp: sled_profile_destroy_def intro!: sys_update_profile)
  have len: "length (profiles w) = MAX_PROFILES"
    using assms by (simp add: sys_inv_def prof_inv_def table_ok_def)
  show c: "sys_inv (snd (sled_profile_create w))"
    using assms by (auto simp: sled_profile_create_eq [OF len] created_profile_def cleared_profile_def
        sled_profile_mark_as_unsaved_def MAX_PROFILES_def split: option.split intro!: sys_update_profile)
  then show "sys_inv (snd (sled_profile_create_pt pos t w))"
    by (auto simp: sled_profile_create_pt_def Let_def split_beta intro!: sys_update_profile)
qed

section \<open>Functions of the server\<close>

text \<open>A call that returns a result beside the new state.\<close>

definition dropping :: "('w \<Rightarrow> ('r \<times> 'w) outcome) \<Rightarrow> 'w action" where
  "dropping f w = bind_outcome (f w) (\<lambda>(r, w). Inr w)"

lemma total_quietly: "(\<And>w. P w \<Longrightarrow> P (snd (f w))) \<Longrightarrow> total_on P (quietly f)"
  by (rule total_onI) (simp add: quietly_def)

lemma safe_execute: "safe_on upload_stops sys_inv (dropping (sled_profile_execute i))"
proof (rule safe_onI)
  fix w :: "'a sled_env_scheme" assume inv: "sys_inv w"
  let ?steps = "[sled_profile_write_pending_changes i,
           (\<lambda>w. mch_sdo_queue_write OB_MOTION_TASK 0x00
              (word_of_int (profile_no (profiles w ! nat i))) 0x02 w),
           mch_sdo_queue_write OB_CONTROL_WORD 0x00 (0x1F OR 0x20) 0x02,
           mch_mp_handle_event EV_MP_SETPOINT_SET]"
  have q: "\<exists>w'. mch_sdo_queue_write a b c d u = Inr w' \<and> sys_inv w'"
    if "sys_inv u" for a b c d and u :: "'a sled_env_scheme"
    using sys_request [OF that, of "plain_write a b c d"] by (auto simp: mch_sdo_queue_write_eq)
  have m: "\<exists>w'. mch_mp_handle_event EV_MP_SETPOINT_SET u = Inr w' \<and> sys_inv w'"
    if "sys_inv u" for u :: "'a sled_env_scheme"
    using sys_drive_event [OF that, of "Mp_event EV_MP_SETPOINT_SET"]
    by (auto simp: plant_op_ok_def drive_op_ok_def)
  show "(\<exists>e \<in> upload_stops. dropping (sled_profile_execute i) w = Inl e)
      \<or> (\<exists>w'. dropping (sled_profile_execute i) w = Inr w' \<and> sys_inv w')"
  proof (cases "profile_handle i w \<and> mp_state_of w = ST_MP_PP_IDLE")
    case False
    with inv show ?thesis by (auto simp: dropping_def sled_profile_execute_def)
  next
    case True
    then have i: "0 \<le> i" "i < int MAX_PROFILES" by (simp_all add: profile_handle_def)
    have "(\<exists>e \<in> upload_stops. run_steps ?steps w = Inl e) \<or> (\<exists>w'. run_steps ?steps w = Inr w' \<and> sys_inv w')"
    proof (cases "sled_profile_write_pending_changes i w")
      case (Inl e)
      with safe_write_pending [OF inv i] show ?thesis by simp
    next
      case (Inr w1)
      with safe_write_pending [OF inv i] have "sys_inv w1" by simp
      from q [OF this] obtain w2 where w2: "mch_sdo_queue_write OB_MOTION_TASK 0x00
          (word_of_int (profile_no (profiles w1 ! nat i))) 0x02 w1 = Inr w2" "sys_inv w2" by blast
      from q [OF w2(2)] obtain w3 where
        w3: "mch_sdo_queue_write OB_CONTROL_WORD 0x00 (0x1F OR 0x20) 0x02 w2 = Inr w3" "sys_inv w3" by blast
      from m [OF w3(2)] obtain w4 where "mch_mp_handle_event EV_MP_SETPOINT_SET w3 = Inr w4" "sys_inv w4"
        by blast
      with Inr w2(1) w3(1) show ?thesis by simp
    qed
    with True show ?thesis by (auto simp: dropping_def sled_profile_execute_def simp del: run_steps.simps)
  qed
qed

lemma ids_okD:
  assumes "sys_inv w"
  shows "0 \<le> sinusoid_there w" "0 \<le> sinusoid_rthere w" "0 \<le> sinusoid_back w" "0 \<le> sinusoid_rback w"
    "sinusoid_there w < int MAX_PROFILES" "sinusoid_rthere w < int MAX_PROFILES"
    "sinusoid_back w < int MAX_PROFILES" "sinusoid_rback w < int MAX_PROFILES"
  using assms by (simp_all add: sys_inv_def ids_ok_def)

lemma safe_targets:
  "safe_on upload_stops sys_inv (set_target_there p amplitude period)"
  "safe_on upload_stops sys_inv (set_target_back p period)"
proof -
  show "safe_on upload_stops sys_inv (set_target_there p amplitude period)"
  proof (rule safe_onI)
    fix w :: "'a sled_env_scheme" assume "sys_inv w"
    with sys_table_ops(2) [OF this]
    show "(\<exists>e \<in> upload_stops. set_target_there p amplitude period w = Inl e)
        \<or> (\<exists>w'. set_target_there p amplitude period w = Inr w' \<and> sys_inv w')"
      by (cases "last_position w") (simp_all add: set_target_there_def read_determined_def quietly_def)
  qed
  show "safe_on upload_stops sys_inv (set_target_back p period)"
  proof (rule safe_onI)
    fix w :: "'a sled_env_scheme" assume "sys_inv w"
    with sys_table_ops(2) [OF this]
    show "(\<exists>e \<in> upload_stops. set_target_back p period w = Inl e)
        \<or> (\<exists>w'. set_target_back p period w = Inr w' \<and> sys_inv w')"
      by (cases "last_position w") (simp_all add: set_target_back_def read_determined_def quietly_def)
  qed
qed

lemma safe_next:
  assumes "\<And>w. sys_inv w \<Longrightarrow> n w < int MAX_PROFILES"
  shows "safe_on upload_stops sys_inv (set_next_of p n)"
proof (rule safe_onI)
  fix w :: "'a sled_env_scheme" assume inv: "sys_inv w"
  from sys_table_ops(3) [OF inv assms [OF inv]]
  show "(\<exists>e \<in> upload_stops. set_next_of p n w = Inl e) \<or> (\<exists>w'. set_next_of p n w = Inr w' \<and> sys_inv w')"
    by (simp add: set_next_of_def quietly_def)
qed

lemma safe_write_pending_of:
  assumes "\<And>w. sys_inv w \<Longrightarrow> 0 \<le> p w \<and> p w < int MAX_PROFILES"
  shows "safe_on upload_stops sys_inv (write_pending_of p)"
  by (rule safe_onI) (use assms safe_write_pending in \<open>auto simp: write_pending_of_def\<close>)

lemma safe_execute_of: "safe_on upload_stops sys_inv (dropping (\<lambda>w. sled_profile_execute (p w) w))"
proof (rule safe_onI)
  fix w :: "'a sled_env_scheme" assume "sys_inv w"
  with safe_execute [of "p w"]
  show "(\<exists>e \<in> upload_stops. dropping (\<lambda>w. sled_profile_execute (p w) w) w = Inl e)
      \<or> (\<exists>w'. dropping (\<lambda>w. sled_profile_execute (p w) w) w = Inr w' \<and> sys_inv w')"
    by (cases rule: safe_onE) (auto simp: dropping_def)
qed

lemma dropping_bind:
  "dropping (\<lambda>w. bind_outcome (f w) g) = (\<lambda>w. bind_outcome (f w) (dropping g))"
  by (simp add: dropping_def [abs_def] bind_outcome_assoc)

lemma dropping_Inr: "dropping (\<lambda>w. Inr (r, w)) = Inr"
  by (rule ext) (simp add: dropping_def)

lemma safe_Inr: "safe_on S P Inr"
  by (simp add: safe_on_def)

lemma safe_sinusoids:
  "safe_on upload_stops sys_inv (dropping (sled_sinusoid_start amplitude period) :: 'a sled_env_scheme action)"
  "safe_on upload_stops sys_inv (dropping sled_sinusoid_stop :: 'a sled_env_scheme action)"
  "safe_on upload_stops sys_inv (dropping (sled_rsinusoid_start amplitude period) :: 'a sled_env_scheme action)"
  "safe_on upload_stops sys_inv (dropping sled_rsinusoid_stop :: 'a sled_env_scheme action)"
proof -
  have nx: "safe_on upload_stops sys_inv (set_next_of p sinusoid_there)"
    "safe_on upload_stops sys_inv (set_next_of p sinusoid_back)"
    "safe_on upload_stops sys_inv (set_next_of p sinusoid_rback)"
    "safe_on upload_stops sys_inv (set_next_of p (\<lambda>_. - 1))"
    for p :: "'a sled_env_scheme \<Rightarrow> int"
    by (rule safe_next, simp add: ids_okD)+
  have wr: "safe_on upload_stops sys_inv (write_pending_of (sinusoid_there :: 'a sled_env_scheme \<Rightarrow> int))"
    "safe_on upload_stops sys_inv (write_pending_of (sinusoid_rthere :: 'a sled_env_scheme \<Rightarrow> int))"
    "safe_on upload_stops sys_inv (write_pending_of (sinusoid_back :: 'a sled_env_scheme \<Rightarrow> int))"
    "safe_on upload_stops sys_inv (write_pending_of (sinusoid_rback :: 'a sled_env_scheme \<Rightarrow> int))"
    by (rule safe_write_pending_of, simp add: ids_okD)+
  note parts = nx wr safe_targets
  show "safe_on upload_stops sys_inv (dropping (sled_sinusoid_start amplitude period) :: 'a sled_env_scheme action)"
    unfolding sled_sinusoid_start_def dropping_bind
    by (intro safe_on_bind safe_on_run_steps safe_execute_of) (use parts in auto)
  show "safe_on upload_stops sys_inv (dropping sled_sinusoid_stop :: 'a sled_env_scheme action)"
    unfolding sled_sinusoid_stop_def [abs_def] dropping_bind dropping_Inr bind_outcome_Inr
    by (intro safe_on_bind safe_on_run_steps safe_Inr) (use parts in auto)
  show "safe_on upload_stops sys_inv (dropping (sled_rsinusoid_start amplitude period) :: 'a sled_env_scheme action)"
    unfolding sled_rsinusoid_start_def dropping_bind
    by (intro safe_on_bind safe_on_run_steps safe_execute_of) (use parts in auto)
  show "safe_on upload_stops sys_inv (dropping sled_rsinusoid_stop :: 'a sled_env_scheme action)"
    unfolding sled_rsinusoid_stop_def [abs_def] dropping_bind dropping_Inr bind_outcome_Inr
    by (intro safe_on_bind safe_on_run_steps safe_Inr) (use parts in auto)
qed

lemma total_light: "total_on sys_inv (dropping (sled_light_set_state b))"
proof (rule total_onI)
  fix w :: "'a sled_env_scheme" assume inv: "sys_inv w"
  from sys_request [OF inv, of "plain_write OB_O_O1 1 (if b then 1 else 0) 4"] inv
  show "\<exists>w'. dropping (sled_light_set_state b) w = Inr w' \<and> sys_inv w'"
    by (auto simp: dropping_def sled_light_set_state_def mch_sdo_queue_write_eq)
qed

lemma safe_positions:
  "safe_on upload_stops sys_inv (dropping sled_rt_get_position_and_time)"
  "safe_on upload_stops sys_inv (dropping sled_rt_get_position)"
proof -
  show "safe_on upload_stops sys_inv (dropping sled_rt_get_position_and_time)"
    by (rule safe_onI) (auto simp: dropping_def sled_rt_get_position_and_time_def get_time_def
        read_determined_def split: option.split)
  show "safe_on upload_stops sys_inv (dropping sled_rt_get_position)"
    by (rule safe_onI) (auto simp: dropping_def sled_rt_get_position_def read_determined_def
        split: option.split)
qed

section \<open>Every way into the library\<close>

datatype sled_op =
    Bus_readable
  | Watchdog_timeout
  | Profile_create double double
  | Profile_destroy int
  | Profile_set_table int int
  | Profile_set_target int position_type_t double double
  | Profile_set_next int int double blend_type_t
  | Profile_execute int
  | Sinusoid_start double double
  | Sinusoid_stop
  | Rsinusoid_start double double
  | Rsinusoid_stop
  | Light bool
  | Get_position
  | Get_position_and_time

fun sled_op_action :: "sled_op \<Rightarrow> 'z sled_env_scheme action" where
  "sled_op_action Bus_readable = intf_on_read"
| "sled_op_action Watchdog_timeout = nmt_watchdog"
| "sled_op_action (Profile_create pos t) = quietly (sled_profile_create_pt pos t)"
| "sled_op_action (Profile_destroy i) = quietly (sled_profile_destroy i)"
| "sled_op_action (Profile_set_table i tab) = quietly (sled_profile_set_table i tab)"
| "sled_op_action (Profile_set_target i type pos t) = quietly (sled_profile_set_target i type pos t)"
| "sled_op_action (Profile_set_next i n d b) = quietly (sled_profile_set_next i n d b)"
| "sled_op_action (Profile_execute i) = dropping (sled_profile_execute i)"
| "sled_op_action (Sinusoid_start amplitude period) = dropping (sled_sinusoid_start amplitude period)"
| "sled_op_action Sinusoid_stop = dropping sled_sinusoid_stop"
| "sled_op_action (Rsinusoid_start amplitude period) = dropping (sled_rsinusoid_start amplitude period)"
| "sled_op_action Rsinusoid_stop = dropping sled_rsinusoid_stop"
| "sled_op_action (Light b) = dropping (sled_light_set_state b)"
| "sled_op_action Get_position = dropping sled_rt_get_position"
| "sled_op_action Get_position_and_time = dropping sled_rt_get_position_and_time"

text \<open>
  The one obligation of the caller, which the library does not check: a link to an entry of the
  table, or a negative number.
\<close>

definition sled_op_ok :: "sled_op \<Rightarrow> bool" where
  "sled_op_ok x \<longleftrightarrow> (case x of Profile_set_next i n d b \<Rightarrow> n < int MAX_PROFILES | _ \<Rightarrow> True)"

lemma safe_sled_op:
  assumes "sled_op_ok x"
  shows "safe_on sled_stops sys_inv (sled_op_action x)"
proof -
  have up: "safe_on upload_stops sys_inv f \<Longrightarrow> safe_on sled_stops sys_inv f"
    for f :: "'a sled_env_scheme action" by (erule safe_on_mono) (auto simp: sled_stops_def)
  have io: "safe_on {Exit 1, Assert_failed} sys_inv f \<Longrightarrow> safe_on sled_stops sys_inv f"
    for f :: "'a sled_env_scheme action" by (erule safe_on_mono) (auto simp: sled_stops_def)
  have wd: "safe_on {Exit 1} sys_inv f \<Longrightarrow> safe_on sled_stops sys_inv f"
    for f :: "'a sled_env_scheme action" by (erule safe_on_mono) (auto simp: sled_stops_def)
  show ?thesis
  proof (cases x)
    case (Profile_set_next i n d b)
    with assms have "n < int MAX_PROFILES" by (simp add: sled_op_ok_def)
    then show ?thesis unfolding Profile_set_next sled_op_action.simps
      by (intro total_on_safe total_quietly sys_table_ops(3))
  qed (auto simp: up safe_execute safe_sinusoids safe_positions io safe_read wd safe_watchdog
      intro!: total_on_safe total_light total_quietly sys_table_ops)
qed

end
