(* ===== verification/Sled_Props.thy ===== *)
theory Sled_Props
  imports Sled_Inv
begin

text \<open>
  What the library guarantees as a whole: creation establishes the invariant, every use keeps it;
  the watchdog stops the drive; the reported position; and the sinusoids.
\<close>

section \<open>Creation\<close>

text \<open>The table while \<^verbatim>\<open>sled_create\<close> fills it: the first \<open>k\<close> profiles are in use.\<close>

definition tab_inv :: "nat \<Rightarrow> 'z profile_env_scheme \<Rightarrow> bool" where
  "tab_inv k w \<longleftrightarrow> table_ok w \<and> links_ok w
     \<and> (\<forall>i < MAX_PROFILES. in_use (profiles w ! i) \<longleftrightarrow> i < k)"

lemma free_profile_eqI:
  "i < length ps \<Longrightarrow> \<not> in_use (ps ! i) \<Longrightarrow> (\<And>k. k < i \<Longrightarrow> in_use (ps ! k)) \<Longrightarrow> free_profile ps = Some i"
proof (induction ps arbitrary: i)
  case Nil
  then show ?case by simp
next
  case (Cons p ps)
  show ?case
  proof (cases i)
    case 0
    with Cons.prems show ?thesis by simp
  next
    case (Suc j)
    have "in_use p" using Cons.prems(3) [of 0] Suc by simp
    moreover have "free_profile ps = Some j"
      by (rule Cons.IH) (use Cons.prems(1,2) Cons.prems(3) [of "Suc _"] Suc in auto)
    ultimately show ?thesis using Suc by simp
  qed
qed

lemma tab_inv_update:
  assumes "tab_inv k w" and "\<And>p. profile_no p = 201 + int i \<Longrightarrow> profile_no (f p) = 201 + int i"
    and "\<And>p. next_profile p < int MAX_PROFILES \<Longrightarrow> next_profile (f p) < int MAX_PROFILES"
    and "\<And>p. in_use (f p) = in_use p"
  shows "tab_inv k (update_profile i f w)"
proof -
  from assms(1) have len: "length (profiles w) = MAX_PROFILES" by (simp add: tab_inv_def table_ok_def)
  have "table_ok (update_profile i f w)"
    using assms(1,2) by (intro table_ok_update) (simp_all add: tab_inv_def)
  moreover have "links_ok (update_profile i f w)"
    using assms(1,3) len by (cases "i < MAX_PROFILES") (auto simp: tab_inv_def links_ok_def update_profile_def
        list_update_beyond dest!: set_update_subset_insert [THEN subsetD] intro: nth_mem)
  moreover have "in_use (profiles (update_profile i f w) ! j) \<longleftrightarrow> j < k" if "j < MAX_PROFILES" for j
    using assms(1,4) that len by (cases "j = i") (simp_all add: tab_inv_def)
  ultimately show ?thesis by (simp add: tab_inv_def)
qed

lemma tab_inv_create:
  assumes "tab_inv k w" and "k < MAX_PROFILES"
  obtains w' where "sled_profile_create w = (int k, w')" and "tab_inv (Suc k) w'"
proof -
  from assms have len: "length (profiles w) = MAX_PROFILES" by (simp add: tab_inv_def table_ok_def)
  have free: "free_profile (profiles w) = Some k"
    by (rule free_profile_eqI) (use assms len in \<open>auto simp: tab_inv_def\<close>)
  let ?w = "update_profile k (created_profile k) w"
  have "table_ok ?w"
    using assms(1) by (intro table_ok_update) (simp_all add: tab_inv_def created_profile_def
        cleared_profile_def sled_profile_mark_as_unsaved_def)
  moreover have "links_ok ?w"
    using assms(1) by (auto simp: tab_inv_def links_ok_def update_profile_def created_profile_def
        cleared_profile_def sled_profile_mark_as_unsaved_def MAX_PROFILES_def
        dest!: set_update_subset_insert [THEN subsetD])
  moreover have "in_use (profiles ?w ! j) \<longleftrightarrow> j < Suc k" if "j < MAX_PROFILES" for j
    using assms that len by (cases "j = k") (auto simp: tab_inv_def less_Suc_eq created_profile_def)
  ultimately have "tab_inv (Suc k) ?w" by (simp add: tab_inv_def)
  moreover have "sled_profile_create w = (int k, ?w)" using free len by (simp add: sled_profile_create_eq)
  ultimately show thesis using that by blast
qed

lemma tab_inv_ops:
  assumes "tab_inv k w"
  shows "tab_inv k (snd (sled_profile_set_table i tab w))"
    and "n < int MAX_PROFILES \<Longrightarrow> tab_inv k (snd (sled_profile_set_next i n d b w))"
proof -
  show "tab_inv k (snd (sled_profile_set_table i tab w))"
    using assms by (auto simp: sled_profile_set_table_def with_table_def mark_changed_def
        split: if_splits intro!: tab_inv_update)
  show "tab_inv k (snd (sled_profile_set_next i n d b w))" if "n < int MAX_PROFILES"
    using assms that by (auto simp: sled_profile_set_next_def with_next_def with_delay_def
        with_blend_def mark_changed_def split: if_splits intro!: tab_inv_update)
qed

lemma fold_clear:
  assumes "length (profiles w) = MAX_PROFILES" and "k \<le> MAX_PROFILES"
  shows "let w' = fold (\<lambda>i. sled_profile_clear (int i) False) [0 ..< k] w in
    length (profiles w') = MAX_PROFILES
    \<and> (\<forall>i < k. profile_no (profiles w' ! i) = 201 + int i \<and> next_profile (profiles w' ! i) = - 1
        \<and> \<not> in_use (profiles w' ! i))"
  using assms(2)
proof (induction k)
  case 0
  with assms(1) show ?case by simp
next
  case (Suc k)
  then show ?case
    by (auto simp: Let_def sled_profile_clear_def less_Suc_eq cleared_profile_def
        sled_profile_mark_as_unsaved_def)
qed

lemma tab_inv_clear:
  assumes "length (profiles w) = MAX_PROFILES"
  shows "tab_inv 0 (fold (\<lambda>i. sled_profile_clear (int i) False) [0 ..< MAX_PROFILES] w)"
  using fold_clear [OF assms, of MAX_PROFILES]
  by (auto simp: tab_inv_def table_ok_def links_ok_def Let_def in_set_conv_nth MAX_PROFILES_def)

lemma tab_inv_sled [simp]:
  "tab_inv k (w\<lparr>sinusoid_there := a\<rparr>) = tab_inv k w"
  "tab_inv k (w\<lparr>sinusoid_rthere := a\<rparr>) = tab_inv k w"
  "tab_inv k (w\<lparr>sinusoid_back := a\<rparr>) = tab_inv k w"
  "tab_inv k (w\<lparr>sinusoid_rback := a\<rparr>) = tab_inv k w"
  by (simp_all add: tab_inv_def table_ok_def links_ok_def)

lemma create_keeps_ids:
  assumes "sled_profile_create w = (i, w')"
  shows "sinusoid_there w' = sinusoid_there w" and "sinusoid_rthere w' = sinusoid_rthere w"
    and "sinusoid_back w' = sinusoid_back w" and "sinusoid_rback w' = sinusoid_rback w"
  using assms by (auto simp: sled_profile_create_def sled_profile_clear_def update_profile_def
      split: option.splits if_splits)

lemma ops_keep_ids:
  "sinusoid_there (snd (sled_profile_set_table i tab w)) = sinusoid_there w"
  "sinusoid_rthere (snd (sled_profile_set_table i tab w)) = sinusoid_rthere w"
  "sinusoid_back (snd (sled_profile_set_table i tab w)) = sinusoid_back w"
  "sinusoid_rback (snd (sled_profile_set_table i tab w)) = sinusoid_rback w"
  "sinusoid_there (snd (sled_profile_set_next i n d b w)) = sinusoid_there w"
  "sinusoid_rthere (snd (sled_profile_set_next i n d b w)) = sinusoid_rthere w"
  "sinusoid_back (snd (sled_profile_set_next i n d b w)) = sinusoid_back w"
  "sinusoid_rback (snd (sled_profile_set_next i n d b w)) = sinusoid_rback w"
  by (simp_all add: sled_profile_set_table_def sled_profile_set_next_def update_profile_def)

lemma setup_profiles_ok:
  assumes "length (profiles w) = MAX_PROFILES"
  shows "tab_inv 4 (setup_profiles w) \<and> sinusoid_there (setup_profiles w) = 0
    \<and> sinusoid_rthere (setup_profiles w) = 1 \<and> sinusoid_back (setup_profiles w) = 2
    \<and> sinusoid_rback (setup_profiles w) = 3"
proof -
  let ?w0 = "fold (\<lambda>i. sled_profile_clear (int i) False) [0 ..< MAX_PROFILES] w"
  have m: "4 < MAX_PROFILES" by (simp add: MAX_PROFILES_def)
  obtain w1 where w1: "sled_profile_create ?w0 = (int 0, w1)" "tab_inv (Suc 0) w1"
    by (rule tab_inv_create [OF tab_inv_clear [OF assms]]) (use m in auto)
  obtain w2 where w2: "sled_profile_create (w1\<lparr>sinusoid_there := 0\<rparr>) = (int (Suc 0), w2)" "tab_inv (Suc (Suc 0)) w2"
    by (rule tab_inv_create [of "Suc 0" "w1\<lparr>sinusoid_there := 0\<rparr>"]) (use m w1 in auto)
  obtain w3 where w3: "sled_profile_create (w2\<lparr>sinusoid_rthere := 1\<rparr>) = (int (Suc (Suc 0)), w3)"
    "tab_inv (Suc (Suc (Suc 0))) w3"
    by (rule tab_inv_create [of "Suc (Suc 0)" "w2\<lparr>sinusoid_rthere := 1\<rparr>"]) (use m w2 in auto)
  obtain w4 where w4: "sled_profile_create (w3\<lparr>sinusoid_back := 2\<rparr>) = (int (Suc (Suc (Suc 0))), w4)"
    "tab_inv (Suc (Suc (Suc (Suc 0)))) w4"
    by (rule tab_inv_create [of "Suc (Suc (Suc 0))" "w3\<lparr>sinusoid_back := 2\<rparr>"]) (use m w3 in auto)
  note ids = create_keeps_ids [OF w2(1)] create_keeps_ids [OF w3(1)] create_keeps_ids [OF w4(1)]
  define w5 where "w5 = w4\<lparr>sinusoid_rback := 3\<rparr>"
  have t5: "tab_inv 4 w5" using w4(2) by (simp add: w5_def eval_nat_numeral)
  have i5: "sinusoid_there w5 = 0" "sinusoid_rthere w5 = 1" "sinusoid_back w5 = 2" "sinusoid_rback w5 = 3"
    by (simp_all add: w5_def ids)
  have eq: "setup_profiles w =
      snd (sled_profile_set_next 2 0 (Fin 0) bln_after
      (snd (sled_profile_set_next 1 2 (Fin 0) bln_after
      (snd (sled_profile_set_next 0 2 (Fin 0) bln_after
      (snd (sled_profile_set_table 3 3 (snd (sled_profile_set_table 2 0
      (snd (sled_profile_set_table 1 1 (snd (sled_profile_set_table 0 0 w5)))))))))))))"
    using w1(1) w2(1) w3(1) w4(1) by (simp add: setup_profiles_def w5_def)
  have "tab_inv 4 (setup_profiles w)"
    unfolding eq by (intro tab_inv_ops t5) (simp_all add: MAX_PROFILES_def)
  moreover have "sinusoid_there (setup_profiles w) = 0" "sinusoid_rthere (setup_profiles w) = 1"
    "sinusoid_back (setup_profiles w) = 2" "sinusoid_rback (setup_profiles w) = 3"
    unfolding eq by (simp_all add: ops_keep_ids i5)
  ultimately show ?thesis by blast
qed

lemma created_inv:
  assumes "tab_inv 4 w" and "ids_ok w"
  shows "sys_inv (set_interface intf_set_tpdo_handler (set_interface intf_set_nmt_state_handler
    (set_interface intf_set_close_handler (setup_state_machines (set_interface (\<lambda>_. intf_create) w)))))"
  using assms
  by (auto simp: sys_inv_def intf_inv_def net_inv_def ds_inv_def sdo_quiet_def ds_handlers_set_def
      ds_mp_tied_def net_handlers_set_def net_ds_tied_def intf_wired_def prof_inv_def table_ok_def
      links_ok_def requests_ok_def ids_ok_def tab_inv_def set_interface_def setup_state_machines_def
      mch_intf_create_def mch_sdo_create_def mch_net_create_def mch_ds_create_def mch_mp_create_def
      intf_set_close_handler_def intf_set_nmt_state_handler_def intf_set_tpdo_handler_def)

lemma sled_create_inv:
  assumes "length (profiles w) = MAX_PROFILES"
  shows "\<exists>w'. sled_create w = Inr w' \<and> sys_inv w'
    \<and> (intf_state_of w' = ST_INTF_OPENED \<or> intf_state_of w' = ST_INTF_OPENING)"
proof -
  let ?w0 = "w\<lparr>ticks := Suc (ticks w), time_last_nmt_msg := d_sub (fst (get_time w)) MAX_NMT_DELAY\<rparr>"
  from setup_profiles_ok [of ?w0] assms have t: "tab_inv 4 (setup_profiles ?w0)"
    and i: "ids_ok (setup_profiles ?w0)" by (simp_all add: ids_ok_def MAX_PROFILES_def)
  define w1 where "w1 = set_interface intf_set_tpdo_handler (set_interface intf_set_nmt_state_handler
    (set_interface intf_set_close_handler
      (setup_state_machines (set_interface (\<lambda>_. intf_create) (setup_profiles ?w0)))))"
  have inv: "sys_inv w1" unfolding w1_def by (rule created_inv [OF t i])
  have st: "intf_state_of w1 = ST_INTF_CLOSED"
    by (simp add: w1_def setup_state_machines_def mch_intf_create_def set_interface_def)
  from inv have "intf_inv w1" by (simp add: sys_inv_def)
  from intf_open_event [OF this st] obtain w' where
    w': "mch_intf_handle_event EV_INTF_OPEN w1 = Inr w'" "intf_inv w'" "intf_env.more w' = intf_env.more w1"
      "intf_state_of w' = ST_INTF_OPENED \<or> intf_state_of w' = ST_INTF_OPENING" by (auto split: if_splits)
  have "sys_inv w'"
    using prof_intf(1) [OF w'(1)] inv w'(2) ids_ok_more [OF w'(3)] by (simp add: sys_inv_def)
  moreover have "sled_create w = Inr w'"
    using w'(1) by (simp add: sled_create_def w1_def get_time_def Let_def)
  ultimately show ?thesis using w'(4) by blast
qed


section \<open>The watchdog\<close>

lemma enter_unknown_sends:
  assumes "mch_net_on_enter w = Inr w'" and "net_state_of w = ST_NET_UNKNOWN"
  shows "\<exists>fs. sent w' = fs @ [nmt_frame NMT_ENTERPREOPERATIONAL]"
  using assms
  by (auto simp: mch_net_on_enter_def bind_outcome_eq_Inr send_nmt_def intf_send_nmt_command_def
      frame_simps)

lemma watchdog_event:
  assumes "sys_inv w" and "net_state_of w \<in> {ST_NET_PREOPERATIONAL, ST_NET_OPERATIONAL}"
  shows "\<exists>w'. mch_net_handle_event EV_NET_WATCHDOG_FAILED w = Inr w' \<and> sys_inv w'
    \<and> net_state_of w' = ST_NET_UNKNOWN \<and> (\<exists>fs. sent w' = fs @ [nmt_frame NMT_ENTERPREOPERATIONAL])"
proof -
  have n: "mch_net_next_state_given_event (net_state_of w) EV_NET_WATCHDOG_FAILED = ST_NET_UNKNOWN"
    using assms(2) by auto
  then have "\<not> net_exits EV_NET_WATCHDOG_FAILED w" by (simp add: net_exits_def)
  with sys_net_event [OF assms(1), of EV_NET_WATCHDOG_FAILED] n obtain w' where
    w': "mch_net_handle_event EV_NET_WATCHDOG_FAILED w = Inr w'" "sys_inv w'"
      "net_state_of w' = ST_NET_UNKNOWN" by auto
  from w'(1) n assms(2) obtain w1 where
    "mch_net_on_enter (set_net_state ST_NET_UNKNOWN w1) = Inr w'"
    by (auto simp: net_machine.handle_changed bind_outcome_eq_Inr)
  from enter_unknown_sends [OF this] w' show ?thesis by simp
qed

text \<open>
  C22: the watchdog. When it runs more than two seconds (as the program computes them) after the
  last NMT message, in a library whose network machine is past its start-up, it returns with the
  network machine back at \<^verbatim>\<open>UNKNOWN\<close>, drive and motion machine disabled, and the drive ordered to
  leave operation by the last frame sent. Otherwise it changes none of the machines.
\<close>

theorem watchdog_disables_drive:
  assumes "sys_inv w" and "net_state_of w \<in> {ST_NET_PREOPERATIONAL, ST_NET_OPERATIONAL}"
  shows "if d_gt (d_sub (timespec_seconds (clock w (ticks w))) (time_last_nmt_msg w)) MAX_NMT_DELAY
    then \<exists>w' fs. nmt_watchdog w = Inr w' \<and> net_state_of w' = ST_NET_UNKNOWN
      \<and> ds_state_of w' = ST_DS_DISABLED \<and> mp_state_of w' = ST_MP_DISABLED
      \<and> sent w' = fs @ [nmt_frame NMT_ENTERPREOPERATIONAL]
    else \<exists>w'. nmt_watchdog w = Inr w' \<and> mch_net w' = mch_net w \<and> mch_ds w' = mch_ds w
      \<and> mch_mp w' = mch_mp w \<and> mch_sdo w' = mch_sdo w \<and> sent w' = sent w"
proof (cases "d_gt (d_sub (timespec_seconds (clock w (ticks w))) (time_last_nmt_msg w)) MAX_NMT_DELAY")
  case True
  let ?w = "w\<lparr>ticks := Suc (ticks w), message_written := True\<rparr>"
  have "sys_inv ?w" "net_state_of ?w \<in> {ST_NET_PREOPERATIONAL, ST_NET_OPERATIONAL}" using assms by auto
  from watchdog_event [OF this] obtain w' fs where
    w': "mch_net_handle_event EV_NET_WATCHDOG_FAILED ?w = Inr w'" "sys_inv w'"
      "net_state_of w' = ST_NET_UNKNOWN" "sent w' = fs @ [nmt_frame NMT_ENTERPREOPERATIONAL]" by blast
  from w'(2,3) have "ds_state_of w' = ST_DS_DISABLED" "mp_state_of w' = ST_MP_DISABLED"
    by (auto simp: sys_inv_def intf_inv_def net_inv_def net_ds_tied_def ds_inv_def ds_mp_tied_def)
  moreover have "nmt_watchdog w = Inr w'"
    using True w'(1) by (simp add: nmt_watchdog_def get_time_def Let_def)
  ultimately show ?thesis using True w' by auto
next
  case False
  then show ?thesis by (simp add: nmt_watchdog_def get_time_def Let_def)
qed

section \<open>Time and position\<close>

text \<open>One rounding of a number of at most 32 bits: less than a third of a millionth off.\<close>

lemma rnd_near:
  assumes "\<bar>q\<bar> \<le> 2147483658"
  obtains r where "rnd q = Fin r" and "\<bar>r - q\<bar> \<le> 1 / 4000000"
proof -
  have "\<bar>q\<bar> \<le> 2 ^ 1000" using assms by (rule order_trans) simp
  then obtain r where r: "rnd q = Fin r" "\<bar>r - q\<bar> \<le> \<bar>q\<bar> / 2 ^ 53 + pow2 (- 1074)" by (rule rnd_error)
  from assms have "\<bar>q\<bar> / 2 ^ 53 \<le> 2147483658 / 2 ^ 53" by (intro divide_right_mono) simp_all
  with r(2) pow2_tiny have "\<bar>r - q\<bar> \<le> 1 / 4000000" by simp
  with r(1) that show ?thesis by blast
qed

lemma div_1000_near:
  assumes "\<bar>q\<bar> \<le> 2147483657" and "\<bar>q - t\<bar> \<le> e"
  obtains r where "d_div_const (Fin q) 1000 = Fin r" and "\<bar>r - t / 1000\<bar> \<le> e / 1000 + 1 / 4000000"
    and "\<bar>r\<bar> \<le> 2147483657"
proof -
  have "\<bar>q / 1000\<bar> \<le> 2147484" using assms(1) by (simp add: abs_le_iff field_simps)
  then have "\<bar>q / 1000\<bar> \<le> 2147483658" by simp
  then obtain r where r: "rnd (q / 1000) = Fin r" "\<bar>r - q / 1000\<bar> \<le> 1 / 4000000" by (rule rnd_near)
  have "\<bar>r - t / 1000\<bar> \<le> e / 1000 + 1 / 4000000" using r(2) assms(2) by linarith
  moreover have "\<bar>r\<bar> \<le> 2147483657" using r(2) \<open>\<bar>q / 1000\<bar> \<le> 2147484\<close> by linarith
  ultimately show ?thesis using that r(1) by simp
qed

text \<open>A \<^verbatim>\<open>timespec\<close> as the operating system returns it, within the first 68 years after booting.\<close>

definition timespec_ok :: "int \<times> int \<Rightarrow> bool" where
  "timespec_ok ts \<longleftrightarrow> 0 \<le> fst ts \<and> fst ts < 2 ^ 31 \<and> 0 \<le> snd ts \<and> snd ts < 1000000000"

definition exact_seconds :: "int \<times> int \<Rightarrow> rat" where
  "exact_seconds ts = of_int (fst ts) + of_int (snd ts) / 1000000000"

lemma timespec_seconds_near:
  assumes "timespec_ok ts"
  obtains r where "timespec_seconds ts = Fin r" and "\<bar>r - exact_seconds ts\<bar> \<le> 1 / 1000000"
    and "\<bar>r\<bar> \<le> 2147483650"
proof -
  obtain sec nsec where ts: "ts = (sec, nsec)" by (cases ts)
  with assms have b: "0 \<le> sec" "sec \<le> 2147483647" "0 \<le> nsec" "nsec < 1000000000"
    by (simp_all add: timespec_ok_def)
  from b(1,2) have s: "0 \<le> (of_int sec :: rat)" "(of_int sec :: rat) \<le> 2147483647"
    by (simp_all add: of_int_le_iff [of _ "2147483647", symmetric])
  from b(3,4) have n: "0 \<le> (of_int nsec :: rat)" "(of_int nsec :: rat) < 1000000000"
    by (simp_all add: of_int_less_iff [of _ "1000000000", symmetric])
  from s have "\<bar>of_int sec :: rat\<bar> \<le> 2147483658" by simp
  then obtain a where a: "rnd (of_int sec) = Fin a" "\<bar>a - of_int sec\<bar> \<le> 1 / 4000000" by (rule rnd_near)
  from n have "\<bar>of_int nsec :: rat\<bar> \<le> 2147483658" by simp
  then obtain c0 where c0: "rnd (of_int nsec) = Fin c0" "\<bar>c0 - of_int nsec\<bar> \<le> 1 / 4000000" by (rule rnd_near)
  from c0(2) n have "\<bar>c0\<bar> \<le> 2147483657" by linarith
  from div_1000_near [OF this c0(2)] obtain c1 where c1: "d_div_const (Fin c0) 1000 = Fin c1"
    "\<bar>c1 - of_int nsec / 1000\<bar> \<le> 1 / 4000000 / 1000 + 1 / 4000000" "\<bar>c1\<bar> \<le> 2147483657" .
  from div_1000_near [OF c1(3,2)] obtain c2 where c2: "d_div_const (Fin c1) 1000 = Fin c2"
    "\<bar>c2 - of_int nsec / 1000 / 1000\<bar> \<le> (1 / 4000000 / 1000 + 1 / 4000000) / 1000 + 1 / 4000000"
    "\<bar>c2\<bar> \<le> 2147483657" .
  from div_1000_near [OF c2(3,2)] obtain c3 where c3: "d_div_const (Fin c2) 1000 = Fin c3"
    "\<bar>c3 - of_int nsec / 1000 / 1000 / 1000\<bar>
      \<le> ((1 / 4000000 / 1000 + 1 / 4000000) / 1000 + 1 / 4000000) / 1000 + 1 / 4000000" .
  from c3(2) have c: "\<bar>c3 - of_int nsec / 1000000000\<bar> \<le> 1 / 3900000" by simp
  have nb: "0 \<le> (of_int nsec / 1000000000 :: rat)" "(of_int nsec / 1000000000 :: rat) < 1" using n by simp_all
  from a(2) c s nb have "\<bar>a + c3\<bar> \<le> 2147483649" by linarith
  then have "\<bar>a + c3\<bar> \<le> 2147483658" by simp
  then obtain r where r: "rnd (a + c3) = Fin r" "\<bar>r - (a + c3)\<bar> \<le> 1 / 4000000" by (rule rnd_near)
  have "timespec_seconds ts = Fin r"
    unfolding timespec_seconds_def ts prod.case a(1) c0(1) c1(1) c2(1) c3(1) d_add.simps by (rule r(1))
  moreover have "\<bar>r - exact_seconds ts\<bar> \<le> 1 / 1000000"
    unfolding exact_seconds_def ts fst_conv snd_conv using r(2) a(2) c by linarith
  moreover have "\<bar>r\<bar> \<le> 2147483650" using r(2) \<open>\<bar>a + c3\<bar> \<le> 2147483649\<close> by linarith
  ultimately show ?thesis using that by blast
qed

text \<open>
  C31: the two seconds of the watchdog. Computed with \<^verbatim>\<open>double\<close>s from the two clock readings, the
  delay is exceeded whenever the readings are at least 2.00001 seconds apart, and not exceeded
  whenever they are at most 1.99999 seconds apart.
\<close>

theorem watchdog_delay_accuracy:
  assumes "timespec_ok t0" and "timespec_ok t1"
  shows "(exact_seconds t1 - exact_seconds t0 \<ge> 2 + 1 / 100000 \<longrightarrow>
      d_gt (d_sub (timespec_seconds t1) (timespec_seconds t0)) MAX_NMT_DELAY)
    \<and> (exact_seconds t1 - exact_seconds t0 \<le> 2 - 1 / 100000 \<longrightarrow>
      \<not> d_gt (d_sub (timespec_seconds t1) (timespec_seconds t0)) MAX_NMT_DELAY)"
proof -
  obtain a where a: "timespec_seconds t0 = Fin a" "\<bar>a - exact_seconds t0\<bar> \<le> 1 / 1000000" "\<bar>a\<bar> \<le> 2147483650"
    using timespec_seconds_near [OF assms(1)] .
  obtain b where b: "timespec_seconds t1 = Fin b" "\<bar>b - exact_seconds t1\<bar> \<le> 1 / 1000000" "\<bar>b\<bar> \<le> 2147483650"
    using timespec_seconds_near [OF assms(2)] .
  have "0 \<le> exact_seconds t0" "0 \<le> exact_seconds t1"
    using assms by (simp_all add: timespec_ok_def exact_seconds_def)
  with a(2,3) b(2,3) have "\<bar>b + - a\<bar> \<le> 2147483658" by linarith
  then obtain d where d: "rnd (b + - a) = Fin d" "\<bar>d - (b + - a)\<bar> \<le> 1 / 4000000" by (rule rnd_near)
  have "d_sub (timespec_seconds t1) (timespec_seconds t0) = Fin d"
    using a(1) b(1) d(1) by (simp add: d_sub_def)
  moreover have "\<bar>d - (exact_seconds t1 - exact_seconds t0)\<bar> \<le> 1 / 400000"
    using a(2) b(2) d(2) by linarith
  ultimately show ?thesis
    unfolding MAX_NMT_DELAY_def by (simp only: d_gt.simps) (intro conjI impI; linarith)
qed

lemma tpdo_word_lo8: "tpdo_word (lo8 x 0) (lo8 x 8) (lo8 x 16) (lo8 x 24) = x"
proof -
  have "tpdo_word (lo8 x 0) (lo8 x 8) (lo8 x 16) (lo8 x 24)
      = le32 (lo8 x 0) (lo8 x 8) (lo8 x 16) (lo8 x 24)"
    by (simp add: tpdo_word_def le32_or or.assoc or.commute or.left_commute)
  then show ?thesis by simp
qed

lemma sint_int32: "int32_range p \<Longrightarrow> sint (word_of_int p :: u32) = p"
  by (simp add: int32_range_def sint_sbintrunc' signed_take_bit_int_eq_self)

lemma to_metres_near:
  assumes "int32_range p"
  obtains x where "to_metres (word_of_int p) = Fin x" and "\<bar>x - of_int p / 1000000\<bar> < 3 / 10000000"
proof -
  from assms have "\<bar>p\<bar> \<le> 2147483648" by (simp add: int32_range_def abs_le_iff)
  then have b: "\<bar>of_int p :: rat\<bar> \<le> 2147483648"
    by (metis of_int_abs of_int_le_iff of_int_numeral)
  then have "\<bar>of_int p :: rat\<bar> \<le> 2147483658" by simp
  then obtain q where q: "rnd (of_int p) = Fin q" "\<bar>q - of_int p\<bar> \<le> 1 / 4000000" by (rule rnd_near)
  from q(2) b have "\<bar>q\<bar> \<le> 2147483657" by linarith
  from div_1000_near [OF this q(2)] obtain x1 where x1: "d_div_const (Fin q) 1000 = Fin x1"
    "\<bar>x1 - of_int p / 1000\<bar> \<le> 1 / 4000000 / 1000 + 1 / 4000000" "\<bar>x1\<bar> \<le> 2147483657" .
  from div_1000_near [OF x1(3,2)] obtain x2 where x2: "d_div_const (Fin x1) 1000 = Fin x2"
    "\<bar>x2 - of_int p / 1000 / 1000\<bar> \<le> (1 / 4000000 / 1000 + 1 / 4000000) / 1000 + 1 / 4000000" .
  have "to_metres (word_of_int p) = Fin x2"
    unfolding to_metres_def sint_int32 [OF assms] q(1) x1(1) by (rule x2(1))
  moreover have "\<bar>x2 - of_int p / 1000000\<bar> < 3 / 10000000" using x2(2) by simp
  ultimately show ?thesis using that by blast
qed

definition tpdo2_bytes :: "int \<Rightarrow> int \<Rightarrow> bytes8" where
  "tpdo2_bytes p v = (let x = word_of_int p :: u32; y = word_of_int v :: u32 in
     Bytes8 (lo8 x 0) (lo8 x 8) (lo8 x 16) (lo8 x 24) (lo8 y 0) (lo8 y 8) (lo8 y 16) (lo8 y 24))"

text \<open>
  C32: the position a client is told. A second transmit PDO with any position and velocity the drive
  can report (32-bit numbers of micrometres, least significant byte first) is taken over with an
  error of less than 0.3 micrometres; while the network is operational, a client is then given this
  position, with the time at which the PDO arrived.
\<close>

theorem tpdo2_position:
  assumes "int32_range p" and "int32_range v" and "net_state_of w = ST_NET_OPERATIONAL"
  shows "\<exists>w' x y. intf_on_tpdo 2 (tpdo2_bytes p v) w = Inr w'
    \<and> \<bar>x - of_int p / 1000000\<bar> < 3 / 10000000 \<and> \<bar>y - of_int v / 1000000\<bar> < 3 / 10000000
    \<and> last_velocity w' = Some (Fin y) \<and> sent w' = sent w
    \<and> sled_rt_get_position w' = Inr ((0, Some (Fin x)), w')
    \<and> sled_rt_get_position_and_time w' = Inr ((0, Fin x, timespec_seconds (clock w (ticks w))), w')"
proof -
  obtain x where x: "to_metres (word_of_int p) = Fin x" "\<bar>x - of_int p / 1000000\<bar> < 3 / 10000000"
    using to_metres_near [OF assms(1)] .
  obtain y where y: "to_metres (word_of_int v) = Fin y" "\<bar>y - of_int v / 1000000\<bar> < 3 / 10000000"
    using to_metres_near [OF assms(2)] .
  show ?thesis
    using x y assms(3)
    by (intro exI [of _ "w\<lparr>ticks := Suc (ticks w),
          last_time := Some (timespec_seconds (clock w (ticks w))),
          last_position := Some (Fin x), last_velocity := Some (Fin y)\<rparr>"] exI [of _ x] exI [of _ y])
      (simp add: intf_on_tpdo_def tpdo2_bytes_def Let_def tpdo_word_lo8 get_time_def
        sled_rt_get_position_def sled_rt_get_position_and_time_def read_determined_def)
qed

section \<open>Stopping a sinusoid without a network\<close>

text \<open>
  A disabled SDO machine keeps every request. \<open>waiting_change\<close>: a field of the profile is still to
  be queued; \<open>poisoned\<close>: a request with an abort callback is queued. The network machine is \<open>n\<close>.
\<close>

definition waiting_change :: "mch_net_t \<Rightarrow> nat \<Rightarrow> 'z net_env_scheme \<Rightarrow> bool" where
  "waiting_change n i w \<longleftrightarrow> sdo_state_of w = ST_SDO_DISABLED \<and> mch_net w = n
     \<and> i < length (profiles w) \<and> field_states (profiles w ! i) F_C = FIELD_CHANGED"

definition poisoned :: "mch_net_t \<Rightarrow> 'z net_env_scheme \<Rightarrow> bool" where
  "poisoned n w \<longleftrightarrow> sdo_state_of w = ST_SDO_DISABLED \<and> mch_net w = n
     \<and> (\<exists>sdo \<in> set (sdo_queue_of w). abort_callback sdo \<noteq> None)"

lemma queue_disabled: "sdo_state_of w = ST_SDO_DISABLED \<Longrightarrow> queue_sdo r w = Inr (push_sdo r w)"
  by (simp add: queue_sdo_total)

lemma waiting_keeps:
  "f \<noteq> F_C \<Longrightarrow> keeps (waiting_change n i) (write_field_if_changed i f val)"
  "keeps (waiting_change n i) (load_slot i)"
  by (auto intro!: keepsI simp: waiting_change_def write_field_if_changed_def load_slot_def Let_def
      copy_motion_task_def bind_outcome_eq_Inr queue_disabled push_sdo_def update_profile_def
      read_determined_def split: if_splits option.splits)

lemma poisoned_keeps:
  "keeps (poisoned n) (write_field_if_changed i f val)"
  "keeps (poisoned n) (copy_motion_task a b)"
  by (auto intro!: keepsI simp: poisoned_def write_field_if_changed_def Let_def
      copy_motion_task_def bind_outcome_eq_Inr queue_disabled push_sdo_def update_profile_def
      split: if_splits)

lemma poisoned_fields:
  "keeps (poisoned n) (run_steps (map (\<lambda>f. write_field_if_changed i f (val f)) fs))"
  by (rule keeps_run_steps) (auto intro: poisoned_keeps)

lemma poisoned_links:
  "keeps (poisoned n) (\<lambda>w. bind_outcome (next_number i w) (\<lambda>m.
     run_steps (map (\<lambda>f. write_field_if_changed i f (field_value m f)) fs) w))"
proof (rule keepsI)
  fix w w' :: "'a net_env_scheme" assume p: "poisoned n w" and "bind_outcome (next_number i w) (\<lambda>m.
      run_steps (map (\<lambda>f. write_field_if_changed i f (field_value m f)) fs) w) = Inr w'"
  then obtain m where "run_steps (map (\<lambda>f. write_field_if_changed i f (field_value m f)) fs) w = Inr w'"
    by (auto simp: bind_outcome_eq_Inr)
  then show "poisoned n w'" by (rule keepsD [OF poisoned_fields p])
qed

lemma change_poisons:
  "waiting_change n i w \<Longrightarrow> write_field_if_changed i F_C val w = Inr w' \<Longrightarrow> poisoned n w'"
  by (auto simp: waiting_change_def poisoned_def write_field_if_changed_def Let_def bind_outcome_eq_Inr
      queue_disabled push_sdo_def update_profile_def field_request_def write_request_def)

lemma upload_poisons:
  assumes "waiting_change n i w" and "upload_profile i w = Inr w'"
  shows "poisoned n w'"
proof -
  let ?f = "\<lambda>f. write_field_if_changed i f (field_value 0 f)"
  let ?g = "\<lambda>w. bind_outcome (next_number i w) (\<lambda>n.
      run_steps (map (\<lambda>f. write_field_if_changed i f (field_value n f)) [F_FN, F_FT]) w)"
  have k: "keeps (waiting_change n i) (run_steps [load_slot i, ?f F_P, ?f F_V])"
    by (rule keeps_run_steps) (auto intro: waiting_keeps)
  from assms(2) obtain w1 w2 w3 w4 w5 where w1: "run_steps [load_slot i, ?f F_P, ?f F_V] w = Inr w1"
    and w2: "?f F_C w1 = Inr w2" and w3: "run_steps (map ?f [F_ACC, F_DEC, F_TAB]) w2 = Inr w3"
    and w4: "?g w3 = Inr w4" and w5: "copy_motion_task 0 (profile_no (profiles w4 ! i)) w4 = Inr w5"
    and w': "Inr (update_profile i (\<lambda>p. p\<lparr>never_sent := Some False\<rparr>) w5) = Inr w'"
    unfolding upload_profile_def by (auto simp: bind_outcome_eq_Inr)
  have "poisoned n w2" by (rule change_poisons [OF keepsD [OF k assms(1) w1] w2])
  then have "poisoned n w3" by (rule keepsD [OF poisoned_fields _ w3])
  then have "poisoned n w4" by (rule keepsD [OF poisoned_links _ w4])
  then have "poisoned n w5" by (rule keepsD [OF poisoned_keeps(2) _ w5])
  then show ?thesis using w' by (auto simp: poisoned_def update_profile_def)
qed

lemma with_next_changes:
  assumes "next_profile p \<noteq> n"
  shows "field_states (with_blend b (with_delay d (with_next n p))) F_C = FIELD_CHANGED"
    and "next_profile (with_blend b (with_delay d (with_next n p))) = n"
  using assms by (simp_all add: with_blend_def with_delay_def with_next_def mark_changed_def)

text \<open>
  C36: stopping a sinusoid without a network. \<^verbatim>\<open>sled_sinusoid_stop\<close> does not look at the state of the
  machines: while the SDO machine is disabled, it unlinks the profile and queues the changes, each
  with a callback that ends the process when the request is dropped. If it returns, its result is
  0, and when the drive next reports to be pre-operational the process exits with status 1.
\<close>

theorem sinusoid_stop_kills:
  assumes "sys_inv w" and "sdo_state_of w = ST_SDO_DISABLED"
    and "net_state_of w \<in> {ST_NET_UNKNOWN, ST_NET_ENTERPREOPERATIONAL}"
    and "profile_handle (sinusoid_there w) w" and "sinusoid_back w \<noteq> sinusoid_there w"
    and "next_profile (profiles w ! nat (sinusoid_there w)) \<noteq> - 1"
  shows "case sled_sinusoid_stop w of
      Inl e \<Rightarrow> e \<in> {Undefined_behaviour Indeterminate_read, Undefined_behaviour Unrepresentable}
    | Inr (r, w') \<Rightarrow> r = 0 \<and> mch_net_handle_event EV_NET_PREOPERATIONAL w' = Inl (Exit 1)"
proof (cases "sled_sinusoid_stop w")
  case (Inl e)
  then have "dropping sled_sinusoid_stop w = Inl e" by (simp add: dropping_def)
  from safe_sinusoids(2) assms(1) this have "e \<in> upload_stops" by (cases rule: safe_onE) simp_all
  with Inl show ?thesis by simp
next
  case (Inr x)
  let ?i = "nat (sinusoid_there w)" and ?j = "nat (sinusoid_back w)"
  let ?g = "\<lambda>p. with_blend bln_after (with_delay (Fin 0) (with_next (- 1) p))"
  define w1 where "w1 = update_profile ?i ?g w"
  define w2 where "w2 = snd (sled_profile_set_next (sinusoid_back w) (- 1) (Fin 0) bln_after w1)"
  obtain w3 where x: "x = (0, w3)" and p: "sled_profile_write_pending_changes (sinusoid_there w) w2 = Inr w3"
    using Inr assms(4)
    by (auto simp: sled_sinusoid_stop_def set_next_of_def quietly_def write_pending_of_def w2_def w1_def
        sled_profile_set_next_def bind_outcome_eq_Inr update_profile_def split: if_splits)
  have i: "0 \<le> sinusoid_there w" "?i < length (profiles w)" "?j \<noteq> ?i"
    using assms(1,4,5) ids_okD [OF assms(1)]
    by (auto simp: profile_handle_def sys_inv_def prof_inv_def table_ok_def nat_less_iff)
  have p2: "profiles w2 ! ?i = ?g (profiles w ! ?i)" "length (profiles w2) = length (profiles w)"
    "mch_sdo w2 = mch_sdo w" "mch_net w2 = mch_net w"
    using i by (simp_all add: w2_def w1_def sled_profile_set_next_def update_profile_def)
  have wc: "waiting_change (mch_net w) ?i w2"
    using assms(2,6) i(2) p2 with_next_changes(1) by (simp add: waiting_change_def)
  then have "sled_profile_has_changes_pending (profiles w2 ! ?i)"
    by (auto simp: has_changes_pending_iff waiting_change_def)
  then have "upload_profile ?i w2 = Inr w3"
    using p i p2 with_next_changes(2) [OF assms(6)]
    by (auto simp: sled_profile_write_pending_changes.simps [of _ w2] get_profile_def bind_outcome_eq_Inr)
  note q = upload_poisons [OF wc this]
  let ?v = "set_net_state ST_NET_PREOPERATIONAL w3"
  have "net_handlers_set ?v" "sdo_poisoned ?v"
    using q assms(1) by (auto simp: poisoned_def sdo_poisoned_def sys_inv_def intf_inv_def net_inv_def
        net_handlers_set_def)
  from net_enter_poisoned [OF this(1) _ this(2)]
  have "mch_net_handle_event EV_NET_PREOPERATIONAL w3 = Inl (Exit 1)"
    using q assms(3) by (auto simp: net_machine.handle_changed mch_net_on_exit_def poisoned_def)
  with Inr x show ?thesis by simp
qed

section \<open>Witnesses\<close>

text \<open>The memory that \<^verbatim>\<open>malloc\<close> returned, and a library that has just been created on it.\<close>

definition malloc_env :: "can_driver \<Rightarrow> (nat \<Rightarrow> int \<times> int) \<Rightarrow> sled_env" where
  "malloc_env d c = intf_env.extend
     ((sample_intf_env ST_INTF_CLOSED ST_NET_DISABLED d intf_create)
       \<lparr>profiles := replicate MAX_PROFILES (blank_profile\<lparr>never_sent := None\<rparr>)\<rparr>)
     \<lparr>clock = c, ticks = 0, last_time = None, last_position = None, last_velocity = None,
      sinusoid_there = 0, sinusoid_rthere = 0, sinusoid_back = 0, sinusoid_rback = 0,
      time_last_nmt_msg = Fin 0, message_written = False\<rparr>"

lemma malloc_env_profiles: "length (profiles (malloc_env d c)) = MAX_PROFILES"
  by (simp add: malloc_env_def intf_env.defs)


text \<open>A running library whose first profile is linked to the third, as \<^verbatim>\<open>sled_create\<close> leaves it.\<close>

definition linked_profile :: sled_profile_t where
  "linked_profile = (created_profile 0 blank_profile)\<lparr>next_profile := 2\<rparr>"

definition sample_sled_env :: "mch_net_state_t \<Rightarrow> (nat \<Rightarrow> int \<times> int) \<Rightarrow> sled_env" where
  "sample_sled_env n c = intf_env.extend
     ((sample_intf_env ST_INTF_OPENED n (sample_driver sample_message)
         (sample_intf\<lparr>handle := 1, fd := 5, read_event := True\<rparr>))
       \<lparr>profiles := sample_table[0 := linked_profile, 2 := created_profile 2 blank_profile]\<rparr>)
     \<lparr>clock = c, ticks = 0, last_time = None, last_position = None, last_velocity = None,
      sinusoid_there = 0, sinusoid_rthere = 1, sinusoid_back = 2, sinusoid_rback = 3,
      time_last_nmt_msg = Fin 0, message_written = False\<rparr>"

lemma sample_sled_simps [simp]:
  "net_state_of (sample_sled_env n c) = n"
  "mch_sdo (sample_sled_env n c) = mch_sdo_create"
  "clock (sample_sled_env n c) = c" "ticks (sample_sled_env n c) = 0"
  "time_last_nmt_msg (sample_sled_env n c) = Fin 0"
  "sinusoid_there (sample_sled_env n c) = 0" "sinusoid_back (sample_sled_env n c) = 2"
  "profiles (sample_sled_env n c) = sample_table[0 := linked_profile, 2 := created_profile 2 blank_profile]"
  "sent (sample_sled_env n c) = []"
  by (simp_all add: sample_sled_env_def intf_env.defs sample_intf_env_def net_env.defs sample_net_env_def
      profile_env.defs ds_env.defs sample_ds_simps)

lemma linked_simps [simp]:
  "in_use linked_profile" "profile_no linked_profile = 201" "next_profile linked_profile = 2"
  by (simp_all add: linked_profile_def)

lemma sample_sled_inv:
  assumes "n \<noteq> ST_NET_OPERATIONAL" and "n \<noteq> ST_NET_DISABLED"
  shows "sys_inv (sample_sled_env n c)"
proof -
  let ?v = "sample_intf_env ST_INTF_OPENED n (sample_driver sample_message)
    (sample_intf\<lparr>handle := 1, fd := 5, read_event := True\<rparr>)"
  have "intf_inv ?v" by (rule sample_intf_inv) (use assms in \<open>simp_all add: sample_intf_def\<close>)
  then have "intf_inv (sample_sled_env n c)"
    by (simp add: sample_sled_env_def intf_env.defs intf_inv_def net_inv_def ds_inv_def sdo_quiet_def
        ds_handlers_set_def ds_mp_tied_def net_handlers_set_def net_ds_tied_def intf_wired_def)
  moreover have "links_ok (sample_sled_env n c)"
    by (auto simp: links_ok_def sample_table_def cleared_profile_def sled_profile_mark_as_unsaved_def
        MAX_PROFILES_def dest!: set_update_subset_insert [THEN subsetD])
  moreover have "table_ok (sample_sled_env n c)"
    unfolding table_ok_def
  proof (intro conjI allI impI)
    fix i assume "i < MAX_PROFILES"
    then show "profile_no (profiles (sample_sled_env n c) ! i) = 201 + int i"
      by (cases "i = 0"; cases "i = 2") simp_all
  qed simp
  moreover have "ids_ok (sample_sled_env n c)"
    by (simp add: ids_ok_def sample_sled_env_def intf_env.defs MAX_PROFILES_def)
  ultimately show ?thesis
    by (simp add: sys_inv_def prof_inv_def requests_ok_def mch_sdo_create_def)
qed

theorem watchdog_disables_drive_witness:
  "\<exists>w' fs. nmt_watchdog (sample_sled_env ST_NET_PREOPERATIONAL (\<lambda>_. (7, 0))) = Inr w'
    \<and> net_state_of w' = ST_NET_UNKNOWN \<and> sent w' = fs @ [nmt_frame NMT_ENTERPREOPERATIONAL]"
proof -
  have "d_gt (d_sub (timespec_seconds (7, 0)) (Fin 0)) MAX_NMT_DELAY" by code_simp
  with watchdog_disables_drive [OF sample_sled_inv, of ST_NET_PREOPERATIONAL "\<lambda>_. (7, 0)"]
  show ?thesis by auto
qed

theorem watchdog_delay_accuracy_witness:
  "d_gt (d_sub (timespec_seconds (5, 300)) (timespec_seconds (2, 100))) MAX_NMT_DELAY"
  using watchdog_delay_accuracy [of "(2, 100)" "(5, 300)"]
  by (simp add: timespec_ok_def exact_seconds_def)

theorem tpdo2_position_witness:
  "\<exists>w' x y. intf_on_tpdo 2 (tpdo2_bytes (- 250000) 1000)
      (sample_sled_env ST_NET_OPERATIONAL (\<lambda>_. (1, 0))) = Inr w'
    \<and> \<bar>x + 1 / 4\<bar> < 3 / 10000000 \<and> \<bar>y - 1 / 1000\<bar> < 3 / 10000000
    \<and> last_velocity w' = Some (Fin y) \<and> sled_rt_get_position w' = Inr ((0, Some (Fin x)), w')"
  using tpdo2_position [of "- 250000" 1000 "sample_sled_env ST_NET_OPERATIONAL (\<lambda>_. (1, 0))"]
  by (auto simp: int32_range_def)

lemma sample_stop_returns:
  "\<exists>w'. sled_sinusoid_stop (sample_sled_env ST_NET_UNKNOWN c) = Inr (0, w')"
proof -
  let ?w = "sample_sled_env ST_NET_UNKNOWN c"
  let ?g = "\<lambda>p. with_blend bln_after (with_delay (Fin 0) (with_next (- 1) p))"
  define w2 where "w2 = update_profile 2 ?g (update_profile 0 ?g ?w)"
  have m: "0 < MAX_PROFILES" "2 < MAX_PROFILES" by (simp_all add: MAX_PROFILES_def)
  have h: "profile_handle 0 ?w" "profile_handle 2 (update_profile 0 ?g ?w)"
    using m by (simp_all add: profile_handle_def)
  have p0: "profiles w2 ! 0 = ?g linked_profile" "length (profiles w2) = MAX_PROFILES"
    "mch_sdo w2 = mch_sdo_create" using m by (simp_all add: w2_def)
  have g: "never_sent (?g linked_profile) = Some True" "next_profile (?g linked_profile) = - 1"
    "field_states (?g linked_profile) F_C = FIELD_CHANGED"
    by (simp_all add: linked_profile_def with_blend_def with_delay_def with_next_def mark_changed_def)
  have "\<exists>v. field_value 0 f (?g linked_profile) = Inr v" for f
    using created_field_value [of 0 f 0 blank_profile]
    by (cases f) (simp_all add: linked_profile_def with_blend_def with_delay_def with_next_def
        mark_changed_def half_time_ms_def rnd_def trunc_def int32_range_def)
  then obtain v where v: "\<And>f. field_value 0 f (profiles w2 ! 0) = Inr (v f)" unfolding p0 by metis
  have n: "next_number 0 w2 = Inr 0" by (simp add: next_number_def p0 g)
  have q: "sdo_quiet w2" by (simp add: sdo_quiet_def p0 mch_sdo_create_def)
  from upload_ext [OF q, of 0 True 0 v] p0 g n v m obtain w3 where u: "upload_profile 0 w2 = Inr w3" by auto
  have "sled_profile_write_pending_changes 0 w2 = Inr w3"
    using u p0 g m by (auto simp: sled_profile_write_pending_changes.simps [of 0 w2] get_profile_def
        has_changes_pending_iff)
  then have "sled_sinusoid_stop ?w = Inr (0, w3)"
    using h by (simp add: sled_sinusoid_stop_def set_next_of_def quietly_def write_pending_of_def
        sled_profile_set_next_def w2_def update_profile_def)
  then show ?thesis by blast
qed

theorem sinusoid_stop_kills_witness:
  "\<exists>w'. sled_sinusoid_stop (sample_sled_env ST_NET_UNKNOWN (\<lambda>_. (1, 0))) = Inr (0, w')
    \<and> mch_net_handle_event EV_NET_PREOPERATIONAL w' = Inl (Exit 1)"
proof -
  let ?w = "sample_sled_env ST_NET_UNKNOWN (\<lambda>_. (1, 0))"
  have "profile_handle (sinusoid_there ?w) ?w" by (simp add: profile_handle_def MAX_PROFILES_def)
  from sample_stop_returns obtain w' where "sled_sinusoid_stop ?w = Inr (0, w')" by blast
  with sinusoid_stop_kills [OF sample_sled_inv _ _ \<open>profile_handle (sinusoid_there ?w) ?w\<close>]
  show ?thesis by (auto simp: mch_sdo_create_def MAX_PROFILES_def)
qed

end
