(* ===== verification/Server.thy ===== *)
theory Server
  imports Rtc3d_Reader Parser Sled_Props
begin

text \<open>
  The command server, \<^verbatim>\<open>src/server.cc\<close>: it owns the sled library, the parser and the RTC3D server, runs
  the commands of the clients and streams the position. The state of the library is a field of the
  server's; the network below is the record that the server's extends.
\<close>

section \<open>Data\<close>

text \<open>The static variables of \<^verbatim>\<open>update_timeout_stats\<close>; \<open>None\<close> before its first call.\<close>

record timeout_stats =
  time_previous :: "double option"
  sum_delay :: double
  max_delay :: double
  num_samples :: int
  num_unacceptable :: int

record server_env = rtc3d_env +
  sled :: sled_env
  stream_clients :: "nat list"
  profile_tlate :: "int \<Rightarrow> int option"
  frame :: int
  stats :: timeout_stats

definition SAMPLE_INTERVAL :: int where "SAMPLE_INTERVAL = 1000"
definition MAX_SAMPLE_INTERVAL :: int where "MAX_SAMPLE_INTERVAL = 2000"
definition REPORT_EVERY_X_SAMPLES :: int where "REPORT_EVERY_X_SAMPLES = 300 * (1000000 div SAMPLE_INTERVAL)"

text \<open>A call of the library.\<close>

definition at_sled ::
    "(sled_env \<Rightarrow> ('r \<times> sled_env) outcome) \<Rightarrow> 'z server_env_scheme \<Rightarrow> ('r \<times> 'z server_env_scheme) outcome" where
  "at_sled f w = bind_outcome (f (sled w)) (\<lambda>(r, s). Inr (r, w\<lparr>sled := s\<rparr>))"

definition at_table ::
    "(sled_env \<Rightarrow> 'r \<times> sled_env) \<Rightarrow> 'z server_env_scheme \<Rightarrow> 'r \<times> 'z server_env_scheme" where
  "at_table f w = (let (r, s) = f (sled w) in (r, w\<lparr>sled := s\<rparr>))"

section \<open>Conversions\<close>

fun d_abs :: "double \<Rightarrow> double" where
  "d_abs (Fin q) = Fin \<bar>q\<bar>"
| "d_abs (Inf s) = Inf False"
| "d_abs NaN = NaN"

text \<open>\<^verbatim>\<open>fmod(x, 10.0)\<close>, which is exact.\<close>

fun fmod10 :: "double \<Rightarrow> double" where
  "fmod10 (Fin q) = Fin (q - 10 * of_int (trunc (q / 10)))"
| "fmod10 _ = NaN"

fun to_uint64 :: "double \<Rightarrow> u64 outcome" where
  "to_uint64 (Fin q) =
     (if 0 \<le> trunc q \<and> trunc q < 2 ^ 64 then Inr (word_of_int (trunc q))
      else Inl (Undefined_behaviour Unrepresentable))"
| "to_uint64 _ = Inl (Undefined_behaviour Unrepresentable)"

text \<open>The bits of a \<^verbatim>\<open>float\<close>: sign, biased exponent, significand.\<close>

fun bits_of_float :: "double \<Rightarrow> float_bits" where
  "bits_of_float (Fin q) =
     (let a = \<bar>q\<bar>; e = ulp_exp32 a; m = \<lfloor>a / pow2 e\<rfloor> in
      (if q < 0 then 0x80000000 else 0)
      + (if a = 0 then 0
         else if m < 2 ^ 23 then word_of_int m
         else word_of_int ((e + 150) * 2 ^ 23 + (m - 2 ^ 23))))"
| "bits_of_float (Inf s) = (if s then 0xFF800000 else 0x7F800000)"
| "bits_of_float NaN = 0x7FC00000"

section \<open>Commands\<close>

definition tlate_profile_id :: "int \<Rightarrow> 'z server_env_scheme \<Rightarrow> int \<times> 'z server_env_scheme" where
  "tlate_profile_id profile w =
     (case profile_tlate w profile of
        Some i \<Rightarrow> (i, w)
      | None \<Rightarrow>
          let (i, w) = at_table sled_profile_create w in
          (i, w\<lparr>profile_tlate := (profile_tlate w)(profile \<mapsto> i)\<rparr>))"

definition stream_remove :: "nat \<Rightarrow> 'z server_env_scheme \<Rightarrow> 'z server_env_scheme" where
  "stream_remove l w = w\<lparr>stream_clients := removeAll l (stream_clients w)\<rparr>"

definition disconnected :: "nat \<Rightarrow> 'z server_env_scheme action" where
  "disconnected l w = bind_outcome (rtc3d_get_global_data l w) (\<lambda>_. Inr (stream_remove l w))"

text \<open>Replies: the text after a call that returned \<open>r\<close>.\<close>

definition reply :: "nat \<Rightarrow> string \<Rightarrow> 'z server_env_scheme action" where
  "reply l text = rtc3d_send_command l (ascii text)"

definition reply_error :: "nat \<Rightarrow> string \<Rightarrow> 'z server_env_scheme action" where
  "reply_error l text = rtc3d_send_error l (ascii text)"

definition reply_to ::
    "nat \<Rightarrow> string \<Rightarrow> string \<Rightarrow> (int \<times> 'z server_env_scheme) outcome \<Rightarrow> 'z server_env_scheme outcome" where
  "reply_to l err okay r = bind_outcome r (\<lambda>(r, w). if r = - 1 then reply_error l err w else reply l okay w)"

definition command_streamframes :: "nat \<Rightarrow> command_t \<Rightarrow> 'z server_env_scheme action" where
  "command_streamframes l c w =
     bind_outcome (read_determined (cmd_boolean c)) (\<lambda>b.
       let w = stream_remove l w;
           w = (if b then w\<lparr>stream_clients := stream_clients w @ [l]\<rparr> else w) in
       reply l ''ok-streamframes'' w)"

definition command_sendcurrentframe :: "nat \<Rightarrow> 'z server_env_scheme action" where
  "command_sendcurrentframe l w =
     bind_outcome (at_sled sled_rt_get_position w) (\<lambda>((r, pos), w).
       if r = - 1 then reply_error l ''err-sendcurrentframe'' w
       else bind_outcome (read_determined pos) (\<lambda>p.
         rtc3d_send_data l (- 1) (- 1) (bits_of_float (to_float (d_mul p (Fin 1000)))) w))"

definition command_profile_execute :: "nat \<Rightarrow> command_t \<Rightarrow> 'z server_env_scheme action" where
  "command_profile_execute l c w =
     bind_outcome (read_determined (cmd_profile c)) (\<lambda>profile.
       let (i, w) = tlate_profile_id profile w in
       reply_to l ''err-profile-execute'' ''ok-profile-execute'' (at_sled (sled_profile_execute i) w))"

definition command_set_next :: "nat \<Rightarrow> int \<Rightarrow> command_t \<Rightarrow> 'z server_env_scheme action" where
  "command_set_next l i c w =
     bind_outcome (read_determined (cmd_next_profile c)) (\<lambda>nx.
       if 0 \<le> nx
       then let (n, w) = tlate_profile_id nx w in
         if n < 0 then reply_error l ''err-profile-set'' w
         else bind_outcome (read_determined (cmd_next_delay c)) (\<lambda>d.
           bind_outcome (read_determined (cmd_blend_type c)) (\<lambda>b.
             reply l ''ok-profile-set'' (snd (at_table (sled_profile_set_next i n d b) w))))
       else reply l ''ok-profile-set'' (snd (at_table (sled_profile_set_next i (- 1) (Fin 0) bln_none) w)))"

definition command_set_target :: "nat \<Rightarrow> int \<Rightarrow> command_t \<Rightarrow> 'z server_env_scheme action" where
  "command_set_target l i c w =
     bind_outcome (read_determined (cmd_position_type c)) (\<lambda>type.
     bind_outcome (read_determined (cmd_position c)) (\<lambda>pos.
     bind_outcome (read_determined (cmd_time c)) (\<lambda>t.
       let (r, w) = at_table (sled_profile_set_target i type pos t) w in
       if r = - 1 then reply_error l ''err-profile-set'' w
       else bind_outcome (read_determined (cmd_table c)) (\<lambda>tab.
         let (r, w) = at_table (sled_profile_set_table i tab) w in
         if r = - 1 then reply_error l ''err-profile-set'' w
         else command_set_next l i c w))))"

text \<open>
  The position check sends an error and goes on: its branch has no \<^verbatim>\<open>break\<close>. \<^verbatim>\<open>abs\<close> is taken to be the overload
  for \<^verbatim>\<open>double\<close>, which C++ has in \<^verbatim>\<open>cmath\<close>; the \<^verbatim>\<open>abs\<close> of \<^verbatim>\<open>stdlib.h\<close> would cut the position to an \<^verbatim>\<open>int\<close> first.
\<close>

definition command_profile_set :: "nat \<Rightarrow> command_t \<Rightarrow> 'z server_env_scheme action" where
  "command_profile_set l c w =
     bind_outcome (read_determined (cmd_profile c)) (\<lambda>profile.
       let (i, w) = tlate_profile_id profile w in
       if i < 0 then reply_error l ''err-profile-set'' w
       else bind_outcome (read_determined (cmd_position c)) (\<lambda>pos.
         bind_outcome (when_step (d_gt (d_abs pos) (Fin (1 / 2))) (reply_error l ''err-profile-set'') w)
           (command_set_target l i c)))"

definition command_sinusoid :: "nat \<Rightarrow> command_t \<Rightarrow> 'z server_env_scheme action" where
  "command_sinusoid l c w =
     bind_outcome (read_determined (cmd_boolean c)) (\<lambda>b.
       if b
       then bind_outcome (read_determined (cmd_amplitude c)) (\<lambda>a.
         bind_outcome (read_determined (cmd_period c)) (\<lambda>p.
           reply_to l ''err-sinusoid-start'' ''ok-sinusoid-start'' (at_sled (sled_sinusoid_start a p) w)))
       else reply_to l ''err-sinusoid-stop'' ''ok-sinusoid-stop'' (at_sled sled_sinusoid_stop w))"

definition command_rsinusoid :: "nat \<Rightarrow> command_t \<Rightarrow> 'z server_env_scheme action" where
  "command_rsinusoid l c w =
     bind_outcome (read_determined (cmd_boolean c)) (\<lambda>b.
       if b
       then bind_outcome (read_determined (cmd_amplitude c)) (\<lambda>a.
         bind_outcome (read_determined (cmd_period c)) (\<lambda>p.
           reply_to l ''err-rsinusoid-start'' ''ok-rsinusoid-start'' (at_sled (sled_rsinusoid_start a p) w)))
       else reply_to l ''err-rsinusoid-stop'' ''ok-rsinusoid-stop'' (at_sled sled_rsinusoid_stop w))"

definition command_lights :: "nat \<Rightarrow> command_t \<Rightarrow> 'z server_env_scheme action" where
  "command_lights l c w =
     bind_outcome (read_determined (cmd_boolean c)) (\<lambda>b.
       reply_to l ''err-light'' ''ok-light'' (at_sled (sled_light_set_state b) w))"

definition command_setbyteorder :: "nat \<Rightarrow> command_t \<Rightarrow> 'z server_env_scheme action" where
  "command_setbyteorder l c w =
     bind_outcome (read_determined (cmd_byte_order c)) (\<lambda>bo.
       bind_outcome (rtc3d_set_byte_order l bo w) (reply l ''ok-setbyteorder''))"

definition command_bye :: "nat \<Rightarrow> 'z server_env_scheme action" where
  "command_bye l w = bind_outcome (reply l ''bye'' w) (rtc3d_disconnect disconnected l)"

fun run_command :: "nat \<Rightarrow> command_t \<Rightarrow> command_type_t \<Rightarrow> 'z server_env_scheme action" where
  "run_command l c cmd_setbyteorder w = command_setbyteorder l c w"
| "run_command l c cmd_streamframes w = command_streamframes l c w"
| "run_command l c cmd_sendcurrentframe w = command_sendcurrentframe l w"
| "run_command l c cmd_profile_execute w = command_profile_execute l c w"
| "run_command l c cmd_profile_set w = command_profile_set l c w"
| "run_command l c cmd_sinusoid w = command_sinusoid l c w"
| "run_command l c cmd_rsinusoid w = command_rsinusoid l c w"
| "run_command l c cmd_lights w = command_lights l c w"
| "run_command l c cmd_sendstatus w = Inr w"
| "run_command l c cmd_home w = Inr w"
| "run_command l c cmd_clearfault w = Inr w"
| "run_command l c cmd_bye w = command_bye l w"
| "run_command l c cmd_setinternalstatus w = reply_error l ''err-notsupported'' w"
| "run_command l c cmd_sendinternalstatus w = reply_error l ''err-notsupported'' w"

definition command_handler :: "nat \<Rightarrow> u8 list \<Rightarrow> 'z server_env_scheme action" where
  "command_handler l text w =
     bind_outcome (rtc3d_get_global_data l w) (\<lambda>_.
     bind_outcome (parser_parse_string text) (\<lambda>r.
       case r of
         None \<Rightarrow> reply_error l ''err-syntaxerror'' w
       | Some c \<Rightarrow> bind_outcome (read_determined (cmd_type c)) (\<lambda>type. run_command l c type w)))"

section \<open>Streaming\<close>

definition update_timeout_stats :: "double \<Rightarrow> timeout_stats \<Rightarrow> timeout_stats" where
  "update_timeout_stats t st =
     (let prev = (case time_previous st of None \<Rightarrow> t | Some p \<Rightarrow> p);
          delay = d_sub t prev;
          st = st\<lparr>time_previous := Some t,
                  max_delay := (if d_gt delay (max_delay st) then delay else max_delay st),
                  num_unacceptable := num_unacceptable st
                    + (if d_gt delay (d_div_const (Fin (of_int MAX_SAMPLE_INTERVAL)) 1000000) then 1 else 0),
                  sum_delay := d_add (sum_delay st) delay,
                  num_samples := num_samples st + 1\<rparr> in
      if REPORT_EVERY_X_SAMPLES \<le> num_samples st
      then st\<lparr>sum_delay := Fin 0, max_delay := Fin 0, num_samples := 0, num_unacceptable := 0\<rparr>
      else st)"

text \<open>
  \<^verbatim>\<open>events & EV_TIMEOUT == 0\<close> is \<^verbatim>\<open>events & (EV_TIMEOUT == 0)\<close>, always false: the handler never returns
  early. Compiled with \<^verbatim>\<open>SAWTOOTH\<close>: what is sent is the time modulo ten seconds. The frame number is
  an \<^verbatim>\<open>int\<close>, whose overflow is undefined.
\<close>

definition stream_frame :: "double \<Rightarrow> double \<Rightarrow> nat \<Rightarrow> 'z server_env_scheme action" where
  "stream_frame tcurrent tm l w =
     bind_outcome (to_uint64 (d_mul tm (Fin 1000000))) (\<lambda>us.
       rtc3d_send_data l (word_of_int (frame w)) us
         (bits_of_float (to_float (d_mul (fmod10 tcurrent) (Fin 1000)))) w)"

definition next_frame :: "'z server_env_scheme action" where
  "next_frame w =
     (if frame w = 2 ^ 31 - 1 then Inl (Undefined_behaviour Unrepresentable)
      else Inr (w\<lparr>frame := frame w + 1\<rparr>))"

definition on_timeout :: "'z server_env_scheme action" where
  "on_timeout w =
     (let (tcurrent, w) = at_table get_time w;
          w = w\<lparr>stats := update_timeout_stats tcurrent (stats w)\<rparr> in
      bind_outcome (at_sled sled_rt_get_position_and_time w) (\<lambda>((r, pos, tm), w).
        run_steps (map (stream_frame tcurrent tm) (stream_clients w) @ [next_frame]) w))"

section \<open>Set-up\<close>

definition fresh_stats :: timeout_stats where
  "fresh_stats = \<lparr>time_previous = None, sum_delay = Fin 0, max_delay = Fin 0, num_samples = 0, num_unacceptable = 0\<rparr>"

text \<open>
  \<open>False\<close>: NULL is returned. When the RTC3D server cannot be made, the context is deleted, and used
  in the statements that follow.
\<close>

definition setup_sled_server_context :: "'z server_env_scheme \<Rightarrow> (bool \<times> 'z server_env_scheme) outcome" where
  "setup_sled_server_context w =
     (let w = w\<lparr>stream_clients := [], profile_tlate := (\<lambda>_. None)\<rparr>;
          (parser, w) = os_call os_malloc w in
      if \<not> parser then Inr (False, w)
      else bind_outcome (at_sled (\<lambda>s. bind_outcome (sled_create s) (\<lambda>s. Inr ((), s))) w) (\<lambda>(_, w).
        bind_outcome (rtc3d_setup_server w) (\<lambda>(server, w).
          if \<not> server then Inl (Undefined_behaviour Use_after_free)
          else Inr (True, rtc3d_set_command_handler (rtc3d_set_disconnect_handler w)))))"

text \<open>
  The library and the parser are freed first, which nothing in what follows uses; then every client is
  disconnected.
\<close>

definition teardown_sled_server_context :: "'z server_env_scheme \<Rightarrow> 'z server_env_scheme outcome option" where
  "teardown_sled_server_context w = rtc3d_teardown_server disconnected w"

end
