(* ===== verification/Parser_Props.thy ===== *)
theory Parser_Props
  imports Parser
begin

text \<open>
  The command language: a grammar of token sequences with their meaning, stated without reference
  to the parser, and the lexemes of a text. The parser accepts exactly this language.
\<close>

section \<open>The grammar, as a set of token sequences\<close>

datatype number = N_int int | N_float double

fun number_tok :: "number \<Rightarrow> token" where
  "number_tok (N_int n) = INT_TOKEN n"
| "number_tok (N_float x) = FLOAT x"

fun number_value :: "number \<Rightarrow> double" where
  "number_value (N_int n) = rnd32 (of_int n)"
| "number_value (N_float x) = x"

text \<open>What follows \<^verbatim>\<open>NEXT\<close> in a profile: the successor, the delay, and whether to blend before or after.\<close>

type_synonym successor = "int \<times> number option \<times> bool option"

datatype request =
    Set_byte_order byte_order_t
  | Send_current_frame
  | Send_status
  | Stream_frames "int option"
  | Stream_stop
  | Execute int
  | Set_profile int int position_type_t number number "successor option"
  | Sine_start bool number number
  | Sine_stop bool
  | Lights bool
  | Bye
  | Home
  | Clear_fault
  | Set_status status_t
  | Send_internal_status
  | Set_status_nothing

fun byte_order_tok :: "byte_order_t \<Rightarrow> token" where
  "byte_order_tok byo_big_endian = BIGENDIAN"
| "byte_order_tok byo_little_endian = LITTLEENDIAN"

fun status_tok :: "status_t \<Rightarrow> token" where
  "status_tok sta_off = OFF"
| "status_tok sta_preoperational = PREOPERATIONAL"
| "status_tok sta_operational = OPERATIONAL"
| "status_tok sta_outputenabled = OUTPUTENABLED"

fun successor_toks :: "successor option \<Rightarrow> token list" where
  "successor_toks None = []"
| "successor_toks (Some (n, d, b)) = [NEXT, INT_TOKEN n]
     @ (case d of None \<Rightarrow> [] | Some x \<Rightarrow> [AFTER, number_tok x])
     @ (case b of None \<Rightarrow> [] | Some before \<Rightarrow> [BLEND, if before then BEFORE else AFTER])"

definition sine_tok :: "bool \<Rightarrow> token" where
  "sine_tok r = (if r then RSINUSOID else SINUSOID)"

fun request_toks :: "request \<Rightarrow> token list" where
  "request_toks (Set_byte_order b) = [SETBYTEORDER, byte_order_tok b]"
| "request_toks Send_current_frame = [SENDCURRENTFRAME]"
| "request_toks Send_status = [SENDSTATUS]"
| "request_toks (Stream_frames d) =
     STREAMFRAMES # (case d of None \<Rightarrow> [] | Some n \<Rightarrow> [FREQUENCYDIVISOR, COLON, INT_TOKEN n])"
| "request_toks Stream_stop = [STREAMFRAMES, STOP]"
| "request_toks (Execute n) = [PROFILE, INT_TOKEN n, EXECUTE]"
| "request_toks (Set_profile n tab p x t nx) =
     [PROFILE, INT_TOKEN n, SET, TABLE, INT_TOKEN tab, POSTYPE p, number_tok x, number_tok t] @ successor_toks nx"
| "request_toks (Sine_start r a p) = [sine_tok r, START, number_tok a, number_tok p]"
| "request_toks (Sine_stop r) = [sine_tok r, STOP]"
| "request_toks (Lights b) = [LIGHTS, if b then ON else OFF]"
| "request_toks Bye = [BYE]"
| "request_toks Home = [HOME]"
| "request_toks Clear_fault = [CLEARFAULT]"
| "request_toks (Set_status st) = [SETINTERNALSTATUS, status_tok st]"
| "request_toks Send_internal_status = [SENDINTERNALSTATUS]"
| "request_toks Set_status_nothing = [SETINTERNALSTATUS]"

text \<open>
  The fields that are assigned. Without \<^verbatim>\<open>AFTER\<close> and \<^verbatim>\<open>BLEND\<close> the delay is not; a bare
  \<^verbatim>\<open>SETINTERNALSTATUS\<close> is accepted and assigns nothing.
\<close>

fun successor_fields :: "successor option \<Rightarrow> command_t \<Rightarrow> command_t" where
  "successor_fields None c = c\<lparr>cmd_next_profile := Some (- 1)\<rparr>"
| "successor_fields (Some (n, d, b)) c =
     c\<lparr>cmd_next_profile := Some n,
       cmd_next_delay := (case (d, b) of (Some x, _) \<Rightarrow> Some (number_value x)
         | (None, Some _) \<Rightarrow> Some (Fin 0) | (None, None) \<Rightarrow> None),
       cmd_blend_type := Some (case b of None \<Rightarrow> bln_none | Some before \<Rightarrow> if before then bln_before else bln_after)\<rparr>"

definition typed :: "command_type_t \<Rightarrow> command_t" where
  "typed type = unset_command\<lparr>cmd_type := Some type\<rparr>"

definition sine_type :: "bool \<Rightarrow> command_type_t" where
  "sine_type r = (if r then cmd_rsinusoid else cmd_sinusoid)"

fun request_command :: "request \<Rightarrow> command_t" where
  "request_command (Set_byte_order b) = (typed cmd_setbyteorder)\<lparr>cmd_byte_order := Some b\<rparr>"
| "request_command Send_current_frame = typed cmd_sendcurrentframe"
| "request_command Send_status = typed cmd_sendstatus"
| "request_command (Stream_frames d) = (typed cmd_streamframes)\<lparr>cmd_boolean := Some True\<rparr>"
| "request_command Stream_stop = (typed cmd_streamframes)\<lparr>cmd_boolean := Some False\<rparr>"
| "request_command (Execute n) = (typed cmd_profile_execute)\<lparr>cmd_profile := Some n\<rparr>"
| "request_command (Set_profile n tab p x t nx) = successor_fields nx
     ((typed cmd_profile_set)\<lparr>cmd_profile := Some n, cmd_table := Some tab, cmd_position_type := Some p,
        cmd_position := Some (number_value x), cmd_time := Some (number_value t)\<rparr>)"
| "request_command (Sine_start r a p) = (typed (sine_type r))\<lparr>cmd_boolean := Some True,
     cmd_amplitude := Some (number_value a), cmd_period := Some (number_value p)\<rparr>"
| "request_command (Sine_stop r) = (typed (sine_type r))\<lparr>cmd_boolean := Some False\<rparr>"
| "request_command (Lights b) = (typed cmd_lights)\<lparr>cmd_boolean := Some b\<rparr>"
| "request_command Bye = typed cmd_bye"
| "request_command Home = typed cmd_home"
| "request_command Clear_fault = typed cmd_clearfault"
| "request_command (Set_status st) = (typed cmd_setinternalstatus)\<lparr>cmd_status := Some st\<rparr>"
| "request_command Send_internal_status = typed cmd_sendinternalstatus"
| "request_command Set_status_nothing = unset_command"

section \<open>The parser and the grammar\<close>

text \<open>\<open>scans s ts\<close>: the scanner makes the tokens \<open>ts\<close> out of \<open>s\<close> and then finds its end.\<close>

inductive scans :: "u8 list \<Rightarrow> token list \<Rightarrow> bool" where
  scans_end: "yylex s = Inr (None, s') \<Longrightarrow> scans s []"
| scans_token: "yylex s = Inr (Some t, s') \<Longrightarrow> scans s' ts \<Longrightarrow> scans s (t # ts)"

inductive_cases scans_NilE: "scans s []"
inductive_cases scans_ConsE: "scans s (t # ts)"

lemma yylex_end: "yylex s = Inr (None, s') \<Longrightarrow> s' = []"
  by (induction s) (auto split: if_splits option.splits prod.splits simp: bind_outcome_eq_Inr)

lemma shift_end: "scans s [] \<Longrightarrow> shift k s = k None []"
  by (auto simp: shift_def elim!: scans_NilE dest: yylex_end)

lemma scans_Nil: "scans [] []"
  by (rule scans_end) simp

text \<open>
  \<open>parses f ts c\<close>: the parser \<open>f\<close>, started on a text that scans to \<open>ts\<close>, returns \<open>c\<close>.
\<close>

definition parses :: "parse \<Rightarrow> token list \<Rightarrow> command_t \<Rightarrow> bool" where
  "parses f ts c \<longleftrightarrow> (\<forall>s. scans s ts \<longrightarrow> f s = Inr (Some c))"

lemma parses_shift_Nil: "parses (k None) [] c \<Longrightarrow> parses (shift k) [] c"
  by (auto simp: parses_def shift_end scans_Nil)

lemma parses_shift_Cons:
  assumes "parses (k (Some t)) ts c"
  shows "parses (shift k) (t # ts) c"
  unfolding parses_def
proof (intro allI impI)
  fix s assume "scans s (t # ts)"
  then obtain s' where "yylex s = Inr (Some t, s')" "scans s' ts" by (rule scans_ConsE)
  with assms show "shift k s = Inr (Some c)" by (simp add: parses_def shift_def)
qed

lemma parses_accept: "c = c' \<Longrightarrow> parses (accept c None) [] c'"
  by (simp add: parses_def accept_def)

lemma parses_finish: "c = c' \<Longrightarrow> parses (finish c) [] c'"
  unfolding finish_def by (rule parses_shift_Nil) (rule parses_accept)

lemma parses_number: "parses (k (number_value x)) ts c \<Longrightarrow> parses (parse_number k) (number_tok x # ts) c"
  unfolding parse_number_def by (rule parses_shift_Cons) (cases x; simp)

lemma parses_int: "parses (k n) ts c \<Longrightarrow> parses (parse_int k) (INT_TOKEN n # ts) c"
  unfolding parse_int_def by (rule parses_shift_Cons) simp

lemmas parses_intros = parses_shift_Nil parses_shift_Cons parses_accept parses_finish parses_number parses_int

lemma parses_blend:
  "c\<lparr>cmd_blend_type := Some (if t = BEFORE then bln_before else bln_after)\<rparr> = c' \<Longrightarrow> t \<in> {BEFORE, AFTER} \<Longrightarrow>
    parses (parse_blend c) [t] c'"
  unfolding parse_blend_def by (rule parses_shift_Cons) (auto intro!: parses_finish)

lemma parses_after_next:
  assumes "cmd_next_delay c = None"
  shows "parses (parse_after_next (c\<lparr>cmd_next_profile := Some n\<rparr>)) (drop 2 (successor_toks (Some (n, d, b))))
     (successor_fields (Some (n, d, b)) c)"
  unfolding parse_after_next_def using assms
  by (cases c; cases d; cases b) (auto intro!: parses_intros parses_blend simp: Let_def)

lemma request_parses: "parses (yyparse unset_command) (request_toks r) (request_command r)"
proof (cases r)
  case (Set_byte_order b)
  then show ?thesis by (cases b) (auto intro!: parses_intros simp: yyparse_def parse_byteorder_def typed_def)
next
  case (Stream_frames d)
  then show ?thesis
    by (cases d) (auto intro!: parses_intros simp: yyparse_def parse_streamframes_def typed_def Let_def)
next
  case (Set_profile n tab p x t nx)
  show ?thesis
  proof (cases nx)
    case None
    then show ?thesis using Set_profile
      by (auto intro!: parses_intros simp: yyparse_def parse_profile_def parse_profile_def_def typed_def Let_def
          unset_command_def)
  next
    case (Some y)
    obtain m d b where y: "y = (m, d, b)" by (cases y)
    let ?c = "(typed cmd_profile_set)\<lparr>cmd_profile := Some n, cmd_table := Some tab, cmd_position_type := Some p,
        cmd_position := Some (number_value x), cmd_time := Some (number_value t)\<rparr>"
    have "parses (parse_after_next (?c\<lparr>cmd_next_profile := Some m\<rparr>)) (drop 2 (successor_toks nx)) (successor_fields nx ?c)"
      unfolding Some y by (rule parses_after_next) (simp add: typed_def unset_command_def)
    then show ?thesis using Set_profile Some y
      by (auto intro!: parses_intros simp: yyparse_def parse_profile_def parse_profile_def_def typed_def Let_def
          unset_command_def)
  qed
next
  case (Sine_start s a p)
  then show ?thesis
    by (cases s) (auto intro!: parses_intros simp: yyparse_def parse_start_stop_def typed_def sine_type_def sine_tok_def Let_def)
next
  case (Sine_stop s)
  then show ?thesis
    by (cases s) (auto intro!: parses_intros simp: yyparse_def parse_start_stop_def typed_def sine_type_def sine_tok_def Let_def)
next
  case (Set_status st)
  then show ?thesis
    by (cases st) (auto intro!: parses_intros simp: yyparse_def parse_setinternalstatus_def typed_def Let_def)
qed (auto intro!: parses_intros simp: yyparse_def parse_streamframes_def parse_profile_def parse_lights_def
    parse_setinternalstatus_def typed_def unset_command_def Let_def)

text \<open>The other direction: what the parser accepts is in the grammar.\<close>

lemma shift_some:
  assumes "shift k s = Inr (Some c)"
  obtains "scans s []" and "k None [] = Inr (Some c)"
  | t s' where "k (Some t) s' = Inr (Some c)" and "\<And>ts. scans s' ts \<Longrightarrow> scans s (t # ts)"
proof -
  from assms obtain t s' where t: "yylex s = Inr (t, s')" "k t s' = Inr (Some c)"
    by (auto simp: shift_def bind_outcome_eq_Inr)
  show thesis
  proof (cases t)
    case None
    with t yylex_end that(1) show thesis by (auto intro: scans_end)
  next
    case (Some u)
    with t that(2) [of u s'] show thesis by (auto intro: scans_token)
  qed
qed

text \<open>\<open>sound f G\<close>: whenever \<open>f\<close> accepts, the tokens it has read and its result are related by \<open>G\<close>.\<close>

definition sound :: "parse \<Rightarrow> (token list \<Rightarrow> command_t \<Rightarrow> bool) \<Rightarrow> bool" where
  "sound f G \<longleftrightarrow> (\<forall>s c. f s = Inr (Some c) \<longrightarrow> (\<exists>ts. scans s ts \<and> G ts c))"

lemma sound_shift:
  assumes "\<And>c. k None [] = Inr (Some c) \<Longrightarrow> G [] c"
    and "\<And>t. sound (k (Some t)) (\<lambda>ts. G (t # ts))"
  shows "sound (shift k) G"
  unfolding sound_def
proof (intro allI impI)
  fix s c assume "shift k s = Inr (Some c)"
  then show "\<exists>ts. scans s ts \<and> G ts c"
  proof (cases rule: shift_some)
    case 1
    with assms(1) show ?thesis by auto
  next
    case (2 t s')
    with assms(2) [of t] show ?thesis unfolding sound_def by blast
  qed
qed

lemma sound_error [simp]: "sound syntax_error G"
  by (simp add: sound_def syntax_error_def)

lemma accept_simps [simp]:
  "accept c None s = Inr (Some c)" "accept c (Some t) = syntax_error"
  by (simp_all add: accept_def fun_eq_iff)

lemma syntax_error_simps [simp]: "syntax_error s = Inr None"
  by (simp add: syntax_error_def)

lemma sound_finish: "sound (finish c) (\<lambda>ts c'. ts = [] \<and> c' = c)"
  unfolding finish_def by (rule sound_shift) simp_all

lemma sound_mono: "sound f G \<Longrightarrow> (\<And>ts c. G ts c \<Longrightarrow> G' ts c) \<Longrightarrow> sound f G'"
  unfolding sound_def by blast

lemma sound_finishI: "G [] c \<Longrightarrow> sound (finish c) G"
  by (rule sound_mono [OF sound_finish]) simp

lemma sound_number:
  assumes "\<And>x. sound (k (number_value x)) (\<lambda>ts. G (number_tok x # ts))"
  shows "sound (parse_number k) G"
  unfolding parse_number_def
proof (rule sound_shift)
  fix t show "sound (case Some t of Some (INT_TOKEN n) \<Rightarrow> k (rnd32 (of_int n)) | Some (FLOAT x) \<Rightarrow> k x | _ \<Rightarrow> syntax_error)
      (\<lambda>ts. G (t # ts))"
    using assms [of "N_int n" for n] assms [of "N_float x" for x] by (cases t) simp_all
qed simp

lemma sound_int:
  assumes "\<And>n. sound (k n) (\<lambda>ts. G (INT_TOKEN n # ts))"
  shows "sound (parse_int k) G"
  unfolding parse_int_def
proof (rule sound_shift)
  fix t show "sound (case Some t of Some (INT_TOKEN n) \<Rightarrow> k n | _ \<Rightarrow> syntax_error) (\<lambda>ts. G (t # ts))"
    using assms by (cases t) simp_all
qed simp

definition in_grammar :: "token list \<Rightarrow> command_t \<Rightarrow> bool" where
  "in_grammar ts c \<longleftrightarrow> (\<exists>r. ts = request_toks r \<and> c = request_command r)"

lemma in_grammarI: "ts = request_toks r \<Longrightarrow> c = request_command r \<Longrightarrow> in_grammar ts c"
  by (auto simp: in_grammar_def)

lemma request_in_grammar: "in_grammar (request_toks r) (request_command r)"
  by (auto simp: in_grammar_def)

lemmas grammar_members =
  request_in_grammar [of "Set_byte_order byo_big_endian", simplified]
  request_in_grammar [of "Set_byte_order byo_little_endian", simplified]
  request_in_grammar [of Send_current_frame, simplified]
  request_in_grammar [of Send_status, simplified]
  request_in_grammar [of "Stream_frames None", simplified]
  request_in_grammar [of "Stream_frames (Some n)" for n, simplified]
  request_in_grammar [of Stream_stop, simplified]
  request_in_grammar [of "Execute n" for n, simplified]
  request_in_grammar [of "Set_profile n tab p x t None" for n tab p x t, simplified]
  request_in_grammar [of "Sine_start False a p" for a p, simplified, unfolded sine_tok_def sine_type_def, simplified]
  request_in_grammar [of "Sine_start True a p" for a p, simplified, unfolded sine_tok_def sine_type_def, simplified]
  request_in_grammar [of "Sine_stop False", simplified, unfolded sine_tok_def sine_type_def, simplified]
  request_in_grammar [of "Sine_stop True", simplified, unfolded sine_tok_def sine_type_def, simplified]
  request_in_grammar [of "Lights True", simplified]
  request_in_grammar [of "Lights False", simplified]
  request_in_grammar [of Bye, simplified]
  request_in_grammar [of Home, simplified]
  request_in_grammar [of Clear_fault, simplified]
  request_in_grammar [of "Set_status sta_off", simplified]
  request_in_grammar [of "Set_status sta_preoperational", simplified]
  request_in_grammar [of "Set_status sta_operational", simplified]
  request_in_grammar [of "Set_status sta_outputenabled", simplified]
  request_in_grammar [of Send_internal_status, simplified]
  request_in_grammar [of Set_status_nothing, simplified]

lemmas sound_intros = sound_shift sound_finishI sound_number sound_int

lemmas members = grammar_members [unfolded typed_def]

lemma sound_byteorder: "sound (parse_byteorder unset_command) (\<lambda>ts. in_grammar (SETBYTEORDER # ts))"
  unfolding parse_byteorder_def
  by (auto intro!: sound_intros simp: members split: token.split)

lemma sound_streamframes: "sound (parse_streamframes unset_command) (\<lambda>ts. in_grammar (STREAMFRAMES # ts))"
  unfolding parse_streamframes_def Let_def
  by (auto intro!: sound_intros simp: members split: token.split)

lemma sound_start_stop:
  "sound (parse_start_stop cmd_sinusoid unset_command) (\<lambda>ts. in_grammar (SINUSOID # ts))"
  "sound (parse_start_stop cmd_rsinusoid unset_command) (\<lambda>ts. in_grammar (RSINUSOID # ts))"
  unfolding parse_start_stop_def Let_def
  by (auto intro!: sound_intros simp: members split: token.split)

lemma sound_lights: "sound (parse_lights unset_command) (\<lambda>ts. in_grammar (LIGHTS # ts))"
  unfolding parse_lights_def Let_def
  by (auto intro!: sound_intros simp: members split: token.split)

lemma sound_setinternalstatus:
  "sound (parse_setinternalstatus unset_command) (\<lambda>ts. in_grammar (SETINTERNALSTATUS # ts))"
  unfolding parse_setinternalstatus_def Let_def
  by (auto intro!: sound_intros simp: members split: token.split)

text \<open>Profiles, with the four forms of a successor.\<close>

lemma sound_blend:
  assumes "G [BEFORE] (c\<lparr>cmd_blend_type := Some bln_before\<rparr>)" "G [AFTER] (c\<lparr>cmd_blend_type := Some bln_after\<rparr>)"
  shows "sound (parse_blend c) G"
  unfolding parse_blend_def
  by (rule sound_shift) (auto intro!: sound_intros simp: assms split: token.split)

lemma sound_after_next:
  assumes "cmd_next_delay c = None"
    and G: "\<And>d b. G (drop 2 (successor_toks (Some (n, d, b)))) (successor_fields (Some (n, d, b)) c)"
  shows "sound (parse_after_next (c\<lparr>cmd_next_profile := Some n\<rparr>)) G"
proof -
  have c: "c\<lparr>cmd_next_profile := Some n, cmd_next_delay := None, cmd_blend_type := x\<rparr>
      = c\<lparr>cmd_next_profile := Some n, cmd_blend_type := x\<rparr>" for x using assms(1) by (cases c) simp
  note g = G [of None None, simplified c successor_toks.simps successor_fields.simps]
    G [of "Some x" None for x] G [of None "Some b" for b] G [of "Some x" "Some b" for x b]
  show ?thesis
    unfolding parse_after_next_def Let_def
    using g(1) g(2) g(3) [of True] g(3) [of False] g(4) [of _ True] g(4) [of _ False]
    by (auto intro!: sound_intros sound_blend simp: c split: token.split)
qed

lemma sound_profile: "sound (parse_profile unset_command) (\<lambda>ts. in_grammar (PROFILE # ts))"
proof -
  let ?c = "\<lambda>n tab p x t. unset_command\<lparr>cmd_profile := Some n, cmd_type := Some cmd_profile_set,
    cmd_table := Some tab, cmd_position_type := Some p, cmd_position := Some (number_value x), cmd_time := Some (number_value t)\<rparr>"
  let ?ts = "\<lambda>n tab p x t ts. in_grammar (PROFILE # INT_TOKEN n # SET # TABLE # INT_TOKEN tab # POSTYPE p
    # number_tok x # number_tok t # ts)"
  have order: "?c n tab p x t = (typed cmd_profile_set)\<lparr>cmd_profile := Some n, cmd_table := Some tab,
      cmd_position_type := Some p, cmd_position := Some (number_value x), cmd_time := Some (number_value t)\<rparr>"
    for n tab p x t by (simp add: typed_def)
  have alone: "?ts n tab p x t [] (?c n tab p x t\<lparr>cmd_next_profile := Some (- 1)\<rparr>)" for n tab p x t
    unfolding order using request_in_grammar [of "Set_profile n tab p x t None"] by simp
  have "sound (parse_after_next (?c n tab p x t\<lparr>cmd_next_profile := Some m\<rparr>))
      (\<lambda>ts. ?ts n tab p x t (NEXT # INT_TOKEN m # ts))" for n tab p x t m
  proof (rule sound_after_next)
    show "cmd_next_delay (?c n tab p x t) = None" by (simp add: unset_command_def)
    show "?ts n tab p x t (NEXT # INT_TOKEN m # drop 2 (successor_toks (Some (m, d, b))))
        (successor_fields (Some (m, d, b)) (?c n tab p x t))" for d b
      unfolding order using request_in_grammar [of "Set_profile n tab p x t (Some (m, d, b))"] by simp
  qed
  moreover have "unset_command\<lparr>cmd_profile := Some n, cmd_type := Some cmd_profile_execute\<rparr>
      = request_command (Execute n)" for n by (simp add: typed_def)
  ultimately show ?thesis
    using alone request_in_grammar [of "Execute n" for n]
    unfolding parse_profile_def parse_profile_def_def Let_def
    by (auto intro!: sound_intros split: token.split)
qed

lemma sound_yyparse: "sound (yyparse unset_command) in_grammar"
  unfolding yyparse_def
  by (auto intro!: sound_intros sound_byteorder sound_streamframes sound_start_stop sound_lights
      sound_setinternalstatus sound_profile simp: members split: token.split)

text \<open>On a text that can be scanned, the parser returns.\<close>

definition total_parse :: "parse \<Rightarrow> bool" where
  "total_parse f \<longleftrightarrow> (\<forall>s ts. scans s ts \<longrightarrow> (\<exists>r. f s = Inr r))"

lemma total_shift: "(\<And>t. total_parse (k t)) \<Longrightarrow> total_parse (shift k)"
  unfolding total_parse_def
proof (intro allI impI)
  fix s ts assume k: "\<And>t. \<forall>s ts. scans s ts \<longrightarrow> (\<exists>r. k t s = Inr r)" and "scans s ts"
  from this(2) show "\<exists>r. shift k s = Inr r"
  proof (cases rule: scans.cases)
    case (scans_end s')
    then have "s' = []" by (blast dest: yylex_end)
    with k [of None] scans_Nil scans_end show ?thesis by (auto simp: shift_def)
  next
    case (scans_token t s' ts')
    with k [of "Some t"] show ?thesis by (auto simp: shift_def)
  qed
qed

lemma total_accept [simp]: "total_parse (accept c t)" "total_parse syntax_error"
  by (cases t; simp add: total_parse_def)+

lemma total_parses:
  "total_parse (finish c)"
  "(\<And>x. total_parse (k x)) \<Longrightarrow> total_parse (parse_number k)"
  "(\<And>n. total_parse (j n)) \<Longrightarrow> total_parse (parse_int j)"
  unfolding finish_def parse_number_def parse_int_def
  by (auto intro!: total_shift split: option.split token.split)

lemma total_yyparse: "total_parse (yyparse c)"
  unfolding yyparse_def parse_byteorder_def parse_streamframes_def parse_profile_def parse_profile_def_def
    parse_after_next_def parse_blend_def parse_start_stop_def parse_lights_def parse_setinternalstatus_def Let_def
  by (auto intro!: total_shift total_parses split: option.split token.split)

lemma scans_unique: "scans s ts \<Longrightarrow> scans s ts' \<Longrightarrow> ts = ts'"
proof (induction arbitrary: ts' rule: scans.induct)
  case (scans_end s s')
  from scans_end.prems scans_end.hyps show ?case by (cases rule: scans.cases) auto
next
  case (scans_token s t s' ts)
  from scans_token.prems show ?case
  proof (cases rule: scans.cases)
    case (scans_end s2)
    with scans_token.hyps(1) show ?thesis by simp
  next
    case (scans_token t2 s2 ts2)
    with \<open>yylex s = Inr (Some t, s')\<close> have "t2 = t" "s2 = s'" by simp_all
    with scans_token scans_token.IH show ?thesis by blast
  qed
qed

lemma parser_grammar:
  assumes "scans s ts"
  shows "\<exists>r. parser_parse_string s = Inr r \<and> (\<forall>c. r = Some c \<longleftrightarrow> in_grammar ts c)"
proof -
  from total_yyparse assms obtain r where r: "parser_parse_string s = Inr r"
    by (auto simp: total_parse_def parser_parse_string_def)
  have "r = Some c \<longleftrightarrow> in_grammar ts c" for c
  proof
    assume "r = Some c"
    with r sound_yyparse obtain ts' where "scans s ts'" "in_grammar ts' c"
      by (auto simp: sound_def parser_parse_string_def)
    with scans_unique [OF assms] show "in_grammar ts c" by simp
  next
    assume "in_grammar ts c"
    then obtain q where "ts = request_toks q" "c = request_command q" by (auto simp: in_grammar_def)
    with request_parses [of q] assms r show "r = Some c" by (auto simp: parses_def parser_parse_string_def)
  qed
  with r show ?thesis by blast
qed

lemma parser_accepts_grammar:
  "parser_parse_string s = Inr (Some c) \<Longrightarrow> \<exists>r. scans s (request_toks r) \<and> c = request_command r"
  using sound_yyparse by (auto simp: sound_def in_grammar_def parser_parse_string_def)

text \<open>The one way in which scanning can go wrong: a number out of the range of \<^verbatim>\<open>int\<close>.\<close>

definition fails_by_range :: "parse \<Rightarrow> bool" where
  "fails_by_range f \<longleftrightarrow> (\<forall>s e. f s = Inl e \<longrightarrow> e = Undefined_behaviour Unrepresentable)"

lemma number_token_fails:
  "number_token s = Some (Inl e, rest) \<Longrightarrow> e = Undefined_behaviour Unrepresentable"
  by (auto simp: number_token_def atoi_def Let_def split: if_splits)

lemma yylex_fails: "yylex s = Inl e \<Longrightarrow> e = Undefined_behaviour Unrepresentable"
proof (induction s)
  case (Cons c cs)
  show ?case
  proof (cases "is_alpha c \<or> c = 58")
    case False
    with Cons show ?thesis
      by (cases "number_token (c # cs)") (auto dest: number_token_fails simp: bind_outcome_def split: sum.splits)
  qed (use Cons.prems in \<open>auto split: if_splits\<close>)
qed simp

lemma fails_shift: "(\<And>t. fails_by_range (k t)) \<Longrightarrow> fails_by_range (shift k)"
  unfolding fails_by_range_def
  by (auto simp: shift_def bind_outcome_def dest: yylex_fails split: sum.splits prod.splits)

lemma fails_accept [simp]: "fails_by_range (accept c t)" "fails_by_range syntax_error"
  by (cases t; simp add: fails_by_range_def)+

lemma fails_parses:
  "fails_by_range (finish c)"
  "(\<And>x. fails_by_range (k x)) \<Longrightarrow> fails_by_range (parse_number k)"
  "(\<And>n. fails_by_range (j n)) \<Longrightarrow> fails_by_range (parse_int j)"
  unfolding finish_def parse_number_def parse_int_def
  by (auto intro!: fails_shift split: option.split token.split)

lemma parser_fails: "parser_parse_string s = Inl e \<Longrightarrow> e = Undefined_behaviour Unrepresentable"
proof -
  have "fails_by_range (yyparse unset_command)"
    unfolding yyparse_def parse_byteorder_def parse_streamframes_def parse_profile_def parse_profile_def_def
      parse_after_next_def parse_blend_def parse_start_stop_def parse_lights_def parse_setinternalstatus_def Let_def
    by (auto intro!: fails_shift fails_parses split: option.split token.split)
  then show "parser_parse_string s = Inl e \<Longrightarrow> e = Undefined_behaviour Unrepresentable"
    unfolding fails_by_range_def parser_parse_string_def by blast
qed

section \<open>Texts\<close>

text \<open>A text written as lexemes with white space before each: words, numbers with or without a point, colons.\<close>

datatype lexeme = Word_lx "u8 list" | Int_lx bool "u8 list" | Dec_lx bool "u8 list" "u8 list" | Colon_lx

definition minus :: "bool \<Rightarrow> u8 list" where
  "minus neg = (if neg then [45] else [])"

fun lexeme_text :: "lexeme \<Rightarrow> u8 list" where
  "lexeme_text (Word_lx s) = s"
| "lexeme_text (Int_lx neg ds) = minus neg @ ds"
| "lexeme_text (Dec_lx neg ds fs) = minus neg @ ds @ 46 # fs"
| "lexeme_text Colon_lx = [58]"

fun lexeme_token :: "lexeme \<Rightarrow> token" where
  "lexeme_token (Word_lx s) = word_token s"
| "lexeme_token (Int_lx neg ds) = INT_TOKEN (signed neg (digits_value ds))"
| "lexeme_token (Dec_lx neg ds fs) = FLOAT (to_float (atof neg ds fs))"
| "lexeme_token Colon_lx = COLON"

fun lexeme_ok :: "lexeme \<Rightarrow> bool" where
  "lexeme_ok (Word_lx s) = (s \<noteq> [] \<and> is_alpha (hd s) \<and> (\<forall>c \<in> set s. is_alnum c))"
| "lexeme_ok (Int_lx neg ds) =
     (ds \<noteq> [] \<and> (\<forall>c \<in> set ds. is_digit c) \<and> int32_range (signed neg (digits_value ds)))"
| "lexeme_ok (Dec_lx neg ds fs) = (fs \<noteq> [] \<and> (\<forall>c \<in> set (ds @ fs). is_digit c))"
| "lexeme_ok Colon_lx = True"

definition blank :: "u8 \<Rightarrow> bool" where
  "blank c \<longleftrightarrow> c = 32 \<or> c = 9 \<or> c = 10"

fun spell :: "(u8 list \<times> lexeme) list \<Rightarrow> u8 list" where
  "spell [] = []"
| "spell ((gap, x) # xs) = gap @ lexeme_text x @ spell xs"

definition spelling_ok :: "(u8 list \<times> lexeme) list \<Rightarrow> bool" where
  "spelling_ok xs \<longleftrightarrow> (\<forall>(gap, x) \<in> set xs. lexeme_ok x \<and> (\<forall>c \<in> set gap. blank c))
     \<and> (\<forall>(gap, x) \<in> set (tl xs). gap \<noteq> [])"

definition ends_lexeme :: "u8 list \<Rightarrow> bool" where
  "ends_lexeme rest \<longleftrightarrow> rest = [] \<or> blank (hd rest)"

lemma blank_class: "blank c \<Longrightarrow> \<not> is_alpha c \<and> \<not> is_digit c \<and> \<not> is_alnum c \<and> c \<noteq> 58 \<and> c \<noteq> 45 \<and> c \<noteq> 46"
  by (auto simp: blank_def is_alpha_def is_digit_def is_alnum_def)

lemma digit_class: "is_digit c \<Longrightarrow> \<not> is_alpha c \<and> c \<noteq> 58 \<and> c \<noteq> 45 \<and> c \<noteq> 46"
  unfolding is_digit_def is_alpha_def by unat_arith

lemma number_token_blank: "blank c \<Longrightarrow> number_token (c # cs) = None"
  using blank_class [of c] by (simp add: number_token_def)

lemma yylex_gap: "\<forall>c \<in> set gap. blank c \<Longrightarrow> yylex (gap @ s) = yylex s"
  by (induction gap) (auto simp: number_token_blank dest: blank_class)

lemma span_append:
  assumes "\<forall>c \<in> set xs. P c" and "rest = [] \<or> \<not> P (hd rest)"
  shows "takeWhile P (xs @ rest) = xs" and "dropWhile P (xs @ rest) = rest"
  using assms by (cases rest; simp add: takeWhile_tail dropWhile_append)+

lemma number_token_int:
  assumes "lexeme_ok (Int_lx neg ds)" and "ends_lexeme rest"
  shows "number_token (minus neg @ ds @ rest) = Some (Inr (INT_TOKEN (signed neg (digits_value ds))), rest)"
proof -
  have d: "ds \<noteq> []" "\<forall>c \<in> set ds. is_digit c" "rest = [] \<or> \<not> is_digit (hd rest)" "rest = [] \<or> hd rest \<noteq> 46"
    using assms by (auto simp: ends_lexeme_def dest: blank_class)
  then have sign: "hd ds \<noteq> 45" by (cases ds) (auto dest: digit_class)
  have dot: "(case rest of [] \<Rightarrow> [] | c # cs \<Rightarrow> if c = 46 then takeWhile is_digit cs else []) = []"
    using d(4) by (cases rest) auto
  show ?thesis
    using d sign dot assms(1) span_append [OF d(2,3)]
    by (cases ds; cases neg) (simp_all add: number_token_def minus_def atoi_def Let_def)
qed

lemma number_token_dec:
  assumes "lexeme_ok (Dec_lx neg ds fs)" and "ends_lexeme rest"
  shows "number_token (minus neg @ ds @ 46 # fs @ rest) = Some (Inr (FLOAT (to_float (atof neg ds fs))), rest)"
proof -
  have d: "\<forall>c \<in> set ds. is_digit c" "\<forall>c \<in> set fs. is_digit c" "fs \<noteq> []" "rest = [] \<or> \<not> is_digit (hd rest)"
    using assms by (auto simp: ends_lexeme_def dest: blank_class)
  have n46: "\<not> is_digit 46" by (simp add: is_digit_def)
  have "hd (ds @ 46 # fs) \<noteq> 45" using d(1) by (cases ds) (auto dest: digit_class)
  then show ?thesis
    using d span_append [OF d(2,4)] span_append [OF d(1), of "46 # fs @ rest"] n46
    by (cases ds; cases neg) (simp_all add: number_token_def minus_def Let_def)
qed

lemma yylex_number:
  assumes "number_token s = Some (Inr t, rest)" and "s \<noteq> []" and "\<not> is_alpha (hd s)" and "hd s \<noteq> 58"
  shows "yylex s = Inr (Some t, rest)"
  using assms by (cases s) simp_all

lemma yylex_lexeme:
  assumes "lexeme_ok x" and "ends_lexeme rest"
  shows "yylex (lexeme_text x @ rest) = Inr (Some (lexeme_token x), rest)"
proof (cases x)
  case (Word_lx s)
  then obtain c cs where s: "s = c # cs" "is_alpha c" "\<forall>c \<in> set cs. is_alnum c"
    using assms(1) by (cases s) auto
  have "rest = [] \<or> \<not> is_alnum (hd rest)" using assms(2) by (auto simp: ends_lexeme_def dest: blank_class)
  from span_append [OF s(3) this] s Word_lx show ?thesis by simp
next
  case (Int_lx neg ds)
  have "minus neg @ ds @ rest \<noteq> []" "\<not> is_alpha (hd (minus neg @ ds @ rest))" "hd (minus neg @ ds @ rest) \<noteq> 58"
    using assms(1) Int_lx by (cases ds; cases neg; auto simp: minus_def is_alpha_def dest: digit_class)+
  from yylex_number [OF number_token_int this] assms Int_lx show ?thesis by simp
next
  case (Dec_lx neg ds fs)
  let ?s = "minus neg @ ds @ 46 # fs @ rest"
  have "?s \<noteq> []" "\<not> is_alpha (hd ?s)" "hd ?s \<noteq> 58"
    using assms(1) Dec_lx by (cases ds; cases neg; auto simp: minus_def is_alpha_def dest: digit_class)+
  from yylex_number [OF number_token_dec this] assms Dec_lx show ?thesis by simp
next
  case Colon_lx
  then show ?thesis by (simp add: is_alpha_def)
qed

lemma spell_scans:
  assumes "spelling_ok xs"
  shows "scans (spell xs) (map (\<lambda>(gap, x). lexeme_token x) xs)"
  using assms
proof (induction xs)
  case Nil
  then show ?case by (simp add: scans_Nil)
next
  case (Cons p xs)
  obtain gap x where p: "p = (gap, x)" by (cases p)
  have ok: "lexeme_ok x" "\<forall>c \<in> set gap. blank c" "spelling_ok xs"
    using Cons.prems p by (cases xs; auto simp: spelling_ok_def)+
  have "ends_lexeme (spell xs)"
    using Cons.prems p by (cases xs) (auto simp: spelling_ok_def ends_lexeme_def)
  from yylex_lexeme [OF ok(1) this] yylex_gap [OF ok(2), of "lexeme_text x @ spell xs"]
  have "yylex (spell (p # xs)) = Inr (Some (lexeme_token x), spell xs)" using p by simp
  with Cons.IH [OF ok(3)] p show ?case by (auto intro: scans_token)
qed

text \<open>
  C9: the command language. For every text of words (in any case), numbers within the range of
  \<^verbatim>\<open>int\<close> or with a decimal point, and colons, separated by blanks, tabs or line ends: the parser returns,
  and it returns a command exactly if the words and numbers are a command of the grammar, with the
  fields that the grammar assigns and no other.
\<close>

theorem parser_language:
  assumes "spelling_ok xs"
  shows "\<exists>res. parser_parse_string (spell xs) = Inr res
    \<and> (\<forall>c. res = Some c \<longleftrightarrow> (\<exists>r. map (\<lambda>(gap, x). lexeme_token x) xs = request_toks r \<and> c = request_command r))"
  using parser_grammar [OF spell_scans [OF assms]] by (simp add: in_grammar_def)

text \<open>\<^verbatim>\<open>PROFILE 3 execute\<close>, in the spelling of a client.\<close>

definition sample_spelling :: "(u8 list \<times> lexeme) list" where
  "sample_spelling =
     [([], Word_lx (ascii ''PROFILE'')), ([32], Int_lx False (ascii ''3'')), ([32, 9], Word_lx (ascii ''execute''))]"

lemma sample_spelling_ok: "spelling_ok sample_spelling"
  by code_simp

lemma sample_spelling_tokens:
  "map (\<lambda>(gap, x). lexeme_token x) sample_spelling = request_toks (Execute 3)"
  by code_simp

theorem parser_language_witness:
  "parser_parse_string (spell sample_spelling) = Inr (Some (request_command (Execute 3)))"
  using parser_language [OF sample_spelling_ok] sample_spelling_tokens by metis

end
