(* ===== verification/Server_Inv.thy ===== *)
theory Server_Inv
  imports Server Parser_Props
begin

text \<open>
  The invariant of the whole server, and that every event keeps it: the sled library is in order,
  the objects of the network layers belong together, clients that get the stream are connected, and
  every connection is in a state from which its next packet can be read.
\<close>

section \<open>The invariant\<close>

definition tlate_ok :: "(int \<Rightarrow> int option) \<Rightarrow> bool" where
  "tlate_ok m \<longleftrightarrow> (\<forall>n i. m n = Some i \<longrightarrow> i < int MAX_PROFILES)"

definition server_rest :: "'z server_env_scheme \<Rightarrow> bool" where
  "server_rest w \<longleftrightarrow> sys_inv (sled w) \<and> tlate_ok (profile_tlate w)
     \<and> distinct (stream_clients w) \<and> (\<forall>l \<in> set (stream_clients w). rtc3d_conns w l \<noteq> None)
     \<and> (\<forall>n. os_malloc (tcp_os w) n)"

text \<open>Every connection outside of \<open>X\<close> can go on reading.\<close>

definition readers_ok :: "nat set \<Rightarrow> 'z server_env_scheme \<Rightarrow> bool" where
  "readers_ok X w \<longleftrightarrow> (\<forall>l rc. rtc3d_conns w l = Some rc \<longrightarrow> l \<notin> X \<longrightarrow> (\<exists>r. reads r rc))"

definition server_ok :: "'z server_env_scheme \<Rightarrow> bool" where
  "server_ok w \<longleftrightarrow> server_rest w \<and> readers_ok {} w"

text \<open>No connect handler is installed; one that does nothing stands in its place.\<close>

definition no_connect :: "nat \<Rightarrow> 'z server_env_scheme \<Rightarrow> (nat \<times> 'z server_env_scheme) outcome" where
  "no_connect l w = Inr (0, w)"

lemma disconnected_ok:
  assumes "server_ok w" and "l \<noteq> 0" and "rtc3d_conns w l = Some rc"
    and "net_conn rc \<noteq> 0" and "net_conns w (net_conn rc) \<noteq> None"
  shows "\<exists>w'. disconnected l w = Inr w' \<and> same_net w w' \<and> same_rtc3d w w'
    \<and> server_ok (w'\<lparr>rtc3d_conns := (rtc3d_conns w')(l := None)\<rparr>)"
proof -
  have "disconnected l w = Inr (stream_remove l w)"
    using assms(2-5) by (auto simp: disconnected_def rtc3d_get_global_data_def deref_rtc3d_def deref_conn_def)
  moreover have "same_net w (stream_remove l w)" "same_rtc3d w (stream_remove l w)"
    by (simp_all add: same_net_def same_rtc3d_def stream_remove_def)
  moreover have "server_ok ((stream_remove l w)\<lparr>rtc3d_conns := (rtc3d_conns (stream_remove l w))(l := None)\<rparr>)"
    using assms(1) by (auto simp: server_ok_def server_rest_def readers_ok_def stream_remove_def distinct_removeAll)
  ultimately show ?thesis by blast
qed

lemma server_ok_new:
  assumes "server_ok w" and "rtc3d_conns w l = None"
  shows "server_ok (w\<lparr>next_rtc3d := n, rtc3d_conns := (rtc3d_conns w)(l \<mapsto> new_rtc3d_connection c)\<rparr>)"
proof -
  have "\<exists>r. reads r (new_rtc3d_connection c)" using reads_fresh by blast
  with assms show ?thesis by (auto simp: server_ok_def server_rest_def readers_ok_def)
qed

interpretation sv: rtc3d_user no_connect disconnected server_ok
proof
  fix w :: "'a server_env_scheme" and l rc
  assume "server_ok w" "l \<noteq> 0" "rtc3d_conns w l = Some rc" "net_conn rc \<noteq> 0" "net_conns w (net_conn rc) \<noteq> None"
  then show "\<exists>w'. disconnected l w = Inr w' \<and> same_net w w' \<and> same_rtc3d w w'
    \<and> server_ok (w'\<lparr>rtc3d_conns := (rtc3d_conns w')(l := None)\<rparr>)" by (rule disconnected_ok)
next
  fix w :: "'a server_env_scheme" and l n c
  assume "server_ok w" "rtc3d_conns w l = None"
  then show "server_ok (w\<lparr>next_rtc3d := n, rtc3d_conns := (rtc3d_conns w)(l \<mapsto> new_rtc3d_connection c)\<rparr>)"
    by (rule server_ok_new)
qed (simp_all add: server_ok_def server_rest_def readers_ok_def)

text \<open>All of it, and that libevent's read events are those of the connections.\<close>

definition server_inv_but :: "nat set \<Rightarrow> 'z server_env_scheme \<Rightarrow> bool" where
  "server_inv_but X w \<longleftrightarrow> map_ok w \<and> pairing (net_conns w) (rtc3d_owner w) \<and> addresses_ok w
     \<and> server_rest w \<and> readers_ok X w
     \<and> net_connect_handler w \<and> net_disconnect_handler w \<and> net_read_handler w
     \<and> \<not> rtc3d_connect_handler w \<and> rtc3d_disconnect_handler w \<and> rtc3d_command_handler w
     \<and> set (read_events w) = fst ` set (connection_data w) \<and> null_fds w = {}"

definition server_inv :: "'z server_env_scheme \<Rightarrow> bool" where
  "server_inv w \<longleftrightarrow> server_inv_but {} w"

lemma server_inv_iff:
  "server_inv w \<longleftrightarrow> sv.srv.tcp_inv w \<and> set (read_events w) = fst ` set (connection_data w) \<and> null_fds w = {}"
  by (auto simp: server_inv_def server_inv_but_def sv.srv.tcp_inv_def sv.rtc3d_inv_def server_ok_def)

text \<open>
  Connection \<open>l\<close> is open, and everything else is in order: what holds while a command of \<open>l\<close> is run,
  when \<open>l\<close> is not reading. \<open>N\<close> are the connections, none of which comes or goes meanwhile.
\<close>

definition serving ::
    "(nat \<Rightarrow> net_connection_t option) \<Rightarrow> nat \<Rightarrow> 'z server_env_scheme \<Rightarrow> bool" where
  "serving N l w \<longleftrightarrow> server_inv_but {l} w \<and> rtc3d_conns w l \<noteq> None \<and> net_conns w = N"

lemma server_inv_serving: "server_inv w \<Longrightarrow> rtc3d_conns w l \<noteq> None \<Longrightarrow> serving (net_conns w) l w"
  by (auto simp: server_inv_def serving_def server_inv_but_def readers_ok_def)

lemma serving_server_inv: "serving N l w \<Longrightarrow> rtc3d_conns w l = Some rc \<Longrightarrow> reads r rc \<Longrightarrow> server_inv w"
  unfolding server_inv_def serving_def server_inv_but_def readers_ok_def by (metis empty_iff insert_iff option.inject)

lemma server_inv_cong:
  assumes "server_inv_but X w" and "same_net w w'" and "same_rtc3d w w'" and "server_rest w'"
  shows "server_inv_but X w'"
proof -
  have "rtc3d_owner w' = rtc3d_owner w" "addresses_ok w' = addresses_ok w" "null_fds w' = null_fds w"
    "readers_ok X w' = readers_ok X w"
    using assms(2,3) by (simp_all add: rtc3d_owner_def [abs_def] addresses_ok_def null_fds_def readers_ok_def
        same_net_def same_rtc3d_def)
  with assms same_net_map_ok [OF assms(2)] show ?thesis
    by (simp add: server_inv_but_def same_net_def same_rtc3d_def)
qed

lemma serving_cong:
  "serving N l w \<Longrightarrow> same_net w w' \<Longrightarrow> same_rtc3d w w' \<Longrightarrow> server_rest w' \<Longrightarrow> serving N l w'"
  unfolding serving_def by (auto intro: server_inv_cong simp: same_rtc3d_def same_net_def)

lemma serving_conn:
  assumes "serving N l w"
  obtains rc conn where "l \<noteq> 0" "rtc3d_conns w l = Some rc" "net_conn rc \<noteq> 0"
    "net_conns w (net_conn rc) = Some conn" "conn_local conn = l"
proof -
  from assms obtain rc where rc: "rtc3d_conns w l = Some rc" and inv: "server_inv_but {l} w" by (auto simp: serving_def)
  then have "rtc3d_owner w l = Some (net_conn rc)" by (simp add: rtc3d_owner_def)
  moreover have "pairing (net_conns w) (rtc3d_owner w)" using inv by (simp add: server_inv_but_def)
  ultimately obtain conn where conn: "net_conns w (net_conn rc) = Some conn" "conn_local conn = l"
    unfolding pairing_def by blast
  from rc inv have "l \<noteq> 0" by (auto simp: server_inv_but_def addresses_ok_def)
  moreover from conn inv have "net_conn rc \<noteq> 0" by (auto simp: server_inv_but_def map_ok_def)
  ultimately show thesis using that rc conn by blast
qed

lemma serving_fit:
  assumes "serving N l w"
  shows "fit l w"
proof -
  have "rtc3d_command_handler w" "\<forall>n. os_malloc (tcp_os w) n"
    using assms by (simp_all add: serving_def server_inv_but_def server_rest_def)
  moreover from assms obtain rc conn where "l \<noteq> 0" "rtc3d_conns w l = Some rc" "net_conn rc \<noteq> 0"
    "net_conns w (net_conn rc) = Some conn" by (rule serving_conn)
  ultimately show ?thesis by (auto simp: fit_def)
qed

text \<open>The fields that commands change, one by one.\<close>

lemma serving_fields:
  assumes "serving N l w"
  shows "serving N l (w\<lparr>written := x1\<rparr>)" "serving N l (w\<lparr>os_calls := n\<rparr>)"
    "serving N l (w\<lparr>frame := x3\<rparr>)" "serving N l (w\<lparr>stats := x4\<rparr>)"
    "sys_inv s \<Longrightarrow> serving N l (w\<lparr>sled := s\<rparr>)" "tlate_ok m \<Longrightarrow> serving N l (w\<lparr>profile_tlate := m\<rparr>)"
    "distinct ls \<Longrightarrow> \<forall>l' \<in> set ls. rtc3d_conns w l' \<noteq> None \<Longrightarrow> serving N l (w\<lparr>stream_clients := ls\<rparr>)"
proof -
  have ok: "server_rest w" using assms by (simp add: serving_def server_inv_but_def)
  show "serving N l (w\<lparr>written := x1\<rparr>)" "serving N l (w\<lparr>os_calls := n\<rparr>)"
    "serving N l (w\<lparr>frame := x3\<rparr>)" "serving N l (w\<lparr>stats := x4\<rparr>)"
    "sys_inv s \<Longrightarrow> serving N l (w\<lparr>sled := s\<rparr>)" "tlate_ok m \<Longrightarrow> serving N l (w\<lparr>profile_tlate := m\<rparr>)"
    "distinct ls \<Longrightarrow> \<forall>l' \<in> set ls. rtc3d_conns w l' \<noteq> None \<Longrightarrow> serving N l (w\<lparr>stream_clients := ls\<rparr>)"
    by (rule serving_cong [OF assms]; use ok in \<open>simp add: same_net_def same_rtc3d_def server_rest_def\<close>)+
qed

lemma serving_put:
  assumes "serving N l w" and rc: "rtc3d_conns w l = Some rc" and same: "net_conn rc' = net_conn rc"
  shows "serving N l (put_rtc3d l rc' w)"
proof -
  let ?w = "put_rtc3d l rc' w"
  have "rtc3d_owner ?w = rtc3d_owner w"
    using rc same by (auto simp: rtc3d_owner_def put_rtc3d_def)
  moreover have "addresses_ok ?w = addresses_ok w" using rc by (auto simp: addresses_ok_def put_rtc3d_def)
  moreover have "server_rest ?w" "readers_ok {l} ?w"
    using assms by (auto simp: serving_def server_inv_but_def server_rest_def readers_ok_def put_rtc3d_def)
  moreover have "same_net w ?w" by (simp add: same_net_def put_rtc3d_def)
  ultimately show ?thesis using assms(1) same_net_map_ok [of w ?w]
    by (simp add: serving_def server_inv_but_def null_fds_def) (auto simp: put_rtc3d_def)
qed

lemma serving_reader_step:
  assumes "serving N l w" and "reader_step l w w'"
  shows "serving N l w'"
proof -
  from assms(2) obtain rc sl ps dl pd n where "rtc3d_conns w l = Some rc"
    and w': "w' = put_rtc3d l (rc\<lparr>size_left := sl, packet_size := ps, data_left := dl, packet_data := pd\<rparr>)
         (w\<lparr>os_calls := n\<rparr>)" unfolding reader_step_def by blast
  then show ?thesis unfolding w' by (intro serving_put serving_fields(2) assms(1)) simp_all
qed

section \<open>Commands\<close>

text \<open>Every reply is sent, to the client that asked.\<close>

definition fd_of :: "nat \<Rightarrow> 'z rtc3d_env_scheme \<Rightarrow> int" where
  "fd_of l w = (case rtc3d_conns w l of None \<Rightarrow> - 1
     | Some rc \<Rightarrow> (case net_conns w (net_conn rc) of None \<Rightarrow> - 1 | Some conn \<Rightarrow> conn_fd conn))"

lemma send_packet_serving:
  assumes "serving N l w"
  shows "send_packet l buf w = Inr (w\<lparr>os_calls := Suc (os_calls w), written := written w @ [(fd_of l w, buf)]\<rparr>)"
    and "rtc3d_send_data l fr tm pt w = Inr (w\<lparr>written := written w @ [(fd_of l w, rtc3d_data_packet fr tm pt)]\<rparr>)"
proof -
  from assms obtain rc conn where c: "l \<noteq> 0" "rtc3d_conns w l = Some rc" "net_conn rc \<noteq> 0"
    "net_conns w (net_conn rc) = Some conn" by (rule serving_conn)
  have m: "os_malloc (tcp_os w) n" for n using assms by (simp add: serving_def server_inv_but_def server_rest_def)
  show "send_packet l buf w = Inr (w\<lparr>os_calls := Suc (os_calls w), written := written w @ [(fd_of l w, buf)]\<rparr>)"
    using c m by (simp add: send_packet_def os_call_def deref_rtc3d_def net_send_def deref_conn_def fd_of_def)
  show "rtc3d_send_data l fr tm pt w = Inr (w\<lparr>written := written w @ [(fd_of l w, rtc3d_data_packet fr tm pt)]\<rparr>)"
    using c by (simp add: rtc3d_send_data_def deref_rtc3d_def net_send_def deref_conn_def fd_of_def)
qed

definition sent_packet :: "nat \<Rightarrow> buffer \<Rightarrow> 'z server_env_scheme \<Rightarrow> 'z server_env_scheme" where
  "sent_packet l buf w = w\<lparr>os_calls := Suc (os_calls w), written := written w @ [(fd_of l w, buf)]\<rparr>"

lemma serving_sent: "serving N l w \<Longrightarrow> serving N l (sent_packet l' buf w)"
  unfolding sent_packet_def by (intro serving_fields) simp_all

lemma reply_serving:
  assumes "serving N l w"
  shows "reply l text w = Inr (sent_packet l (rtc3d_command_packet (ascii text)) w)"
    and "reply_error l text w = Inr (sent_packet l (rtc3d_error_packet (ascii text)) w)"
  using send_packet_serving(1) [OF assms]
  by (simp_all add: reply_def reply_error_def rtc3d_send_command_def rtc3d_send_error_def sent_packet_def)

text \<open>
  \<open>settled N l res\<close>: the command has stopped the process for one of the reasons of the library, or
  has returned with everything in order.
\<close>

definition settled ::
    "(nat \<Rightarrow> net_connection_t option) \<Rightarrow> nat \<Rightarrow> 'z server_env_scheme outcome \<Rightarrow> bool" where
  "settled N l res \<longleftrightarrow> (case res of Inl e \<Rightarrow> e \<in> sled_stops | Inr w \<Rightarrow> serving N l w)"

lemma settled_simps [simp]: "settled N l (Inr w) = serving N l w" "settled N l (Inl e) = (e \<in> sled_stops)"
  by (simp_all add: settled_def)

lemma settled_read: "(\<And>x. v = Some x \<Longrightarrow> settled N l (f x)) \<Longrightarrow> settled N l (bind_outcome (read_determined v) f)"
  by (cases v) (simp_all add: read_determined_def sled_stops_def)

lemma settled_bind: "settled N l r \<Longrightarrow> (\<And>w. serving N l w \<Longrightarrow> settled N l (f w)) \<Longrightarrow> settled N l (bind_outcome r f)"
  by (cases r) simp_all

lemma settled_reply:
  assumes "serving N l w"
  shows "settled N l (reply l text w)" and "settled N l (reply_error l text w)"
  using assms by (simp_all add: reply_serving serving_sent)

lemma at_sled_cases:
  assumes "serving N l w" and "safe_on sled_stops sys_inv (dropping f)"
  obtains e where "at_sled f w = Inl e" "e \<in> sled_stops"
  | r s where "at_sled f w = Inr (r, w\<lparr>sled := s\<rparr>)" "f (sled w) = Inr (r, s)" "serving N l (w\<lparr>sled := s\<rparr>)"
proof -
  have "sys_inv (sled w)" using assms(1) by (simp add: serving_def server_inv_but_def server_rest_def)
  with assms(2) show thesis
  proof (cases rule: safe_onE)
    case (1 e)
    then show thesis using that(1) [of e]
      by (cases "f (sled w)") (auto simp: dropping_def at_sled_def split: prod.splits)
  next
    case (2 s')
    then obtain r where "f (sled w) = Inr (r, s')"
      by (cases "f (sled w)") (auto simp: dropping_def split: prod.splits)
    with 2 that(2) [of r s'] serving_fields(5) [OF assms(1), of s'] show thesis by (simp add: at_sled_def)
  qed
qed

lemma settled_reply_to:
  assumes "serving N l w" and "safe_on sled_stops sys_inv (dropping f)"
  shows "settled N l (reply_to l err okay (at_sled f w))"
  using assms by (cases rule: at_sled_cases) (auto simp: reply_to_def settled_reply)

lemma safe_calls:
  "safe_on sled_stops sys_inv (dropping (sled_profile_execute i))"
  "safe_on sled_stops sys_inv (dropping (sled_sinusoid_start a p))"
  "safe_on sled_stops sys_inv (dropping sled_sinusoid_stop)"
  "safe_on sled_stops sys_inv (dropping (sled_rsinusoid_start a p))"
  "safe_on sled_stops sys_inv (dropping sled_rsinusoid_stop)"
  "safe_on sled_stops sys_inv (dropping (sled_light_set_state b))"
  "safe_on sled_stops sys_inv (dropping sled_rt_get_position)"
  "safe_on sled_stops sys_inv (dropping sled_rt_get_position_and_time)"
  using safe_sled_op [of "Profile_execute i"] safe_sled_op [of "Sinusoid_start a p"] safe_sled_op [of Sinusoid_stop]
    safe_sled_op [of "Rsinusoid_start a p"] safe_sled_op [of Rsinusoid_stop] safe_sled_op [of "Light b"]
    safe_sled_op [of Get_position] safe_sled_op [of Get_position_and_time]
  by (simp_all add: sled_op_ok_def)

lemma create_small: "length (profiles s) = MAX_PROFILES \<Longrightarrow> fst (sled_profile_create s) < int MAX_PROFILES"
  by (auto simp: sled_profile_create_eq MAX_PROFILES_def split: option.split dest!: free_profile_Some)

lemma tlate_serving:
  assumes "serving N l w"
  shows "serving N l (snd (tlate_profile_id n w))" and "fst (tlate_profile_id n w) < int MAX_PROFILES"
proof -
  have ok: "sys_inv (sled w)" "tlate_ok (profile_tlate w)"
    using assms by (simp_all add: serving_def server_inv_but_def server_rest_def)
  then have len: "length (profiles (sled w)) = MAX_PROFILES"
    by (simp add: sys_inv_def prof_inv_def table_ok_def)
  let ?s = "snd (sled_profile_create (sled w))" and ?i = "fst (sled_profile_create (sled w))"
  have "tlate_ok ((profile_tlate w)(n \<mapsto> ?i))" using ok(2) create_small [OF len] by (simp add: tlate_ok_def)
  with serving_fields(6) [OF serving_fields(5) [OF assms sys_table_ops(5) [OF ok(1)]]]
  show "serving N l (snd (tlate_profile_id n w))" using assms
    by (auto simp: tlate_profile_id_def at_table_def Let_def split: option.split prod.split)
  show "fst (tlate_profile_id n w) < int MAX_PROFILES"
    using ok(2) create_small [OF len]
    by (auto simp: tlate_profile_id_def at_table_def Let_def tlate_ok_def split: option.split prod.split)
qed

lemma table_serving:
  assumes "serving N l w"
  shows "serving N l (snd (at_table (sled_profile_set_target i type pos t) w))"
    and "serving N l (snd (at_table (sled_profile_set_table i tab) w))"
    and "n < int MAX_PROFILES \<Longrightarrow> serving N l (snd (at_table (sled_profile_set_next i n d b) w))"
proof -
  have "sys_inv (sled w)" using assms by (simp add: serving_def server_inv_but_def server_rest_def)
  note t = sys_table_ops(1-3) [OF this]
  show "serving N l (snd (at_table (sled_profile_set_target i type pos t) w))"
    using serving_fields(5) [OF assms t(2)] by (simp add: at_table_def split_beta Let_def)
  show "serving N l (snd (at_table (sled_profile_set_table i tab) w))"
    using serving_fields(5) [OF assms t(1)] by (simp add: at_table_def split_beta Let_def)
  show "serving N l (snd (at_table (sled_profile_set_next i n d b) w))" if "n < int MAX_PROFILES"
    using serving_fields(5) [OF assms t(3) [OF that]] by (simp add: at_table_def split_beta Let_def)
qed

lemma settled_set_next: "serving N l w \<Longrightarrow> settled N l (command_set_next l i c w)"
  unfolding command_set_next_def Let_def split_beta
  by (intro settled_read) (auto intro!: settled_read settled_reply table_serving tlate_serving simp: MAX_PROFILES_def)

lemma settled_set_target: "serving N l w \<Longrightarrow> settled N l (command_set_target l i c w)"
  unfolding command_set_target_def Let_def split_beta
  by (intro settled_read) (auto intro!: settled_read settled_reply settled_set_next table_serving)

lemma settled_profile_set: "serving N l w \<Longrightarrow> settled N l (command_profile_set l c w)"
  unfolding command_profile_set_def Let_def split_beta
  by (intro settled_read)
    (auto intro!: settled_read settled_bind settled_reply settled_set_target tlate_serving simp: when_step_def)

lemma settled_profile_execute: "serving N l w \<Longrightarrow> settled N l (command_profile_execute l c w)"
  unfolding command_profile_execute_def Let_def split_beta
  by (intro settled_read settled_reply_to tlate_serving safe_calls)

lemma settled_sinusoids:
  assumes "serving N l w"
  shows "settled N l (command_sinusoid l c w)" "settled N l (command_rsinusoid l c w)" "settled N l (command_lights l c w)"
  unfolding command_sinusoid_def command_rsinusoid_def command_lights_def
  by (auto intro!: settled_read settled_reply_to safe_calls assms)

lemma stream_serving:
  assumes "serving N l w"
  shows "serving N l (stream_remove l w)"
    and "serving N l ((stream_remove l w)\<lparr>stream_clients := stream_clients (stream_remove l w) @ [l]\<rparr>)"
proof -
  have "rtc3d_conns w l \<noteq> None" "distinct (stream_clients w)" "\<forall>l' \<in> set (stream_clients w). rtc3d_conns w l' \<noteq> None"
    using assms by (simp_all add: serving_def server_inv_but_def server_rest_def)
  then show "serving N l (stream_remove l w)"
    and "serving N l ((stream_remove l w)\<lparr>stream_clients := stream_clients (stream_remove l w) @ [l]\<rparr>)"
    unfolding stream_remove_def by (auto intro!: serving_fields assms distinct_removeAll)
qed

lemma settled_streamframes:
  assumes "serving N l w"
  shows "settled N l (command_streamframes l c w)"
  using stream_serving [OF assms] unfolding command_streamframes_def Let_def
  by (auto intro!: settled_read settled_reply)

lemma settled_sendcurrentframe:
  assumes "serving N l w"
  shows "settled N l (command_sendcurrentframe l w)"
  using assms safe_calls(7)
proof (cases rule: at_sled_cases)
  case (1 e)
  then show ?thesis by (simp add: command_sendcurrentframe_def)
next
  case (2 r s)
  then show ?thesis unfolding command_sendcurrentframe_def
    by (cases r) (auto intro!: settled_reply settled_read serving_fields simp: send_packet_serving)
qed

lemma settled_setbyteorder:
  assumes "serving N l w"
  shows "settled N l (command_setbyteorder l c w)"
proof -
  from assms obtain rc where rc: "l \<noteq> 0" "rtc3d_conns w l = Some rc" by (rule serving_conn)
  have "serving N l (put_rtc3d l (rc\<lparr>byte_order := bo\<rparr>) w)" for bo
    by (rule serving_put [OF assms rc(2)]) simp
  with rc show ?thesis unfolding command_setbyteorder_def
    by (auto intro!: settled_read settled_reply simp: rtc3d_set_byte_order_def deref_rtc3d_def)
qed

lemma settled_command:
  assumes "serving N l w" and "type \<noteq> cmd_bye"
  shows "settled N l (run_command l c type w)"
  using assms
  by (cases type) (simp_all add: settled_setbyteorder settled_streamframes settled_sendcurrentframe
      settled_profile_execute settled_profile_set settled_sinusoids settled_reply)

text \<open>\<open>not_bye t\<close>: the text is not the command that ends the connection.\<close>

definition not_bye :: "u8 list \<Rightarrow> bool" where
  "not_bye t \<longleftrightarrow>
     (case parser_parse_string t of Inr (Some c) \<Rightarrow> cmd_type c \<noteq> Some cmd_bye | _ \<Rightarrow> True)"

lemma parser_stops: "parser_parse_string t = Inl e \<Longrightarrow> e \<in> sled_stops"
  using parser_fails by (auto simp: sled_stops_def)

lemma settled_handler:
  assumes "serving N l w" and "not_bye t"
  shows "settled N l (command_handler l t w)"
proof -
  from assms(1) obtain rc conn where "l \<noteq> 0" "rtc3d_conns w l = Some rc" "net_conn rc \<noteq> 0"
    "net_conns w (net_conn rc) = Some conn" by (rule serving_conn)
  then have g: "rtc3d_get_global_data l w = Inr ()"
    by (simp add: rtc3d_get_global_data_def deref_rtc3d_def deref_conn_def)
  show ?thesis
  proof (cases "parser_parse_string t")
    case (Inl e)
    then show ?thesis using g parser_stops by (simp add: command_handler_def)
  next
    case (Inr r)
    with assms g show ?thesis
      by (cases r) (auto simp: command_handler_def not_bye_def settled_reply
          intro!: settled_read settled_command)
  qed
qed

text \<open>The command handler fulfils the contract of the reader.\<close>

interpretation cc: command_client command_handler not_bye "serving N" for N
proof
  fix l t and w w' :: "'a server_env_scheme"
  show "serving N l w \<Longrightarrow> fit l w" by (rule serving_fit)
  show "serving N l w \<Longrightarrow> reader_step l w w' \<Longrightarrow> serving N l w'" by (rule serving_reader_step)
  show "serving N l w \<Longrightarrow> not_bye t \<Longrightarrow> command_handler l t w = Inr w' \<Longrightarrow> serving N l w'"
    using settled_handler [of N l w t] by simp
qed

lemma served_settled:
  assumes "served_by command_handler l ts w res" and "serving N l w" and "\<forall>t \<in> set ts. not_bye t"
  shows "settled N l res"
  using assms
proof (induction rule: served_by.induct)
  case (served_all w w')
  then show ?case by (simp add: serving_reader_step)
next
  case (served_stop w w1 t e ts)
  from settled_handler [OF serving_reader_step [OF served_stop.prems(1) served_stop.hyps(1)], of t]
    served_stop show ?case by simp
next
  case (served_call w w1 t w2 ts res)
  from settled_handler [OF serving_reader_step [OF served_call.prems(1) served_call.hyps(1)], of t]
    served_call show ?case by simp
qed

section \<open>Events\<close>

text \<open>The settlement of an event that is not bound to one connection.\<close>

definition kept :: "'z server_env_scheme outcome \<Rightarrow> bool" where
  "kept res \<longleftrightarrow> (case res of Inl e \<Rightarrow> e \<in> sled_stops | Inr w \<Rightarrow> server_inv w)"

lemma kept_simps [simp]: "kept (Inr w) = server_inv w" "kept (Inl e) = (e \<in> sled_stops)"
  by (simp_all add: kept_def)

text \<open>The texts in a chunk of data are not the end of the connection, and its packets are short.\<close>

definition decent :: "rtc3d_connection_t \<Rightarrow> u8 list \<Rightarrow> bool" where
  "decent rc bs \<longleftrightarrow> polite (reader_of rc) bs \<and> (\<forall>t \<in> set (texts (reader_of rc) bs). not_bye t)"

lemma read_handler_kept:
  assumes inv: "server_inv w" and c: "net_conns w c = Some conn" "rtc3d_conns w (conn_local conn) = Some rc"
    and d: "decent rc bs"
  shows "kept (read_handler command_handler c bs w)"
    and "served_by command_handler (conn_local conn) (texts (reader_of rc) bs) w (read_handler command_handler c bs w)"
    and "read_handler command_handler c bs w = Inr w' \<Longrightarrow>
      \<exists>rc'. rtc3d_conns w' (conn_local conn) = Some rc' \<and> reader_of rc' = reader_after (reader_of rc) bs"
proof -
  let ?l = "conn_local conn"
  have sv: "serving (net_conns w) ?l w" using server_inv_serving [OF inv] c(2) by simp
  from inv have "readers_ok {} w" by (simp add: server_inv_def server_inv_but_def)
  with c(2) obtain r where r: "reads r rc" unfolding readers_ok_def by blast
  have rd: "reader_of rc = r" using r by (rule reader_of_reads)
  from inv have "map_ok w" by (simp add: server_inv_def server_inv_but_def)
  from map_of_live(2) [OF this c(1)] have run: "read_handler command_handler c bs w = run_steps (map (read_byte command_handler ?l) bs) w"
    using c(1) by (simp add: read_handler_def net_get_local_data_def deref_conn_def)
  have served: "cc.served_well (net_conns w) ?l (texts r bs) (reader_after r bs) w (run_steps (map (read_byte command_handler ?l) bs) w)"
    by (rule cc.stream_served [OF sv c(2) r]) (use d rd in \<open>simp_all add: decent_def\<close>)
  then show sb: "served_by command_handler ?l (texts (reader_of rc) bs) w (read_handler command_handler c bs w)"
    unfolding run rd by (simp add: cc.served_well_def)
  show "\<exists>rc'. rtc3d_conns w' ?l = Some rc' \<and> reader_of rc' = reader_after (reader_of rc) bs"
    if "read_handler command_handler c bs w = Inr w'"
    using served that unfolding run rd by (auto simp: cc.served_well_def reader_of_reads)
  with sb sv d have "settled (net_conns w) ?l (read_handler command_handler c bs w)"
    by (auto simp: decent_def intro: served_settled)
  with served show "kept (read_handler command_handler c bs w)"
    unfolding run by (cases "run_steps (map (read_byte command_handler ?l) bs) w")
      (auto simp: cc.served_well_def intro: serving_server_inv)
qed

end
