(* ===== verification/Server_Props.thy ===== *)
theory Server_Props
  imports Server_Inv
begin

text \<open>
  The server as a reactive system: the events of its event loop, what libevent, the operating system
  and the clients must do for them to be handled, and the properties of its runs.
\<close>

section \<open>Events\<close>

datatype server_event =
    Ev_accept
  | Ev_read int
  | Ev_client int bool
  | Ev_timeout
  | Ev_bus
  | Ev_watchdog

definition in_sled :: "sled_env action \<Rightarrow> 'z server_env_scheme action" where
  "in_sled f w = bind_outcome (f (sled w)) (\<lambda>s. Inr (w\<lparr>sled := s\<rparr>))"

fun handle_server_event :: "server_event \<Rightarrow> 'z server_env_scheme action" where
  "handle_server_event Ev_accept = net_on_new_connection (connect_handler no_connect)"
| "handle_server_event (Ev_read sk) = net_on_read (disconnect_handler disconnected) (read_handler command_handler) sk"
| "handle_server_event (Ev_client sk failed) = net_on_client_event (disconnect_handler disconnected) sk failed"
| "handle_server_event Ev_timeout = on_timeout"
| "handle_server_event Ev_bus = in_sled intf_on_read"
| "handle_server_event Ev_watchdog = in_sled nmt_watchdog"

text \<open>The object of the RTC3D layer that serves a descriptor.\<close>

definition client_of :: "int \<Rightarrow> 'z server_env_scheme \<Rightarrow> rtc3d_connection_t option" where
  "client_of sk w =
     Option.bind (map_of (connection_data w) sk) (\<lambda>c.
       Option.bind (net_conns w c) (\<lambda>conn. rtc3d_conns w (conn_local conn)))"

text \<open>
  What is required of the surroundings. Connections are accepted under descriptors that are not in use, and
  get their write buffer; a descriptor is reported by libevent only while its read event is
  registered; \<^verbatim>\<open>read\<close> returns no more than it was asked for; and a client sends short packets, and
  does not send the command \<^verbatim>\<open>bye\<close>.
\<close>

fun admissible :: "server_event \<Rightarrow> 'z server_env_scheme \<Rightarrow> bool" where
  "admissible Ev_accept w =
     (next_fd w \<notin> fst ` set (connection_data w) \<and> (event_granted w \<longrightarrow> buffer_granted w))"
| "admissible (Ev_read sk) w =
     (sk \<in> set (read_events w)
      \<and> (case os_read (tcp_os w) (os_calls w) of
           None \<Rightarrow> True
         | Some bs \<Rightarrow> length bs \<le> BUFFER_SIZE
             \<and> (case client_of sk w of None \<Rightarrow> True | Some rc \<Rightarrow> decent rc bs)))"
| "admissible (Ev_client sk failed) w = (sk \<in> set (read_events w))"
| "admissible _ w = True"

lemma client_of_fd:
  assumes "server_inv w" and "sk \<in> set (read_events w)"
  obtains c conn rc where "net_conns w c = Some conn" "conn_fd conn = sk"
    "rtc3d_conns w (conn_local conn) = Some rc" "client_of sk w = Some rc"
proof -
  from assms have "sk \<in> fst ` set (connection_data w)" "null_fds w = {}" and m: "map_ok w"
    and p: "pairing (net_conns w) (rtc3d_owner w)"
    by (simp_all add: server_inv_def server_inv_but_def)
  then obtain c where c: "(sk, c) \<in> set (connection_data w)" and null: "(sk, 0) \<notin> set (connection_data w)"
    by (auto simp: null_fds_def)
  then have "c \<noteq> 0" by (cases "c = 0") simp_all
  with m c obtain conn where conn: "net_conns w c = Some conn" "conn_fd conn = sk"
    by (auto simp: map_ok_def live_at_def)
  with p have "rtc3d_owner w (conn_local conn) = Some c" by (simp add: pairing_def)
  then obtain rc where "rtc3d_conns w (conn_local conn) = Some rc" by (auto simp: rtc3d_owner_def)
  with that [OF conn] map_of_live(1) [OF m conn(1)] conn show thesis by (simp add: client_of_def)
qed

section \<open>Every event keeps the invariant\<close>

lemma kept_tcp:
  assumes "sv.srv.tcp_inv w'" and "set (read_events w') = fst ` set (connection_data w')" and "null_fds w' = {}"
  shows "kept (Inr w')"
  using assms by (simp add: server_inv_iff)

lemma keys_erase:
  assumes "server_inv w" and "net_conns w c = Some conn"
    and "connection_data w' = map_erase (conn_fd conn) (connection_data w)"
    and "read_events w' = remove1 (conn_fd conn) (read_events w)"
  shows "set (read_events w') = fst ` set (connection_data w')" and "null_fds w' = {}"
proof -
  have "distinct (read_events w)" "set (read_events w) = fst ` set (connection_data w)" "null_fds w = {}"
    using assms(1) by (simp_all add: server_inv_def server_inv_but_def map_ok_def)
  with assms(3,4) show "set (read_events w') = fst ` set (connection_data w')" "null_fds w' = {}"
    by (auto simp: null_fds_def image_iff)
qed

lemma disconnect_kept:
  assumes inv: "server_inv w" and c: "net_conns w c = Some conn"
  shows "kept (net_disconnect (disconnect_handler disconnected) c w)"
proof -
  have "sv.srv.tcp_inv w" using inv by (simp add: server_inv_iff)
  from sv.srv.net_disconnect_ok [OF this c] obtain w' where
    w': "net_disconnect (disconnect_handler disconnected) c w = Inr w'" "sv.srv.tcp_inv w'"
    "connection_data w' = map_erase (conn_fd conn) (connection_data w)"
    "read_events w' = remove1 (conn_fd conn) (read_events w)" by blast
  from kept_tcp [OF w'(2) keys_erase [OF inv c w'(3,4)]] w'(1) show ?thesis by simp
qed

lemma server_inv_os_calls: "server_inv w \<Longrightarrow> server_inv (w\<lparr>os_calls := n\<rparr>)"
  by (simp add: server_inv_iff null_fds_def)

lemma read_kept:
  assumes inv: "server_inv w" and a: "admissible (Ev_read sk) w"
  shows "kept (handle_server_event (Ev_read sk) w)"
proof -
  from inv a obtain c conn rc where c: "net_conns w c = Some conn" "conn_fd conn = sk"
    "rtc3d_conns w (conn_local conn) = Some rc" "client_of sk w = Some rc" by (auto elim: client_of_fd)
  have tcp: "sv.srv.tcp_inv w" using inv by (simp add: server_inv_iff)
  let ?w = "w\<lparr>os_calls := Suc (os_calls w)\<rparr>"
  have inv': "server_inv ?w" by (rule server_inv_os_calls [OF inv])
  then have m: "map_ok ?w" by (simp add: server_inv_def server_inv_but_def)
  show ?thesis
  proof (cases "os_read (tcp_os w) (os_calls w) \<in> {None, Some []}")
    case True
    then have "handle_server_event (Ev_read sk) w = net_disconnect (disconnect_handler disconnected) c ?w"
      using connection_at_live [OF m, of c conn] c(1,2)
      by (auto simp: net_on_read_def os_call_def Let_def)
    with disconnect_kept [OF inv', of c conn] c(1) show ?thesis by simp
  next
    case False
    then obtain bs where bs: "os_read (tcp_os w) (os_calls w) = Some bs" "bs \<noteq> []" by auto
    with a c(4) have d: "length bs \<le> BUFFER_SIZE" "decent rc bs" by simp_all
    from sv.srv.data_delivered [OF tcp c(1) bs d(1)] c(2)
    have "handle_server_event (Ev_read sk) w = read_handler command_handler c bs ?w" by simp
    with read_handler_kept(1) [OF inv', of c conn rc bs] c(1,3) d(2) show ?thesis by simp
  qed
qed

lemma client_kept:
  assumes inv: "server_inv w" and a: "admissible (Ev_client sk failed) w"
  shows "kept (handle_server_event (Ev_client sk failed) w)"
proof -
  from inv a obtain c conn where c: "net_conns w c = Some conn" "conn_fd conn = sk"
    by (auto elim: client_of_fd)
  have "map_ok w" using inv by (simp add: server_inv_def server_inv_but_def)
  from connection_at_live [OF this c(1)] disconnect_kept [OF inv c(1)] inv c(2)
  show ?thesis by (simp add: net_on_client_event_def)
qed

lemma accept_kept:
  assumes inv: "server_inv w" and a: "admissible Ev_accept w"
  shows "kept (handle_server_event Ev_accept w)"
proof -
  have tcp: "sv.srv.tcp_inv w" and k: "set (read_events w) = fst ` set (connection_data w)" "null_fds w = {}"
    using inv by (simp_all add: server_inv_iff)
  from a k have f: "next_fd w \<notin> fst ` set (connection_data w)" "next_fd w \<notin> set (read_events w)" by simp_all
  show ?thesis
  proof (cases "event_granted w")
    case False
    from sv.srv.refused_ok [OF tcp this] k show ?thesis by (auto simp: server_inv_iff null_fds_def)
  next
    case True
    with a have "buffer_granted w" by simp
    from sv.srv.accepted_ok [OF tcp f True this] obtain w' where
      w': "net_on_new_connection (connect_handler no_connect) w = Inr w'" "sv.srv.tcp_inv w'"
      "connection_data w' = map_put (next_fd w) (next_conn w) (connection_data w)"
      "read_events w' = next_fd w # read_events w" by blast
    have "next_conn w \<noteq> 0" using inv by (simp add: server_inv_def server_inv_but_def map_ok_def)
    with w' k f show ?thesis by (auto simp: server_inv_iff null_fds_def image_iff)
  qed
qed

text \<open>Timer events.\<close>

lemma server_inv_fields:
  assumes "server_inv w"
  shows "server_inv (w\<lparr>written := x1\<rparr>)" "server_inv (w\<lparr>frame := x2\<rparr>)" "server_inv (w\<lparr>stats := x3\<rparr>)"
    "sys_inv s \<Longrightarrow> server_inv (w\<lparr>sled := s\<rparr>)"
proof -
  have inv: "server_inv_but {} w" and ok: "server_rest w"
    using assms by (simp_all add: server_inv_def server_inv_but_def)
  show "server_inv (w\<lparr>written := x1\<rparr>)" "server_inv (w\<lparr>frame := x2\<rparr>)" "server_inv (w\<lparr>stats := x3\<rparr>)"
    "sys_inv s \<Longrightarrow> server_inv (w\<lparr>sled := s\<rparr>)"
    unfolding server_inv_def
    by (rule server_inv_cong [OF inv]; use ok in \<open>simp add: same_net_def same_rtc3d_def server_rest_def\<close>)+
qed

lemma server_inv_sys: "server_inv w \<Longrightarrow> sys_inv (sled w)"
  by (simp add: server_inv_def server_inv_but_def server_rest_def)

lemma in_sled_kept:
  assumes "server_inv w" and "safe_on sled_stops sys_inv f"
  shows "kept (in_sled f w)"
proof -
  from assms(2) server_inv_sys [OF assms(1)] show ?thesis
    by (cases rule: safe_onE) (auto simp: in_sled_def server_inv_fields [OF assms(1)])
qed

lemma stream_frames_run:
  assumes "server_inv w" and "\<forall>l \<in> set ls. rtc3d_conns w l \<noteq> None"
    and "to_uint64 (d_mul tm (Fin 1000000)) = Inr us"
  shows "run_steps (map (stream_frame t tm) ls) w = Inr (w\<lparr>written := written w
    @ map (\<lambda>l. (fd_of l w, rtc3d_data_packet (word_of_int (frame w)) us
        (bits_of_float (to_float (d_mul (fmod10 t) (Fin 1000)))))) ls\<rparr>)"
  using assms(1,2)
proof (induction ls arbitrary: w)
  case (Cons l ls)
  let ?p = "rtc3d_data_packet (word_of_int (frame w)) us (bits_of_float (to_float (d_mul (fmod10 t) (Fin 1000))))"
  let ?w = "w\<lparr>written := written w @ [(fd_of l w, ?p)]\<rparr>"
  have "serving (net_conns w) l w" using Cons.prems by (simp add: server_inv_serving)
  from send_packet_serving(2) [OF this] assms(3) have "stream_frame t tm l w = Inr ?w"
    by (simp add: stream_frame_def)
  moreover have "server_inv ?w" by (rule server_inv_fields [OF Cons.prems(1)])
  moreover have "fd_of l' ?w = fd_of l' w" for l' by (simp add: fd_of_def split: option.split)
  ultimately show ?case using Cons.IH [of ?w] Cons.prems(2) by simp
qed simp

lemma to_uint64_fails: "to_uint64 x = Inl e \<Longrightarrow> e = Undefined_behaviour Unrepresentable"
  by (cases x) (auto split: if_splits)

lemma timeout_cases:
  assumes inv: "server_inv w"
  shows "(\<exists>e \<in> sled_stops. on_timeout w = Inl e)
    \<or> (\<exists>w' us. on_timeout w = Inr w' \<and> server_inv w' \<and> frame w' = frame w + 1 \<and> stream_clients w' = stream_clients w
        \<and> rtc3d_conns w' = rtc3d_conns w \<and> net_conns w' = net_conns w \<and> connection_data w' = connection_data w
        \<and> written w' = written w @ map (\<lambda>l. (fd_of l w, rtc3d_data_packet (word_of_int (frame w)) us
            (bits_of_float (to_float (d_mul (fmod10 (fst (get_time (sled w)))) (Fin 1000)))))) (stream_clients w))"
proof -
  let ?t = "fst (get_time (sled w))"
  define w1 where "w1 = w\<lparr>sled := snd (get_time (sled w)), stats := update_timeout_stats ?t (stats w)\<rparr>"
  have inv1: "server_inv w1"
    unfolding w1_def by (intro server_inv_fields(3,4) inv) (simp add: server_inv_sys [OF inv])
  have run: "on_timeout w = bind_outcome (at_sled sled_rt_get_position_and_time w1) (\<lambda>((r, pos, tm), w).
        run_steps (map (stream_frame ?t tm) (stream_clients w) @ [next_frame]) w)"
    by (simp add: on_timeout_def at_table_def w1_def split_beta Let_def)
  from safe_calls(8) server_inv_sys [OF inv1] show ?thesis
  proof (cases rule: safe_onE)
    case (1 e)
    then have "at_sled sled_rt_get_position_and_time w1 = Inl e"
      by (cases "sled_rt_get_position_and_time (sled w1)") (auto simp: at_sled_def dropping_def)
    with 1(2) run show ?thesis by simp
  next
    case (2 s)
    then obtain r pos tm where "sled_rt_get_position_and_time (sled w1) = Inr ((r, pos, tm), s)"
      by (cases "sled_rt_get_position_and_time (sled w1)") (auto simp: dropping_def)
    then have a: "at_sled sled_rt_get_position_and_time w1 = Inr ((r, pos, tm), w1\<lparr>sled := s\<rparr>)"
      by (simp add: at_sled_def)
    let ?w = "w1\<lparr>sled := s\<rparr>"
    have inv2: "server_inv ?w" using 2(2) by (rule server_inv_fields(4) [OF inv1])
    have live: "\<forall>l \<in> set (stream_clients ?w). rtc3d_conns ?w l \<noteq> None"
      using inv2 by (simp add: server_inv_def server_inv_but_def server_rest_def)
    have w2: "stream_clients ?w = stream_clients w" "written ?w = written w" "frame ?w = frame w" "fd_of l ?w = fd_of l w"
      "rtc3d_conns ?w = rtc3d_conns w" "net_conns ?w = net_conns w" "connection_data ?w = connection_data w" for l
      by (simp_all add: w1_def fd_of_def split: option.split)
    show ?thesis
    proof (cases "to_uint64 (d_mul tm (Fin 1000000))")
      case (Inl e)
      then have "run_steps (map (stream_frame ?t tm) ls) ?w = (if ls = [] then Inr ?w else Inl e)" for ls
        by (cases ls) (simp_all add: stream_frame_def)
      with to_uint64_fails [OF Inl] run a w2 server_inv_fields(2) [OF inv2] show ?thesis
        by (auto simp: run_steps_append next_frame_def sled_stops_def)
    next
      case (Inr us)
      from stream_frames_run [OF inv2 live Inr] run a w2 show ?thesis
        by (auto simp: run_steps_append next_frame_def sled_stops_def intro!: server_inv_fields(1,2) inv2)
    qed
  qed
qed

lemma timeout_kept: "server_inv w \<Longrightarrow> kept (on_timeout w)"
  using timeout_cases [of w] by auto

lemma event_kept:
  assumes "server_inv w" and "admissible ev w"
  shows "kept (handle_server_event ev w)"
proof (cases ev)
  case Ev_accept
  with assms accept_kept show ?thesis by blast
next
  case (Ev_read sk)
  with assms read_kept show ?thesis by blast
next
  case (Ev_client sk failed)
  with assms client_kept show ?thesis by blast
next
  case Ev_timeout
  with assms(1) timeout_kept show ?thesis by simp
next
  case Ev_bus
  with in_sled_kept [OF assms(1), of intf_on_read] safe_sled_op [of Bus_readable] show ?thesis
    by (simp add: sled_op_ok_def)
next
  case Ev_watchdog
  with in_sled_kept [OF assms(1), of nmt_watchdog] safe_sled_op [of Watchdog_timeout] show ?thesis
    by (simp add: sled_op_ok_def)
qed

section \<open>Runs\<close>

text \<open>\<open>server_run w evs res\<close>: the events \<open>evs\<close>, all of them admissible, lead from \<open>w\<close> to the outcome \<open>res\<close>.\<close>

inductive server_run :: "'z server_env_scheme \<Rightarrow> server_event list \<Rightarrow> 'z server_env_scheme outcome \<Rightarrow> bool" where
  run_end: "server_run w [] (Inr w)"
| run_stop: "admissible ev w \<Longrightarrow> handle_server_event ev w = Inl e \<Longrightarrow> server_run w [ev] (Inl e)"
| run_event: "admissible ev w \<Longrightarrow> handle_server_event ev w = Inr w' \<Longrightarrow> server_run w' evs res \<Longrightarrow>
    server_run w (ev # evs) res"

lemma run_kept: "server_run w evs res \<Longrightarrow> server_inv w \<Longrightarrow> kept res"
proof (induction rule: server_run.induct)
  case (run_stop ev w e)
  with event_kept [of w ev] show ?case by simp
next
  case (run_event ev w w' evs res)
  with event_kept [of w ev] show ?case by simp
qed simp

text \<open>A process that has just started: no connection, and memory to be had.\<close>

definition fresh_process :: "'z server_env_scheme \<Rightarrow> bool" where
  "fresh_process w \<longleftrightarrow> length (profiles (sled w)) = MAX_PROFILES \<and> net_conns w = (\<lambda>_. None) \<and> 0 < next_conn w
     \<and> read_events w = [] \<and> rtc3d_conns w = (\<lambda>_. None) \<and> 0 < next_rtc3d w
     \<and> (\<forall>n. os_malloc (tcp_os w) n)"

lemma net_setup_fields:
  assumes "net_setup_server w = Inr (True, w')"
  shows "connection_data w' = []" "net_conns w' = net_conns w" "next_conn w' = next_conn w"
    "read_events w' = read_events w" "tcp_os w' = tcp_os w" "tcp_env.more w' = tcp_env.more w"
    "written w' = written w"
  using assms
  by (auto simp: net_setup_server_def setup_server_socket_def os_call_def close_fd_def Let_def split: if_splits)

lemma server_more:
  assumes "tcp_env.more w' = tcp_env.more w"
  shows "rtc3d_conns w' = rtc3d_conns w" "next_rtc3d w' = next_rtc3d w"
    "rtc3d_connect_handler w' = rtc3d_connect_handler w" "sled w' = sled w"
    "stream_clients w' = stream_clients w" "profile_tlate w' = profile_tlate w" "frame w' = frame w"
  using assms by (cases w; cases w'; simp)+

lemma setup_inv:
  assumes w: "fresh_process w" and s: "setup_sled_server_context w = Inr (True, w1)"
  shows "server_inv w1" and "stream_clients w1 = []" "connection_data w1 = []" "frame w1 = frame w" "written w1 = written w"
proof -
  have "length (profiles (sled w)) = MAX_PROFILES" using w by (simp add: fresh_process_def)
  from sled_create_inv [OF this] obtain s2 where s2: "sled_create (sled w) = Inr s2" "sys_inv s2" by blast
  define w2 where "w2 = w\<lparr>stream_clients := [], profile_tlate := (\<lambda>_. None), os_calls := Suc (os_calls w), sled := s2\<rparr>"
  from s s2(1) obtain w3 where w3: "rtc3d_setup_server w2 = Inr (True, w3)"
    and w1: "w1 = rtc3d_set_command_handler (rtc3d_set_disconnect_handler w3)"
    by (auto simp: setup_sled_server_context_def os_call_def at_sled_def Let_def w2_def bind_outcome_eq_Inr
        split: if_splits)
  from w3 obtain w4 where w4: "net_setup_server (w2\<lparr>rtc3d_connect_handler := False, rtc3d_disconnect_handler := False,
      rtc3d_error_handler := False, rtc3d_command_handler := False, rtc3d_data_handler := False\<rparr>) = Inr (True, w4)"
    and w3': "w3 = net_set_read_handler (net_set_disconnect_handler (net_set_connect_handler w4))"
    by (auto simp: rtc3d_setup_server_def Let_def bind_outcome_eq_Inr split: if_splits)
  note w4' = net_setup_fields [OF w4] server_more [OF net_setup_fields(6) [OF w4]]
  note handlers = net_set_read_handler_def net_set_disconnect_handler_def net_set_connect_handler_def
    rtc3d_set_command_handler_def rtc3d_set_disconnect_handler_def
  show "stream_clients w1 = []" "connection_data w1 = []" "frame w1 = frame w" "written w1 = written w"
    using w4' by (simp_all add: w1 w3' w2_def handlers)
  from w4' show "server_inv w1" using w s2(2) unfolding server_inv_def server_inv_but_def w1 w3'
    by (simp add: w2_def fresh_process_def map_ok_def pairing_def rtc3d_owner_def [abs_def] addresses_ok_def
        server_rest_def readers_ok_def tlate_ok_def null_fds_def handlers)
qed

lemma entry_live:
  assumes "server_inv w" and "(sk, c) \<in> set (connection_data w)"
  obtains conn rc where "net_conns w c = Some conn" "conn_fd conn = sk"
    "rtc3d_conns w (conn_local conn) = Some rc" "net_conn rc = c"
proof -
  from assms(1) have m: "map_ok w" and n: "null_fds w = {}" and p: "pairing (net_conns w) (rtc3d_owner w)"
    by (simp_all add: server_inv_def server_inv_but_def)
  have "c \<noteq> 0" using n assms(2) by (cases "c = 0") (auto simp: null_fds_def)
  with m assms(2) obtain conn where conn: "net_conns w c = Some conn" "conn_fd conn = sk"
    by (auto simp: map_ok_def live_at_def)
  with p have "rtc3d_owner w (conn_local conn) = Some c" by (simp add: pairing_def)
  with that [OF conn] show thesis by (auto simp: rtc3d_owner_def)
qed

lemma moving_operational:
  "sys_inv s \<Longrightarrow> mp_state_of s \<noteq> ST_MP_DISABLED \<Longrightarrow> net_state_of s = ST_NET_OPERATIONAL"
  by (auto simp: sys_inv_def intf_inv_def net_inv_def net_ds_tied_def ds_inv_def ds_mp_tied_def)

text \<open>
  Runs of arbitrary events. Two kinds of events are not admissible: those that the operating system and
  libevent never report, and those that they or a client may cause and that the server cannot handle.
\<close>

fun misreported :: "server_event \<Rightarrow> 'z server_env_scheme \<Rightarrow> bool" where
  "misreported Ev_accept w = (next_fd w \<in> fst ` set (connection_data w))"
| "misreported (Ev_read sk) w =
     (sk \<notin> set (read_events w)
      \<or> (\<exists>bs. os_read (tcp_os w) (os_calls w) = Some bs \<and> BUFFER_SIZE < length bs))"
| "misreported (Ev_client sk failed) w = (sk \<notin> set (read_events w))"
| "misreported _ w = False"

fun harmful :: "server_event \<Rightarrow> 'z server_env_scheme \<Rightarrow> bool" where
  "harmful Ev_accept w = (event_granted w \<and> \<not> buffer_granted w)"
| "harmful (Ev_read sk) w =
     (\<exists>bs rc. os_read (tcp_os w) (os_calls w) = Some bs \<and> client_of sk w = Some rc
      \<and> (\<not> polite (reader_of rc) bs \<or> (\<exists>t \<in> set (texts (reader_of rc) bs). \<not> not_bye t)))"
| "harmful _ w = False"

lemma admissible_iff: "admissible ev w \<longleftrightarrow> \<not> misreported ev w \<and> \<not> harmful ev w"
  by (cases ev) (auto simp: decent_def not_less split: option.split)

lemma events_kept:
  assumes "server_inv w"
  shows "kept (run_steps (map handle_server_event evs) w)
    \<or> (\<exists>evs1 ev evs2 w'. evs = evs1 @ ev # evs2 \<and> run_steps (map handle_server_event evs1) w = Inr w'
        \<and> server_inv w' \<and> \<not> admissible ev w')"
  using assms
proof (induction evs arbitrary: w)
  case (Cons ev evs)
  show ?case
  proof (cases "admissible ev w")
    case False
    with Cons.prems show ?thesis by (intro disjI2 exI [of _ "[]"]) auto
  next
    case True
    show ?thesis
    proof (cases "handle_server_event ev w")
      case (Inl e)
      with event_kept [OF Cons.prems True] show ?thesis by simp
    next
      case (Inr w1)
      with event_kept [OF Cons.prems True] have "server_inv w1" by simp
      from Cons.IH [OF this] show ?thesis
      proof (elim disjE exE conjE)
        fix evs1 ev' evs2 w'
        assume "evs = evs1 @ ev' # evs2" "run_steps (map handle_server_event evs1) w1 = Inr w'"
          "server_inv w'" "\<not> admissible ev' w'"
        with Inr show ?thesis by (intro disjI2 exI [of _ "ev # evs1"]) auto
      qed (simp add: Inr)
    qed
  qed
qed simp

text \<open>What a state without dangling pointers is, and that no plant moves without its network.\<close>

definition sound :: "'z server_env_scheme \<Rightarrow> bool" where
  "sound w \<longleftrightarrow>
     (\<forall>(sk, c) \<in> set (connection_data w). \<exists>conn rc. net_conns w c = Some conn \<and> conn_fd conn = sk
        \<and> rtc3d_conns w (conn_local conn) = Some rc \<and> net_conn rc = c)
     \<and> (\<forall>l \<in> set (stream_clients w). rtc3d_conns w l \<noteq> None)
     \<and> (mp_state_of (sled w) \<noteq> ST_MP_DISABLED \<longrightarrow> net_state_of (sled w) = ST_NET_OPERATIONAL)"

lemma server_inv_sound:
  assumes "server_inv w"
  shows "sound w"
proof -
  have "\<exists>conn rc. net_conns w c = Some conn \<and> conn_fd conn = sk
      \<and> rtc3d_conns w (conn_local conn) = Some rc \<and> net_conn rc = c"
    if "(sk, c) \<in> set (connection_data w)" for sk c using entry_live [OF assms that] by blast
  moreover have "\<forall>l \<in> set (stream_clients w). rtc3d_conns w l \<noteq> None"
    using assms by (simp add: server_inv_def server_inv_but_def server_rest_def)
  ultimately show ?thesis
    using moving_operational [OF server_inv_sys [OF assms]] by (auto simp: sound_def)
qed


text \<open>
  A process that has just started, with the operating system granting everything, and the server
  with one client, on descriptor 5.
\<close>

definition sample_tcp_os :: tcp_os where
  "sample_tcp_os = \<lparr>os_socket = \<lambda>_. 3, os_bind = \<lambda>_. 0, os_listen = \<lambda>_. 0, os_accept = \<lambda>_. 5,
     os_read = \<lambda>_. None, os_event_new = \<lambda>_. True, os_event_add = \<lambda>_. 0,
     os_bufferevent_new = \<lambda>_. True, os_malloc = \<lambda>_. True\<rparr>"

definition sample_sled :: sled_env where
  "sample_sled = malloc_env (sample_driver sample_message) (\<lambda>n. (int n, 0))"

definition started_process :: server_env where
  "started_process =
     \<lparr>tcp_os = sample_tcp_os, os_calls = 0, net_conns = Map.empty, next_conn = 1, connection_data = [],
      read_events = [], net_connect_handler = False, net_disconnect_handler = False, net_read_handler = False,
      sock = - 1, written = [], closed_fds = [], rtc3d_conns = Map.empty, next_rtc3d = 1,
      rtc3d_connect_handler = False, rtc3d_disconnect_handler = False, rtc3d_error_handler = False,
      rtc3d_command_handler = False, rtc3d_data_handler = False, sled = sample_sled, stream_clients = [],
      profile_tlate = Map.empty, frame = 0, stats = fresh_stats\<rparr>"

lemma started_process_fresh: "fresh_process started_process"
  by (simp add: fresh_process_def started_process_def sample_tcp_os_def sample_sled_def malloc_env_profiles)

text \<open>The same, with \<^verbatim>\<open>read\<close> returning something.\<close>

definition process_reading :: "(nat \<Rightarrow> u8 list option) \<Rightarrow> server_env" where
  "process_reading f = started_process\<lparr>tcp_os := sample_tcp_os\<lparr>os_read := f\<rparr>\<rparr>"

lemma process_reading_fresh: "fresh_process (process_reading f)"
  using started_process_fresh by (simp add: process_reading_def fresh_process_def sample_tcp_os_def)

lemma process_reading_setup:
  "\<exists>w1. setup_sled_server_context (process_reading f) = Inr (True, w1) \<and> net_conns w1 = Map.empty \<and> connection_data w1 = []
    \<and> tcp_os w1 = sample_tcp_os\<lparr>os_read := f\<rparr>"
proof -
  from sled_create_inv [OF malloc_env_profiles] obtain s where "sled_create sample_sled = Inr s"
    unfolding sample_sled_def by blast
  then show ?thesis
    by (simp add: setup_sled_server_context_def process_reading_def started_process_def sample_tcp_os_def os_call_def at_sled_def Let_def
        rtc3d_setup_server_def net_setup_server_def setup_server_socket_def close_fd_def net_set_read_handler_def
        net_set_disconnect_handler_def net_set_connect_handler_def rtc3d_set_command_handler_def
        rtc3d_set_disconnect_handler_def)
qed

lemma started_process_setup:
  "\<exists>w1. setup_sled_server_context started_process = Inr (True, w1) \<and> net_conns w1 = Map.empty \<and> connection_data w1 = []
    \<and> tcp_os w1 = sample_tcp_os"
proof -
  have "process_reading (os_read sample_tcp_os) = started_process" by (simp add: process_reading_def started_process_def)
  with process_reading_setup [of "os_read sample_tcp_os"] show ?thesis by simp
qed

lemma started_accept:
  assumes "connection_data w1 = []" "tcp_os w1 = sample_tcp_os"
  shows "\<not> misreported Ev_accept w1" "\<not> harmful Ev_accept w1"
  using assms by (simp_all add: next_fd_def event_granted_def buffer_granted_def sample_tcp_os_def)


end
