(* ===== verification/Server_Replies.thy ===== *)
theory Server_Replies
  imports Server_Props
begin

text \<open>
  What a client sees: its packets reach the command handler however the network cuts the stream, and
  every command is answered once.
\<close>

section \<open>From fragments to commands\<close>

lemma texts_append: "texts r (xs @ ys) = texts r xs @ texts (reader_after r xs) ys"
proof (induction xs arbitrary: r)
  case (Cons x xs)
  then show ?case using texts_Cons [of r x "xs @ ys"] texts_Cons [of r x xs] by simp
qed (simp add: texts_def map_filter_simps)

lemma polite_append: "polite r (xs @ ys) \<longleftrightarrow> polite r xs \<and> polite (reader_after r xs) ys"
  by (induction xs arbitrary: r) simp_all

lemma reader_after_append: "reader_after r (xs @ ys) = reader_after (reader_after r xs) ys"
  by (induction xs arbitrary: r) simp_all

lemma serving_handler:
  assumes "serving N l w" and "N c = Some conn" and "conn_local conn = l"
  shows "read_handler command_handler c bs w = run_steps (map (read_byte command_handler l) bs) w"
proof -
  have "map_ok w" and n: "net_conns w = N" using assms(1) by (simp_all add: serving_def server_inv_but_def)
  from map_of_live(2) [OF this(1), of c conn] assms(2,3) n show ?thesis
    by (simp add: read_handler_def net_get_local_data_def deref_conn_def)
qed

lemma reading_connection:
  assumes "server_inv w" and "rtc3d_conns w l = Some rc"
  obtains r where "serving (net_conns w) l w" "reads r rc" "reader_of rc = r"
proof -
  from assms(1) have "readers_ok {} w" by (simp add: server_inv_def server_inv_but_def)
  with assms(2) obtain r where "reads r rc" unfolding readers_ok_def by blast
  with that server_inv_serving [OF assms(1), of l] assms(2) reader_of_reads show thesis by simp
qed

lemma chunks_run:
  assumes "serving N l w" and "N c = Some conn" "conn_local conn = l"
    and "rtc3d_conns w l = Some rc" and "reads r rc"
    and "polite r (concat chunks)" and "\<forall>t \<in> set (texts r (concat chunks)). not_bye t"
  shows "run_steps (map (read_handler command_handler c) chunks) w
    = run_steps (map (read_byte command_handler l) (concat chunks)) w"
  using assms
proof (induction chunks arbitrary: w rc r)
  case (Cons bs chunks)
  let ?run = "run_steps (map (read_byte command_handler l) bs) w"
  have p: "polite r bs" "polite (reader_after r bs) (concat chunks)"
    and t: "\<forall>t \<in> set (texts r bs). not_bye t" "\<forall>t \<in> set (texts (reader_after r bs) (concat chunks)). not_bye t"
    using Cons.prems(6,7) by (auto simp: polite_append texts_append)
  have h: "read_handler command_handler c bs w = ?run" by (rule serving_handler [OF Cons.prems(1-3)])
  have sv: "cc.served_well N l (texts r bs) (reader_after r bs) w ?run"
    by (rule cc.stream_served [OF Cons.prems(1,4,5) p(1)]) (use t(1) in simp)
  show ?case
  proof (cases ?run)
    case (Inl e)
    with h show ?thesis by (simp add: run_steps_append)
  next
    case (Inr w1)
    with sv obtain rc1 where "serving N l w1" "rtc3d_conns w1 l = Some rc1" "reads (reader_after r bs) rc1"
      by (auto simp: cc.served_well_def)
    from Cons.IH [OF this(1) Cons.prems(2,3) this(2,3) p(2) t(2)] h Inr show ?thesis
      by (simp add: run_steps_append)
  qed
qed simp

lemma packets_served:
  assumes "server_inv w" and "net_conns w c = Some conn" and "rtc3d_conns w (conn_local conn) = Some rc"
    and "reader_of rc = Header []" and "\<forall>t \<in> set ts. short_text t \<and> not_bye t"
    and "concat chunks = concat (map packet_bytes ts)"
  shows "served_by command_handler (conn_local conn) ts w (run_steps (map (read_handler command_handler c) chunks) w)"
    and "kept (run_steps (map (read_handler command_handler c) chunks) w)"
proof -
  have ts: "texts (Header []) (concat (map packet_bytes ts)) = ts" "polite (Header []) (concat (map packet_bytes ts))"
    using texts_of_packets [of ts] assms(5) by simp_all
  with assms(4-6) have d: "decent rc (concat chunks)" by (simp add: decent_def)
  from assms(1,3) obtain r where sv: "serving (net_conns w) (conn_local conn) w" and r: "reads r rc" "reader_of rc = r"
    by (rule reading_connection)
  have "run_steps (map (read_handler command_handler c) chunks) w
    = run_steps (map (read_byte command_handler (conn_local conn)) (concat chunks)) w"
    by (rule chunks_run [OF sv assms(2) refl assms(3) r(1)]) (use d r(2) in \<open>simp_all add: decent_def\<close>)
  then have run: "run_steps (map (read_handler command_handler c) chunks) w = read_handler command_handler c (concat chunks) w"
    using serving_handler [OF sv assms(2) refl] by simp
  from read_handler_kept(2) [OF assms(1-3) d] assms(4,6) ts(1)
  show "served_by command_handler (conn_local conn) ts w (run_steps (map (read_handler command_handler c) chunks) w)"
    unfolding run by simp
  from read_handler_kept(1) [OF assms(1-3) d] show "kept (run_steps (map (read_handler command_handler c) chunks) w)"
    unfolding run .
qed

text \<open>
  C6: short commands arrive. A client of which no incomplete packet is pending sends the commands \<open>ts\<close>, each in a
  packet of its own; every text has at most 251 bytes and no zero byte, and is not a \<^verbatim>\<open>bye\<close>.
  Whatever the pieces in which the packets arrive, the command handler is called with exactly
  these texts, in this order, until it has seen all of them or stops the process, and nothing else
  happens between the calls but changes of the connection's reader. (Longer texts overflow the
  8-bit counter of the reader, a zero byte ends a text, and \<^verbatim>\<open>bye\<close> frees the connection under
  the reader.)
\<close>

theorem commands_delivered:
  assumes "server_inv w" and "net_conns w c = Some conn" and "rtc3d_conns w (conn_local conn) = Some rc"
    and "reader_of rc = Header []" and "\<forall>t \<in> set ts. short_text t \<and> not_bye t"
    and "concat chunks = concat (map packet_bytes ts)"
  shows "served_by command_handler (conn_local conn) ts w (run_steps (map (read_handler command_handler c) chunks) w)"
  by (rule packets_served(1) [OF assms])

section \<open>A server with a client\<close>

text \<open>
  The state after a client has connected on descriptor 5 and asked for the stream; in the library two
  profiles are in use, known to the client as 1 and 2.
\<close>

definition one_client :: "sled_env \<Rightarrow> server_env" where
  "one_client s = started_process
     \<lparr>net_conns := [2 \<mapsto> \<lparr>conn_fd = 5, conn_local = 3\<rparr>], next_conn := 3, connection_data := [(5, 2)],
      read_events := [5], net_connect_handler := True, net_disconnect_handler := True, net_read_handler := True,
      sock := 3, rtc3d_conns := [3 \<mapsto> new_rtc3d_connection 2], next_rtc3d := 4, rtc3d_disconnect_handler := True,
      rtc3d_command_handler := True, stream_clients := [3], profile_tlate := [1 \<mapsto> 0, 2 \<mapsto> 2], sled := s\<rparr>"

lemma one_client_inv:
  assumes "sys_inv s"
  shows "server_inv (one_client s)"
proof -
  have "\<exists>r. reads r (new_rtc3d_connection 2)" using reads_fresh by blast
  moreover have "pairing (net_conns (one_client s)) (rtc3d_owner (one_client s))"
    by (auto simp: pairing_def rtc3d_owner_def one_client_def started_process_def new_rtc3d_connection_def)
  moreover have "map_ok (one_client s)"
    by (simp add: map_ok_def live_at_def one_client_def started_process_def)
  moreover have "addresses_ok (one_client s)" by (simp add: addresses_ok_def one_client_def started_process_def)
  ultimately show ?thesis using assms
    by (simp add: server_inv_def server_inv_but_def server_rest_def readers_ok_def tlate_ok_def null_fds_def
        MAX_PROFILES_def one_client_def started_process_def sample_tcp_os_def)
qed

definition sample_client :: server_env where
  "sample_client = one_client (sample_sled_env ST_NET_PREOPERATIONAL (\<lambda>_. (7, 0)))"

lemma sample_client_inv: "server_inv sample_client"
  unfolding sample_client_def by (rule one_client_inv) (rule sample_sled_inv; simp)

lemma sample_client_fields:
  "net_conns sample_client 2 = Some \<lparr>conn_fd = 5, conn_local = 3\<rparr>"
  "rtc3d_conns sample_client 3 = Some (new_rtc3d_connection 2)" "fd_of 3 sample_client = 5" "written sample_client = []"
  "stream_clients sample_client = [3]" "frame sample_client = 0" "connection_data sample_client = [(5, 2)]"
  "read_events sample_client = [5]" "sock sample_client = 3" "closed_fds sample_client = []" "os_calls sample_client = 0"
  "tcp_os sample_client = sample_tcp_os"
  "profile_tlate sample_client 1 = Some 0" "profile_tlate sample_client 2 = Some 2"
  "sled sample_client = sample_sled_env ST_NET_PREOPERATIONAL (\<lambda>_. (7, 0))"
  by (simp_all add: sample_client_def one_client_def started_process_def fd_of_def new_rtc3d_connection_def)

lemma fresh_reader: "reader_of (new_rtc3d_connection c) = Header []"
  by (simp add: reader_of_def new_rtc3d_connection_def)


text \<open>The two commands \<^verbatim>\<open>lights on\<close> and \<^verbatim>\<open>lights off\<close>, in three pieces.\<close>

definition sample_texts :: "u8 list list" where
  "sample_texts = [ascii ''lights on'', ascii ''lights off'']"

definition sample_chunks :: "u8 list list" where
  "sample_chunks = (let bs = concat (map packet_bytes sample_texts) in [take 3 bs, take 20 (drop 3 bs), drop 23 bs])"

lemma sample_texts_ok: "\<forall>t \<in> set sample_texts. short_text t \<and> not_bye t"
  by code_simp

lemma sample_chunks_cut: "concat sample_chunks = concat (map packet_bytes sample_texts)"
proof -
  have "take 3 bs @ take 20 (drop 3 bs) @ drop 23 bs = bs" for bs :: "u8 list"
    by (metis append.assoc append_take_drop_id drop_drop numeral_plus_numeral add_num_simps)
  then show ?thesis by (simp add: sample_chunks_def Let_def)
qed

theorem commands_delivered_witness:
  "served_by command_handler 3 sample_texts sample_client
     (run_steps (map (read_handler command_handler 2) sample_chunks) sample_client)"
  using commands_delivered [OF sample_client_inv sample_client_fields(1), simplified, OF sample_client_fields(2)
      fresh_reader sample_texts_ok sample_chunks_cut] .

section \<open>Answers\<close>

text \<open>The packets that may answer a command, by its type.\<close>

definition ok_packet :: "string \<Rightarrow> buffer" where
  "ok_packet text = rtc3d_command_packet (ascii text)"

definition err_packet :: "string \<Rightarrow> buffer" where
  "err_packet text = rtc3d_error_packet (ascii text)"

definition out_of_bounds :: "command_t \<Rightarrow> bool" where
  "out_of_bounds c \<longleftrightarrow> (case cmd_position c of None \<Rightarrow> False | Some pos \<Rightarrow> d_gt (d_abs pos) (Fin (1 / 2)))"

definition either :: "string \<Rightarrow> string \<Rightarrow> buffer list set" where
  "either err okay = {[err_packet err], [ok_packet okay]}"

fun command_replies :: "command_t \<Rightarrow> command_type_t \<Rightarrow> buffer list set" where
  "command_replies c cmd_setbyteorder = {[ok_packet ''ok-setbyteorder'']}"
| "command_replies c cmd_streamframes = {[ok_packet ''ok-streamframes'']}"
| "command_replies c cmd_sendcurrentframe =
     insert [err_packet ''err-sendcurrentframe''] (range (\<lambda>pt. [rtc3d_data_packet (- 1) (- 1) pt]))"
| "command_replies c cmd_profile_execute = either ''err-profile-execute'' ''ok-profile-execute''"
| "command_replies c cmd_profile_set =
     (if out_of_bounds c
      then insert [err_packet ''err-profile-set'']
        ((#) (err_packet ''err-profile-set'') ` either ''err-profile-set'' ''ok-profile-set'')
      else either ''err-profile-set'' ''ok-profile-set'')"
| "command_replies c cmd_sinusoid =
     (if cmd_boolean c = Some True then either ''err-sinusoid-start'' ''ok-sinusoid-start''
      else either ''err-sinusoid-stop'' ''ok-sinusoid-stop'')"
| "command_replies c cmd_rsinusoid =
     (if cmd_boolean c = Some True then either ''err-rsinusoid-start'' ''ok-rsinusoid-start''
      else either ''err-rsinusoid-stop'' ''ok-rsinusoid-stop'')"
| "command_replies c cmd_lights = either ''err-light'' ''ok-light''"
| "command_replies c cmd_sendstatus = {[]}"
| "command_replies c cmd_home = {[]}"
| "command_replies c cmd_clearfault = {[]}"
| "command_replies c cmd_bye = {[ok_packet ''bye'']}"
| "command_replies c cmd_setinternalstatus = {[err_packet ''err-notsupported'']}"
| "command_replies c cmd_sendinternalstatus = {[err_packet ''err-notsupported'']}"

text \<open>The same for a text, and what a text does to the list of those who get the stream.\<close>

definition parsed :: "u8 list \<Rightarrow> command_t option" where
  "parsed t = (case parser_parse_string t of Inr r \<Rightarrow> r | Inl e \<Rightarrow> None)"

definition replies :: "u8 list \<Rightarrow> buffer list set" where
  "replies t =
     (case parsed t of
        None \<Rightarrow> {[err_packet ''err-syntaxerror'']}
      | Some c \<Rightarrow> (case cmd_type c of None \<Rightarrow> {} | Some type \<Rightarrow> command_replies c type))"

definition command_streams :: "'c \<Rightarrow> command_t \<Rightarrow> command_type_t \<Rightarrow> 'c list \<Rightarrow> 'c list" where
  "command_streams x c type xs =
     (if type = cmd_streamframes then removeAll x xs @ (if cmd_boolean c = Some True then [x] else []) else xs)"

definition streams_after :: "'c \<Rightarrow> u8 list \<Rightarrow> 'c list \<Rightarrow> 'c list" where
  "streams_after x t xs =
     (case parsed t of
        None \<Rightarrow> xs
      | Some c \<Rightarrow> (case cmd_type c of None \<Rightarrow> xs | Some type \<Rightarrow> command_streams x c type xs))"

text \<open>
  \<open>same_clients l w w'\<close>: nothing that concerns clients has changed, but for the reader of connection \<open>l\<close>.
  \<open>answers A S l w res\<close>: the result is a stop, or packets of \<open>A\<close> have been sent since \<open>w\<close>, all of them
  to the client of connection \<open>l\<close>, and the stream goes to the connections \<open>S\<close>.
\<close>

definition same_clients :: "nat \<Rightarrow> 'z server_env_scheme \<Rightarrow> 'z server_env_scheme \<Rightarrow> bool" where
  "same_clients l w w' \<longleftrightarrow> connection_data w' = connection_data w \<and> net_conns w' = net_conns w
     \<and> frame w' = frame w \<and> rtc3d_owner w' = rtc3d_owner w
     \<and> (\<forall>l'. l' \<noteq> l \<longrightarrow> rtc3d_conns w' l' = rtc3d_conns w l')"

definition same_out :: "nat list \<Rightarrow> nat \<Rightarrow> 'z server_env_scheme \<Rightarrow> 'z server_env_scheme \<Rightarrow> bool" where
  "same_out S l w w' \<longleftrightarrow> same_clients l w w' \<and> written w' = written w \<and> stream_clients w' = S"

definition answers ::
    "buffer list set \<Rightarrow> nat list \<Rightarrow> nat \<Rightarrow> 'z server_env_scheme \<Rightarrow> 'z server_env_scheme outcome \<Rightarrow> bool" where
  "answers A S l w res \<longleftrightarrow> (case res of Inl e \<Rightarrow> True
     | Inr w' \<Rightarrow> same_clients l w w' \<and> stream_clients w' = S
         \<and> (\<exists>ps \<in> A. written w' = written w @ map (Pair (fd_of l w)) ps))"

lemma fd_of_owner:
  "fd_of l w = (case rtc3d_owner w l of None \<Rightarrow> - 1
     | Some c \<Rightarrow> (case net_conns w c of None \<Rightarrow> - 1 | Some conn \<Rightarrow> conn_fd conn))"
  by (simp add: fd_of_def rtc3d_owner_def split: option.split)

lemma fd_of_fields [simp]:
  "fd_of l (w\<lparr>sled := s\<rparr>) = fd_of l w" "fd_of l (w\<lparr>stream_clients := ls\<rparr>) = fd_of l w"
  "fd_of l (w\<lparr>profile_tlate := m\<rparr>) = fd_of l w"
  by (simp_all add: fd_of_def split: option.split)

lemma same_clients_fd: "same_clients l w w' \<Longrightarrow> fd_of l' w' = fd_of l' w"
  unfolding fd_of_owner same_clients_def by (simp cong: option.case_cong)

lemma same_clients_refl [simp]: "same_clients l w w"
  by (simp add: same_clients_def)

lemma same_clients_trans: "same_clients l w w1 \<Longrightarrow> same_clients l w1 w2 \<Longrightarrow> same_clients l w w2"
  by (simp add: same_clients_def)

lemma same_clients_simps [simp]:
  "same_clients l w (w1\<lparr>sled := s\<rparr>) = same_clients l w w1"
  "same_clients l w (w1\<lparr>stream_clients := ls\<rparr>) = same_clients l w w1"
  "same_clients l w (w1\<lparr>profile_tlate := m\<rparr>) = same_clients l w w1"
  "same_clients l w (w1\<lparr>written := x\<rparr>) = same_clients l w w1"
  "same_clients l w (w1\<lparr>os_calls := n\<rparr>) = same_clients l w w1"
  by (simp_all add: same_clients_def rtc3d_owner_def [abs_def])

lemma same_clients_put:
  "rtc3d_conns w l = Some rc \<Longrightarrow> net_conn rc' = net_conn rc \<Longrightarrow> same_clients l w (put_rtc3d l rc' w)"
  by (auto simp: same_clients_def rtc3d_owner_def put_rtc3d_def)

lemma same_out_refl: "S = stream_clients w \<Longrightarrow> same_out S l w w"
  by (simp add: same_out_def)

lemma same_out_simps [simp]:
  "same_out S l w (w1\<lparr>sled := s\<rparr>) = same_out S l w w1"
  "same_out S l w (w1\<lparr>profile_tlate := m\<rparr>) = same_out S l w w1"
  by (simp_all add: same_out_def)

lemma same_out_table [simp]: "same_out S l w (snd (at_table f w1)) = same_out S l w w1"
  by (simp add: at_table_def split_beta Let_def)

lemma same_out_tlate [simp]: "same_out S l w (snd (tlate_profile_id n w1)) = same_out S l w w1"
  by (simp add: tlate_profile_id_def at_table_def split_beta Let_def split: option.split)

lemma answers_stop [simp]: "answers A S l w (Inl e)"
  by (simp add: answers_def)

lemma answers_none: "[] \<in> A \<Longrightarrow> S = stream_clients w \<Longrightarrow> answers A S l w (Inr w)"
  by (auto simp: answers_def)

lemma answers_read:
  "(\<And>x. v = Some x \<Longrightarrow> answers A S l w (f x)) \<Longrightarrow> answers A S l w (bind_outcome (read_determined v) f)"
  by (cases v) (simp_all add: read_determined_def)

lemma answers_sent:
  assumes "same_out S l w w1" and "[p] \<in> A"
  shows "answers A S l w (Inr (sent_packet l p w1))"
    and "answers A S l w (Inr (w1\<lparr>written := written w1 @ [(fd_of l w1, p)]\<rparr>))"
  using assms same_clients_fd [of l w w1 l] by (auto simp: answers_def same_out_def sent_packet_def intro!: bexI [of _ "[p]"])

lemma answers_before:
  assumes "same_out S l w w1" and "answers A S l (sent_packet l p w1) res" and "(#) p ` A \<subseteq> B"
  shows "answers B S l w res"
proof (cases res)
  case (Inr w')
  have "same_clients l w (sent_packet l p w1)" using assms(1) by (simp add: same_out_def sent_packet_def)
  from same_clients_fd [OF this, of l] same_clients_trans [OF this] Inr assms(2) obtain ps where
    "same_clients l w w'" "stream_clients w' = S" "ps \<in> A"
    "written w' = written (sent_packet l p w1) @ map (Pair (fd_of l w)) ps"
    by (auto simp: answers_def)
  then have "same_clients l w w'" "stream_clients w' = S" "p # ps \<in> B"
    "written w' = written w @ map (Pair (fd_of l w)) (p # ps)"
    using assms(1,3) same_clients_fd [of l w w1 l] by (auto simp: same_out_def sent_packet_def)
  then show ?thesis unfolding Inr answers_def sum.case by blast
qed simp

lemma answers_reply:
  assumes "serving N l w1" and "same_out S l w w1"
  shows "[ok_packet text] \<in> A \<Longrightarrow> answers A S l w (reply l text w1)"
    and "[err_packet text] \<in> A \<Longrightarrow> answers A S l w (reply_error l text w1)"
  using answers_sent(1) [OF assms(2)] by (simp_all add: reply_serving [OF assms(1)] ok_packet_def err_packet_def)

lemma answers_reply_to:
  assumes "serving N l w1" and "same_out S l w w1" and "safe_on sled_stops sys_inv (dropping f)"
  shows "answers (either err okay) S l w (reply_to l err okay (at_sled f w1))"
  using assms(1,3)
proof (cases rule: at_sled_cases)
  case (2 r s)
  then show ?thesis using assms(2) by (auto simp: reply_to_def either_def intro!: answers_reply)
qed (simp add: reply_to_def)

lemma answers_set_next:
  assumes "serving N l w1" and "same_out S l w w1"
  shows "answers (either ''err-profile-set'' ''ok-profile-set'') S l w (command_set_next l i c w1)"
  unfolding command_set_next_def Let_def split_beta using assms
  by (intro answers_read)
    (auto intro!: answers_read answers_reply table_serving tlate_serving simp: MAX_PROFILES_def either_def)

lemma answers_set_target:
  assumes "serving N l w1" and "same_out S l w w1"
  shows "answers (either ''err-profile-set'' ''ok-profile-set'') S l w (command_set_target l i c w1)"
  unfolding command_set_target_def Let_def split_beta using assms
  by (intro answers_read)
    (auto intro!: answers_read answers_reply(2) answers_set_next table_serving simp: either_def [THEN eqset_imp_iff])

lemma answers_profile_set:
  assumes sv: "serving N l w" and o: "same_out S l w w"
  shows "answers (command_replies c cmd_profile_set) S l w (command_profile_set l c w)"
  unfolding command_profile_set_def Let_def split_beta
proof (intro answers_read)
  fix profile
  let ?w = "snd (tlate_profile_id profile w)" and ?i = "fst (tlate_profile_id profile w)"
    and ?e = "err_packet ''err-profile-set''"
  have sv': "serving N l ?w" and o': "same_out S l w ?w" using tlate_serving [OF sv] o by simp_all
  have r: "reply_error l ''err-profile-set'' ?w = Inr (sent_packet l ?e ?w)"
    by (simp add: reply_serving [OF sv'] err_packet_def)
  have sv'': "serving N l (sent_packet l ?e ?w)" by (rule serving_sent [OF sv'])
  have "stream_clients (sent_packet l ?e ?w) = S" using o' by (simp add: same_out_def sent_packet_def)
  then have o'': "same_out S l (sent_packet l ?e ?w) (sent_packet l ?e ?w)" by (simp add: same_out_refl)
  have bad: "answers (command_replies c cmd_profile_set) S l w
      (if ?i < 0 then reply_error l ''err-profile-set'' ?w else res)"
    if "0 \<le> ?i \<Longrightarrow> answers (command_replies c cmd_profile_set) S l w res" for res
    using that answers_reply(2) [OF sv' o'] by (auto simp: either_def)
  have "answers (command_replies c cmd_profile_set) S l w
      (bind_outcome (when_step (d_gt (d_abs pos) (Fin (1 / 2))) (reply_error l ''err-profile-set'') ?w)
         (command_set_target l ?i c))" if "cmd_position c = Some pos" for pos
    using answers_set_target [OF sv' o'] r that
      answers_before [OF o' answers_set_target [OF sv'' o''], where B = "command_replies c cmd_profile_set"]
    by (auto simp: when_step_def out_of_bounds_def subset_insertI)
  then show "answers (command_replies c cmd_profile_set) S l w
      (if ?i < 0 then reply_error l ''err-profile-set'' ?w
       else bind_outcome (read_determined (cmd_position c)) (\<lambda>pos.
         bind_outcome (when_step (d_gt (d_abs pos) (Fin (1 / 2))) (reply_error l ''err-profile-set'') ?w)
           (command_set_target l ?i c)))"
    by (intro bad answers_read)
qed

lemma answers_library:
  assumes "serving N l w" and "same_out S l w w"
  shows "answers (command_replies c cmd_profile_execute) S l w (command_profile_execute l c w)"
    "answers (command_replies c cmd_sinusoid) S l w (command_sinusoid l c w)"
    "answers (command_replies c cmd_rsinusoid) S l w (command_rsinusoid l c w)"
    "answers (command_replies c cmd_lights) S l w (command_lights l c w)"
  unfolding command_profile_execute_def command_sinusoid_def command_rsinusoid_def command_lights_def Let_def split_beta
    command_replies.simps
  by (auto intro!: answers_read answers_reply_to tlate_serving safe_calls assms simp: assms(2))

lemma answers_network:
  assumes sv: "serving N l w" and o: "same_out S l w w"
  shows "answers (command_replies c cmd_streamframes) (command_streams l c cmd_streamframes S) l w (command_streamframes l c w)"
    "answers (command_replies c cmd_sendcurrentframe) S l w (command_sendcurrentframe l w)"
    "answers (command_replies c cmd_setbyteorder) S l w (command_setbyteorder l c w)"
proof -
  have S: "stream_clients w = S" using o by (simp add: same_out_def)
  have "same_out (removeAll l S) l w (stream_remove l w)"
    "same_out (removeAll l S @ [l]) l w ((stream_remove l w)\<lparr>stream_clients := stream_clients (stream_remove l w) @ [l]\<rparr>)"
    by (simp_all add: stream_remove_def same_out_def S)
  with stream_serving [OF sv]
  show "answers (command_replies c cmd_streamframes) (command_streams l c cmd_streamframes S) l w (command_streamframes l c w)"
    unfolding command_streamframes_def Let_def command_streams_def by (auto intro!: answers_read answers_reply)
  show "answers (command_replies c cmd_sendcurrentframe) S l w (command_sendcurrentframe l w)"
    using sv safe_calls(7)
  proof (cases rule: at_sled_cases)
    case (2 r s)
    let ?w = "w\<lparr>sled := s\<rparr>"
    have o': "same_out S l w ?w" using o by simp
    have "answers (command_replies c cmd_sendcurrentframe) S l w
      (Inr (?w\<lparr>written := written ?w @ [(fd_of l ?w, rtc3d_data_packet (- 1) (- 1) pt)]\<rparr>))" for pt
      by (rule answers_sent(2) [OF o']) simp
    with 2 o' show ?thesis unfolding command_sendcurrentframe_def
      by (cases r) (auto intro!: answers_reply answers_read simp: send_packet_serving [OF 2(3)])
  qed (simp add: command_sendcurrentframe_def)
  from sv obtain rc where rc: "l \<noteq> 0" "rtc3d_conns w l = Some rc" by (rule serving_conn)
  have "serving N l (put_rtc3d l (rc\<lparr>byte_order := bo\<rparr>) w)" for bo
    by (rule serving_put [OF sv rc(2)]) simp
  moreover have "same_out S l w (put_rtc3d l (rc\<lparr>byte_order := bo\<rparr>) w)" for bo
    using same_clients_put [OF rc(2), of "rc\<lparr>byte_order := bo\<rparr>"] S by (simp add: same_out_def put_rtc3d_def)
  ultimately show "answers (command_replies c cmd_setbyteorder) S l w (command_setbyteorder l c w)" using rc
    unfolding command_setbyteorder_def
    by (auto intro!: answers_read answers_reply simp: rtc3d_set_byte_order_def deref_rtc3d_def)
qed

lemma answers_command:
  assumes "serving N l w" and "type \<noteq> cmd_bye"
  shows "answers (command_replies c type) (command_streams l c type (stream_clients w)) l w (run_command l c type w)"
proof -
  note o = same_out_refl [of "stream_clients w" w l, OF refl]
  have quiet: "answers (command_replies c type) (stream_clients w) l w (Inr w)"
    if "type \<in> {cmd_sendstatus, cmd_home, cmd_clearfault}" using that by (auto intro: answers_none)
  have other: "answers (command_replies c type) (stream_clients w) l w (reply_error l ''err-notsupported'' w)"
    if "type \<in> {cmd_setinternalstatus, cmd_sendinternalstatus}"
    using that by (auto intro: answers_reply(2) [OF assms(1) o])
  have S: "type \<noteq> cmd_streamframes \<Longrightarrow> command_streams l c type (stream_clients w) = stream_clients w"
    by (simp add: command_streams_def)
  show ?thesis using assms(2) quiet other S answers_network [OF assms(1) o]
    by (cases type) (simp_all add: answers_library [OF assms(1) o] answers_profile_set [OF assms(1) o]
        del: command_replies.simps)
qed

lemma handler_answers:
  assumes sv: "serving N l w" and t: "not_bye t"
  shows "answers (replies t) (streams_after l t (stream_clients w)) l w (command_handler l t w)"
proof -
  from sv obtain rc conn where "l \<noteq> 0" "rtc3d_conns w l = Some rc" "net_conn rc \<noteq> 0"
    "net_conns w (net_conn rc) = Some conn" by (rule serving_conn)
  then have g: "rtc3d_get_global_data l w = Inr ()"
    by (simp add: rtc3d_get_global_data_def deref_rtc3d_def deref_conn_def)
  show ?thesis
  proof (cases "parser_parse_string t")
    case (Inl e)
    with g show ?thesis by (simp add: command_handler_def)
  next
    case (Inr r)
    show ?thesis
    proof (cases r)
      case None
      with Inr g answers_reply(2) [OF sv same_out_refl [OF refl]] show ?thesis
        by (simp add: command_handler_def replies_def streams_after_def parsed_def)
    next
      case (Some c)
      with Inr g t answers_command [OF sv] show ?thesis
        by (auto simp: command_handler_def replies_def streams_after_def parsed_def not_bye_def intro!: answers_read)
    qed
  qed
qed

text \<open>The number of packets in the answer to a command that the parser accepts (\<open>Some\<close>), or does not.\<close>

fun answer_count :: "command_t option \<Rightarrow> nat" where
  "answer_count None = 1"
| "answer_count (Some c) =
     (if cmd_type c \<in> {Some cmd_sendstatus, Some cmd_home, Some cmd_clearfault} then 0 else 1)"

lemma command_replies_count:
  "ps \<in> command_replies c type \<Longrightarrow> \<not> out_of_bounds c \<Longrightarrow>
    length ps = (if type \<in> {cmd_sendstatus, cmd_home, cmd_clearfault} then 0 else 1)"
  by (cases type) (auto simp: either_def split: if_splits)

lemma replies_count:
  assumes "ps \<in> replies t" and "\<forall>c. parsed t = Some c \<longrightarrow> \<not> out_of_bounds c"
  shows "length ps = answer_count (parsed t)"
  using assms by (auto simp: replies_def command_replies_count split: option.splits)



end
