(* ===== verification/Rtc3d_Stream.thy ===== *)
theory Rtc3d_Stream
  imports Rtc3d_Reader
begin

text \<open>
  The other end of a connection: what a client makes of the bytes that the server writes. Packets
  follow one another without separators, so a client depends on the size fields to find where the next one begins.
\<close>

section \<open>Well-formed packets\<close>

text \<open>
  All bytes have been assigned, the size field is the length, and the type is one of the three that
  the server sends.
\<close>

definition packet_type :: "u8 list \<Rightarrow> u32 option" where
  "packet_type bs = Option.bind (get32 bs) (\<lambda>(sz, bs). map_option fst (get32 bs))"

definition packet_ok :: "buffer \<Rightarrow> bool" where
  "packet_ok buf \<longleftrightarrow> None \<notin> set buf
     \<and> (case get32 (map the buf) of None \<Rightarrow> False | Some (sz, bs) \<Rightarrow> unat sz = length buf)
     \<and> packet_type (map the buf) \<in> {Some PTYPE_ERROR, Some PTYPE_COMMAND, Some PTYPE_DATAFRAME}"

lemma packet_ok_bytes:
  assumes "length bs < 2 ^ 32 - 8" and "type \<in> {PTYPE_ERROR, PTYPE_COMMAND, PTYPE_DATAFRAME}"
  shows "packet_ok (map Some (be32 (of_nat (8 + length bs)) @ be32 type @ bs))"
proof -
  have "unat (of_nat (8 + length bs) :: u32) = 8 + length bs"
    by (rule unat_small) (use assms(1) in simp)
  with assms(2) show ?thesis by (auto simp: packet_ok_def packet_type_def comp_def)
qed

lemma text_packet_ok:
  assumes "length text < 2 ^ 32 - 8"
  shows "packet_ok (rtc3d_command_packet text)" and "packet_ok (rtc3d_error_packet text)"
  using packet_ok_bytes [OF assms] by (simp_all add: rtc3d_command_packet_def rtc3d_error_packet_def text_packet_bytes)

lemma data_packet_ok: "packet_ok (rtc3d_data_packet fr tm pt)"
  using packet_ok_bytes [of "be32 1 @ be32 40 @ be32 1 @ be32 fr @ be64 tm @ be32 1
      @ be32 pt @ be32 0 @ be32 0 @ be32 0" PTYPE_DATAFRAME]
  by (simp add: data_packet_bytes be64_def PTYPE_defs)

section \<open>Splitting a stream\<close>

text \<open>The bytes of a stream up to its last complete packet, as packets, and what is left.\<close>

function split_packets :: "u8 list \<Rightarrow> u8 list list \<times> u8 list" where
  "split_packets bs =
     (case get32 bs of
        None \<Rightarrow> ([], bs)
      | Some (sz, _) \<Rightarrow>
          if sz = 0 \<or> length bs < unat sz then ([], bs)
          else let (ps, rest) = split_packets (drop (unat sz) bs) in (take (unat sz) bs # ps, rest))"
  by auto
termination
proof (relation "measure length")
  fix bs and p :: "u32 \<times> u8 list" and sz bs'
  assume a: "get32 bs = Some p" "(sz, bs') = p" "\<not> (sz = 0 \<or> length bs < unat sz)"
  from a(3) have "0 < unat sz" by (simp add: unat_gt_0)
  moreover from a(3) have "unat sz \<le> length bs" by simp
  ultimately have "length bs - unat sz < length bs" by linarith
  then show "(drop (unat sz) bs, bs) \<in> measure length" by simp
qed simp

declare split_packets.simps [simp del]

lemma packet_ok_get:
  assumes "packet_ok p"
  obtains sz bs where "get32 (map the p @ rest) = Some (sz, bs @ rest)" "unat sz = length p" "sz \<noteq> 0"
proof -
  from assms obtain sz bs where g: "get32 (map the p) = Some (sz, bs)" and sz: "unat sz = length p"
    by (auto simp: packet_ok_def split: option.splits)
  from g have "get32 (map the p @ rest) = Some (sz, bs @ rest)" and "p \<noteq> []"
    by (cases "map the p" rule: get32.cases; auto)+
  with sz that show thesis by (metis length_greater_0_conv unat_0 less_irrefl)
qed

lemma split_packets_sent:
  assumes "\<forall>p \<in> set ps. packet_ok p" and "split_packets rest = (qs, r)"
  shows "split_packets (concat (map (map the) ps) @ rest) = (map (map the) ps @ qs, r)"
  using assms(1)
proof (induction ps)
  case Nil
  then show ?case using assms(2) by simp
next
  case (Cons p ps)
  from Cons.prems have "packet_ok p" by simp
  then obtain sz bs where "get32 (map the p @ concat (map (map the) ps) @ rest) = Some (sz, bs @ concat (map (map the) ps) @ rest)"
    "unat sz = length p" "sz \<noteq> 0" by (rule packet_ok_get)
  then show ?case using Cons by (subst split_packets.simps) simp
qed

lemma split_packets_Nil: "split_packets [] = ([], [])"
  by (simp add: split_packets.simps)

lemma split_packets_all: "\<forall>p \<in> set ps. packet_ok p \<Longrightarrow> split_packets (concat (map (map the) ps)) = (map (map the) ps, [])"
  using split_packets_sent [of ps "[]" "[]" "[]"] by (simp add: split_packets_Nil)

end
