(* ===== verification/Server_Service.thy ===== *)
theory Server_Service
  imports Server_Replies Rtc3d_Stream
begin

text \<open>
  What the server promises to its clients, as an abstract service: clients come and go, send bytes, and
  get packets. Its state is what the protocol makes a client depend on, and no pointer, map or block of memory is left in it.
  The server of \<^verbatim>\<open>src/server.cc\<close>, with all of the layers below it, refines this service.
\<close>

section \<open>The service\<close>

text \<open>
  Of every client, known by its descriptor, how much of its current packet has arrived; the clients
  that get the stream, in the order in which it is sent to them; and the number of the next frame.
\<close>

record service =
  readers :: "int \<rightharpoonup> reader"
  streaming :: "int list"
  number :: int

datatype service_input = Join int | Leave int | Receive int "u8 list" | Sample

text \<open>The answers to several commands, one after the other.\<close>

fun answered :: "u8 list list \<Rightarrow> buffer list \<Rightarrow> bool" where
  "answered [] ps \<longleftrightarrow> ps = []"
| "answered (t # ts) ps \<longleftrightarrow> (\<exists>qs rs. qs \<in> replies t \<and> answered ts rs \<and> ps = qs @ rs)"

inductive service_step :: "service \<Rightarrow> service_input \<Rightarrow> (int \<times> buffer) list \<Rightarrow> service \<Rightarrow> bool" where
  step_join: "readers s sk = None \<Longrightarrow> service_step s (Join sk) [] (s\<lparr>readers := (readers s)(sk \<mapsto> Header [])\<rparr>)"
| step_leave: "readers s sk = Some r \<Longrightarrow>
    service_step s (Leave sk) [] (s\<lparr>readers := (readers s)(sk := None), streaming := removeAll sk (streaming s)\<rparr>)"
| step_receive: "readers s sk = Some r \<Longrightarrow> answered (texts r bs) ps \<Longrightarrow>
    service_step s (Receive sk bs) (map (Pair sk) ps)
      (s\<lparr>readers := (readers s)(sk \<mapsto> reader_after r bs), streaming := fold (streams_after sk) (texts r bs) (streaming s)\<rparr>)"
| step_sample: "service_step s Sample
    (map (\<lambda>sk. (sk, rtc3d_data_packet (word_of_int (number s)) us pt)) (streaming s)) (s\<lparr>number := number s + 1\<rparr>)"

inductive service_run :: "service \<Rightarrow> service_input list \<Rightarrow> (int \<times> buffer) list \<Rightarrow> service \<Rightarrow> bool" where
  service_done: "service_run s [] [] s"
| service_more: "service_step s i ps s1 \<Longrightarrow> service_run s1 is qs s2 \<Longrightarrow> service_run s (i # is) (ps @ qs) s2"

inductive_cases service_run_NilE: "service_run s [] ps s'"
inductive_cases service_run_ConsE: "service_run s (i # is) ps s'"
inductive_cases step_joinE: "service_step s (Join sk) ps s'"
inductive_cases step_receiveE: "service_step s (Receive sk bs) ps s'"

lemma service_run_one: "service_step s i ps s' \<Longrightarrow> service_run s [i] ps s'"
  using service_more [OF _ service_done] by fastforce

lemma service_run_append:
  "service_run s is ps s1 \<Longrightarrow> service_run s1 js qs s2 \<Longrightarrow> service_run s (is @ js) (ps @ qs) s2"
  by (induction rule: service_run.induct) (auto intro: service_run.intros)

section \<open>The service of a state of the server\<close>

definition service_of :: "'z server_env_scheme \<Rightarrow> service" where
  "service_of w = \<lparr>readers = (\<lambda>sk. map_option reader_of (client_of sk w)),
     streaming = map (\<lambda>l. fd_of l w) (stream_clients w), number = frame w\<rparr>"

text \<open>What an event brings to the service, as the operating system reports it.\<close>

fun input_of :: "server_event \<Rightarrow> 'z server_env_scheme \<Rightarrow> service_input list" where
  "input_of Ev_accept w = (if event_granted w then [Join (next_fd w)] else [])"
| "input_of (Ev_read sk) w =
     (case os_read (tcp_os w) (os_calls w) of
        None \<Rightarrow> [Leave sk] | Some bs \<Rightarrow> if bs = [] then [Leave sk] else [Receive sk bs])"
| "input_of (Ev_client sk failed) w = (if failed then [Leave sk] else [])"
| "input_of Ev_timeout w = [Sample]"
| "input_of _ w = []"

fun inputs_of :: "server_event list \<Rightarrow> 'z server_env_scheme \<Rightarrow> service_input list" where
  "inputs_of [] w = []"
| "inputs_of (ev # evs) w =
     input_of ev w @ (case handle_server_event ev w of Inl e \<Rightarrow> [] | Inr w' \<Rightarrow> inputs_of evs w')"

subsection \<open>Descriptors and connections\<close>

lemma live_connection:
  assumes "server_inv w" and "rtc3d_conns w l = Some rc"
  obtains conn where "net_conns w (net_conn rc) = Some conn" "conn_local conn = l" "conn_fd conn = fd_of l w"
    "map_of (connection_data w) (fd_of l w) = Some (net_conn rc)"
proof -
  from server_inv_serving [OF assms(1)] assms(2) have "serving (net_conns w) l w" by simp
  with assms(2) obtain conn where c: "net_conns w (net_conn rc) = Some conn" "conn_local conn = l"
    by (metis serving_conn option.inject)
  moreover have f: "fd_of l w = conn_fd conn" using assms(2) c by (simp add: fd_of_def)
  moreover have "map_ok w" using assms(1) by (simp add: server_inv_def server_inv_but_def)
  ultimately show thesis using that map_of_live(1) [of w "net_conn rc" conn] by simp
qed

lemma client_of_live:
  assumes "server_inv w" and "rtc3d_conns w l = Some rc"
  shows "client_of (fd_of l w) w = Some rc"
proof -
  from assms obtain conn where "net_conns w (net_conn rc) = Some conn" "conn_local conn = l"
    "map_of (connection_data w) (fd_of l w) = Some (net_conn rc)" by (rule live_connection)
  with assms(2) show ?thesis by (simp add: client_of_def)
qed

lemma fd_of_inj:
  assumes "server_inv w" and "rtc3d_conns w l \<noteq> None" and "rtc3d_conns w l' \<noteq> None" and "fd_of l w = fd_of l' w"
  shows "l = l'"
proof -
  from assms(2,3) obtain rc rc' where rc: "rtc3d_conns w l = Some rc" "rtc3d_conns w l' = Some rc'" by auto
  from assms(1) rc(1) obtain conn where
    1: "net_conns w (net_conn rc) = Some conn" "conn_local conn = l" "map_of (connection_data w) (fd_of l w) = Some (net_conn rc)"
    by (rule live_connection)
  from assms(1) rc(2) obtain conn' where
    2: "net_conns w (net_conn rc') = Some conn'" "conn_local conn' = l'" "map_of (connection_data w) (fd_of l' w) = Some (net_conn rc')"
    by (rule live_connection)
  from 1(3) 2(3) have "net_conn rc = net_conn rc'" unfolding assms(4) by simp
  with 1(1) 2(1) have "conn = conn'" by simp
  with 1(2) 2(2) show ?thesis by simp
qed

lemma client_entry:
  assumes "server_inv w" and "map_of (connection_data w) sk = Some c"
  obtains conn rc where "net_conns w c = Some conn" "rtc3d_conns w (conn_local conn) = Some rc" "net_conn rc = c"
    "fd_of (conn_local conn) w = sk"
proof -
  from assms(2) have "(sk, c) \<in> set (connection_data w)" by (rule map_of_SomeD)
  from entry_live [OF assms(1) this] obtain conn rc where "net_conns w c = Some conn" "conn_fd conn = sk"
    "rtc3d_conns w (conn_local conn) = Some rc" "net_conn rc = c" by metis
  with that show thesis by (simp add: fd_of_def)
qed

lemma streams_after_map:
  assumes "inj_on f (insert x (set xs))"
  shows "map f (streams_after x t xs) = streams_after (f x) t (map f xs)"
    and "set (streams_after x t xs) \<subseteq> insert x (set xs)"
  using map_removeAll_inj_on [OF assms]
  by (auto simp: streams_after_def command_streams_def split: option.split)

lemma streams_after_fold:
  assumes "inj_on f (insert x (set xs))"
  shows "map f (fold (streams_after x) ts xs) = fold (streams_after (f x)) ts (map f xs)"
  using assms
proof (induction ts arbitrary: xs)
  case (Cons t ts)
  have "inj_on f (insert x (set (streams_after x t xs)))"
    by (rule inj_on_subset [OF Cons.prems]) (use streams_after_map(2) [OF Cons.prems] in blast)
  from Cons.IH [OF this] streams_after_map(1) [OF Cons.prems] show ?case by simp
qed simp

lemma fd_inj_on:
  assumes "server_inv w" and "rtc3d_conns w l \<noteq> None"
  shows "inj_on (\<lambda>l. fd_of l w) (insert l (set (stream_clients w)))"
  using assms by (auto intro!: inj_onI fd_of_inj [OF assms(1)] simp: server_inv_def server_inv_but_def server_rest_def)

section \<open>Commands\<close>

text \<open>The calls that the reader makes, all together.\<close>

lemma reader_step_same: "reader_step l w w' \<Longrightarrow> same_clients l w w' \<and> written w' = written w \<and> stream_clients w' = stream_clients w"
  by (auto simp: reader_step_def same_clients_def rtc3d_owner_def put_rtc3d_def)

lemma served_answers:
  assumes "served_by command_handler l ts w res" and "serving N l w" and "\<forall>t \<in> set ts. not_bye t"
  shows "answers {ps. answered ts ps} (fold (streams_after l) ts (stream_clients w)) l w res"
  using assms
proof (induction rule: served_by.induct)
  case (served_all w w')
  then show ?case using reader_step_same [of l w w'] by (simp add: answers_def)
next
  case (served_call w w1 t w2 ts res)
  note w1 = reader_step_same [OF served_call.hyps(1)]
  have sv: "serving N l w1" by (rule serving_reader_step [OF served_call.prems(1) served_call.hyps(1)])
  have t: "not_bye t" using served_call.prems(2) by simp
  from handler_answers [OF sv t] served_call.hyps(2) obtain qs where q: "same_clients l w1 w2"
    "stream_clients w2 = streams_after l t (stream_clients w1)" "qs \<in> replies t"
    "written w2 = written w1 @ map (Pair (fd_of l w1)) qs" by (auto simp: answers_def)
  have "serving N l w2" using settled_handler [OF sv t] served_call.hyps(2) by simp
  from served_call.IH [OF this] served_call.prems(2)
  have ih: "answers {ps. answered ts ps} (fold (streams_after l) ts (stream_clients w2)) l w2 res" by simp
  show ?case
  proof (cases res)
    case (Inr w')
    with ih obtain rs where r: "same_clients l w2 w'" "stream_clients w' = fold (streams_after l) ts (stream_clients w2)"
      "answered ts rs" "written w' = written w2 @ map (Pair (fd_of l w2)) rs" by (auto simp: answers_def)
    have f: "fd_of l w1 = fd_of l w" "fd_of l w2 = fd_of l w"
      using same_clients_fd [of l w w1] same_clients_fd [OF q(1)] w1 by simp_all
    have s: "same_clients l w w'" using w1 q(1) r(1) by (blast intro: same_clients_trans)
    have "written w' = written w @ map (Pair (fd_of l w)) (qs @ rs)" using w1 q(4) r(4) f by simp
    moreover have "answered (t # ts) (qs @ rs)" using q(3) r(3) by auto
    ultimately show ?thesis unfolding Inr answers_def sum.case using s q(2) r(2) w1
      by (intro conjI bexI [of _ "qs @ rs"]) (simp_all del: answered.simps map_append)
  qed simp
qed simp

section \<open>Events\<close>

text \<open>The service after changes of one connection only.\<close>

lemma service_same_clients:
  assumes inv: "server_inv w" and s: "same_clients l w w'" and l: "rtc3d_conns w l = Some rc" "rtc3d_conns w' l = Some rc'"
  shows "service_of w' = (service_of w)\<lparr>readers := (readers (service_of w))(fd_of l w \<mapsto> reader_of rc'),
    streaming := map (\<lambda>l. fd_of l w) (stream_clients w')\<rparr>"
proof -
  have "client_of sk w' = ((\<lambda>sk. client_of sk w)(fd_of l w \<mapsto> rc')) sk" for sk
  proof (cases "map_of (connection_data w) sk")
    case None
    have "map_of (connection_data w) (fd_of l w) \<noteq> None" using live_connection [OF inv l(1)] by (metis option.distinct(1))
    with None s show ?thesis by (auto simp: client_of_def same_clients_def)
  next
    case (Some c)
    with inv obtain conn rc1 where e: "net_conns w c = Some conn" "rtc3d_conns w (conn_local conn) = Some rc1"
      "fd_of (conn_local conn) w = sk" by (rule client_entry)
    have "conn_local conn = l \<longleftrightarrow> sk = fd_of l w" using fd_of_inj [OF inv, of "conn_local conn" l] e(2,3) l(1) by auto
    with Some e s l(2) show ?thesis by (auto simp: client_of_def same_clients_def)
  qed
  moreover have "fd_of l' w' = fd_of l' w" for l' using s by (rule same_clients_fd)
  ultimately show ?thesis using s by (auto simp: service_of_def same_clients_def fun_eq_iff)
qed

lemma service_fields:
  "service_of (w\<lparr>os_calls := n\<rparr>) = service_of w" "service_of (w\<lparr>sled := s\<rparr>) = service_of w"
  "service_of (w\<lparr>closed_fds := cs\<rparr>) = service_of w"
  by (simp_all add: service_of_def client_of_def [abs_def] fd_of_def [abs_def] cong: option.case_cong)

lemma readers_live:
  assumes "server_inv w" and "rtc3d_conns w l = Some rc"
  shows "readers (service_of w) (fd_of l w) = Some (reader_of rc)"
  using client_of_live [OF assms] by (simp add: service_of_def)

lemma receive_refines:
  assumes inv: "server_inv w" and c: "net_conns w c = Some conn" "rtc3d_conns w (conn_local conn) = Some rc"
    and d: "decent rc bs" and run: "read_handler command_handler c bs w = Inr w'"
  shows "\<exists>ps. service_step (service_of w) (Receive (conn_fd conn) bs) ps (service_of w') \<and> written w' = written w @ ps"
proof -
  let ?l = "conn_local conn" and ?ts = "texts (reader_of rc) bs"
  have sv: "serving (net_conns w) ?l w" using server_inv_serving [OF inv] c(2) by simp
  have "served_by command_handler ?l ?ts w (Inr w')" using read_handler_kept(2) [OF inv c d] run by simp
  from served_answers [OF this sv] d obtain ps where s: "same_clients ?l w w'"
    "stream_clients w' = fold (streams_after ?l) ?ts (stream_clients w)" and ps: "answered ?ts ps"
    "written w' = written w @ map (Pair (fd_of ?l w)) ps" by (auto simp: answers_def decent_def)
  from read_handler_kept(3) [OF inv c d run] obtain rc' where rc': "rtc3d_conns w' ?l = Some rc'"
    "reader_of rc' = reader_after (reader_of rc) bs" by blast
  have fd: "fd_of ?l w = conn_fd conn"
  proof -
    from inv c(1) have "rtc3d_owner w ?l = Some c" by (simp add: server_inv_def server_inv_but_def pairing_def)
    with c(1) show ?thesis by (simp add: fd_of_owner)
  qed
  have "map (\<lambda>l. fd_of l w) (fold (streams_after ?l) ?ts (stream_clients w))
      = fold (streams_after (fd_of ?l w)) ?ts (map (\<lambda>l. fd_of l w) (stream_clients w))"
    by (rule streams_after_fold, rule fd_inj_on [OF inv]) (simp add: c(2))
  then have "service_of w' = (service_of w)\<lparr>readers := (readers (service_of w))(conn_fd conn \<mapsto> reader_after (reader_of rc) bs),
      streaming := fold (streams_after (conn_fd conn)) ?ts (streaming (service_of w))\<rparr>"
    unfolding service_same_clients [OF inv s(1) c(2) rc'(1)] s(2) rc'(2) fd by (simp add: service_of_def)
  moreover have "readers (service_of w) (conn_fd conn) = Some (reader_of rc)" using readers_live [OF inv c(2)] fd by simp
  ultimately show ?thesis using step_receive [OF _ ps(1)] ps(2) fd by metis
qed

lemma disconnect_computes:
  assumes inv: "server_inv w" and c: "net_conns w c = Some conn"
  shows "net_disconnect (disconnect_handler disconnected) c w
    = Inr (w\<lparr>stream_clients := removeAll (conn_local conn) (stream_clients w),
        rtc3d_conns := (rtc3d_conns w)(conn_local conn := None),
        connection_data := map_erase (conn_fd conn) (connection_data w),
        read_events := remove1 (conn_fd conn) (read_events w),
        closed_fds := closed_fds w @ [conn_fd conn], net_conns := (net_conns w)(c := None)\<rparr>)"
proof -
  from inv c obtain rc where rc: "rtc3d_conns w (conn_local conn) = Some rc" "net_conn rc = c"
    by (auto simp: server_inv_def server_inv_but_def pairing_def rtc3d_owner_def)
  have "conn_local conn \<noteq> 0" "c \<noteq> 0" "net_disconnect_handler w" "rtc3d_disconnect_handler w"
    using inv rc(1) c by (auto simp: server_inv_def server_inv_but_def addresses_ok_def map_ok_def)
  with rc c show ?thesis
    by (simp add: net_disconnect_def deref_conn_def disconnect_handler_def net_get_local_data_def free_rtc3d_def
        disconnected_def rtc3d_get_global_data_def deref_rtc3d_def stream_remove_def)
qed

lemma map_of_erase: "map_of (map_erase sk m) = (map_of m)(sk := None)"
  unfolding map_erase_def by (induction m) (auto simp: fun_eq_iff)

lemma map_of_put:
  assumes "distinct (map fst m)"
  shows "map_of (map_put sk c m) = (map_of m)(sk \<mapsto> c)"
proof -
  have "map_of (map_put sk c m) x = Some y \<longleftrightarrow> ((map_of m)(sk \<mapsto> c)) x = Some y" for x y
    using assms map_put_sorted(2) [OF assms, of sk c] by auto
  then show ?thesis by (metis ext option.exhaust)
qed

lemma client_fd:
  assumes inv: "server_inv w" and c: "net_conns w c = Some conn"
  shows "\<exists>rc. rtc3d_conns w (conn_local conn) = Some rc \<and> net_conn rc = c" and "fd_of (conn_local conn) w = conn_fd conn"
proof -
  from inv c have "rtc3d_owner w (conn_local conn) = Some c" by (simp add: server_inv_def server_inv_but_def pairing_def)
  with c show "fd_of (conn_local conn) w = conn_fd conn" "\<exists>rc. rtc3d_conns w (conn_local conn) = Some rc \<and> net_conn rc = c"
    by (auto simp: fd_of_owner) (auto simp: rtc3d_owner_def)
qed

lemma leave_refines:
  assumes inv: "server_inv w" and c: "net_conns w c = Some conn"
    and run: "net_disconnect (disconnect_handler disconnected) c w = Inr w'"
  shows "service_step (service_of w) (Leave (conn_fd conn)) [] (service_of w')" and "written w' = written w"
proof -
  let ?l = "conn_local conn" and ?sk = "conn_fd conn"
  from client_fd(1) [OF inv c] obtain rc where rc: "rtc3d_conns w ?l = Some rc" by blast
  note fd = client_fd(2) [OF inv c]
  have w': "stream_clients w' = removeAll ?l (stream_clients w)" "rtc3d_conns w' = (rtc3d_conns w)(?l := None)"
    "connection_data w' = map_erase ?sk (connection_data w)" "net_conns w' = (net_conns w)(c := None)"
    "frame w' = frame w" and out: "written w' = written w"
    using run unfolding disconnect_computes [OF inv c] by auto
  show "written w' = written w" by (rule out)
  have other: "net_conns w' c' = Some conn' \<and> rtc3d_conns w' l' = rtc3d_conns w l'"
    if "net_conns w c' = Some conn'" "conn_local conn' = l'" "l' \<noteq> ?l" for c' conn' l'
    using that c w'(2,4) by auto
  have "client_of sk w' = ((\<lambda>sk. client_of sk w)(?sk := None)) sk" for sk
  proof (cases "map_of (connection_data w) sk")
    case None
    then show ?thesis by (simp add: client_of_def w'(3) map_of_erase)
  next
    case (Some c')
    with inv obtain conn' rc' where e: "net_conns w c' = Some conn'" "rtc3d_conns w (conn_local conn') = Some rc'"
      "fd_of (conn_local conn') w = sk" by (rule client_entry)
    have "conn_local conn' \<noteq> ?l" if "sk \<noteq> ?sk" using that e(3) fd by auto
    with Some other [OF e(1) refl] e show ?thesis by (auto simp: client_of_def w'(3) map_of_erase)
  qed
  moreover have "map (\<lambda>l. fd_of l w') (removeAll ?l (stream_clients w)) = map (\<lambda>l. fd_of l w) (removeAll ?l (stream_clients w))"
  proof (rule map_cong [OF refl])
    fix l' assume "l' \<in> set (removeAll ?l (stream_clients w))"
    with inv have l': "l' \<noteq> ?l" "rtc3d_conns w l' \<noteq> None"
      by (auto simp: server_inv_def server_inv_but_def server_rest_def)
    then obtain rc' where rc': "rtc3d_conns w l' = Some rc'" by auto
    with inv obtain conn' where "net_conns w (net_conn rc') = Some conn'" "conn_local conn' = l'" by (rule live_connection)
    with other [OF this l'(1)] rc' show "fd_of l' w' = fd_of l' w" by (simp add: fd_of_def)
  qed
  moreover have "map (\<lambda>l. fd_of l w) (removeAll ?l (stream_clients w)) = removeAll ?sk (map (\<lambda>l. fd_of l w) (stream_clients w))"
    using map_removeAll_inj_on [OF fd_inj_on [OF inv, of ?l]] rc fd by simp
  ultimately have "service_of w' = (service_of w)\<lparr>readers := (readers (service_of w))(?sk := None),
      streaming := removeAll ?sk (streaming (service_of w))\<rparr>"
    by (auto simp: service_of_def w'(1,5) fun_eq_iff)
  with step_leave [of "service_of w" ?sk] readers_live [OF inv rc] fd
  show "service_step (service_of w) (Leave ?sk) [] (service_of w')" by simp
qed

lemma accept_computes:
  assumes inv: "server_inv w" and g: "event_granted w" "buffer_granted w"
    and run: "handle_server_event Ev_accept w = Inr w'"
  shows "rtc3d_conns w' = (rtc3d_conns w)(next_rtc3d w \<mapsto> new_rtc3d_connection (next_conn w))"
    "net_conns w' = (net_conns w)(next_conn w \<mapsto> \<lparr>conn_fd = next_fd w, conn_local = next_rtc3d w\<rparr>)"
    "connection_data w' = map_put (next_fd w) (next_conn w) (connection_data w)"
    "stream_clients w' = stream_clients w" "frame w' = frame w" "written w' = written w"
    "tcp_os w' = tcp_os w" "read_events w' = next_fd w # read_events w"
  using run g inv
  by (auto simp: net_on_new_connection_def accept_client_def os_call_def event_granted_def buffer_granted_def
      next_fd_def connect_handler_def put_rtc3d_def deref_conn_def when_step_def server_inv_def server_inv_but_def Let_def
      map_ok_def split: if_splits)

lemma join_refines:
  assumes inv: "server_inv w" and a: "admissible Ev_accept w" and g: "event_granted w"
    and run: "handle_server_event Ev_accept w = Inr w'"
  shows "service_step (service_of w) (Join (next_fd w)) [] (service_of w')" and "written w' = written w"
proof -
  let ?sk = "next_fd w"
  have b: "buffer_granted w" "?sk \<notin> fst ` set (connection_data w)" using a g by simp_all
  note w' = accept_computes [OF inv g b(1) run]
  show "written w' = written w" by (rule w'(6))
  from inv have m: "map_ok w" and ad: "addresses_ok w" by (simp_all add: server_inv_def server_inv_but_def)
  have fresh: "net_conns w (next_conn w) = None" "rtc3d_conns w (next_rtc3d w) = None"
    using m ad by (auto simp: map_ok_def addresses_ok_def)
      (metis not_None_eq less_irrefl)+
  have new: "map_of (connection_data w) ?sk = None" using b(2) by (simp add: map_of_eq_None_iff)
  have "client_of sk w' = ((\<lambda>sk. client_of sk w)(?sk \<mapsto> new_rtc3d_connection (next_conn w))) sk" for sk
  proof (cases "map_of (connection_data w) sk")
    case None
    then show ?thesis using m by (simp add: client_of_def w'(1-3) map_of_put map_ok_def)
  next
    case (Some c')
    with inv obtain conn' rc' where e: "net_conns w c' = Some conn'" "rtc3d_conns w (conn_local conn') = Some rc'"
      by (rule client_entry)
    have "c' \<noteq> next_conn w" "conn_local conn' \<noteq> next_rtc3d w" "sk \<noteq> ?sk" using fresh e new Some by auto
    with Some e m show ?thesis by (simp add: client_of_def w'(1-3) map_of_put map_ok_def)
  qed
  moreover have "fd_of l w' = fd_of l w" if "rtc3d_conns w l = Some rc" for l rc
  proof -
    from inv that obtain conn where "net_conns w (net_conn rc) = Some conn" by (rule live_connection)
    with that fresh show ?thesis by (auto simp: fd_of_def w'(1,2))
  qed
  then have "map (\<lambda>l. fd_of l w') (stream_clients w) = map (\<lambda>l. fd_of l w) (stream_clients w)"
    using inv by (auto simp: server_inv_def server_inv_but_def server_rest_def)
  ultimately have "service_of w' = (service_of w)\<lparr>readers := (readers (service_of w))(?sk \<mapsto> Header [])\<rparr>"
    by (auto simp: service_of_def w'(4,5) fun_eq_iff fresh_reader)
  moreover have "readers (service_of w) ?sk = None" using new by (simp add: service_of_def client_of_def)
  ultimately show "service_step (service_of w) (Join ?sk) [] (service_of w')" using step_join by simp
qed

lemma sample_refines:
  assumes inv: "server_inv w" and run: "on_timeout w = Inr w'"
  shows "\<exists>ps. service_step (service_of w) Sample ps (service_of w') \<and> written w' = written w @ ps"
proof -
  from timeout_cases [OF inv] run obtain us pt where w': "frame w' = frame w + 1" "stream_clients w' = stream_clients w"
    "rtc3d_conns w' = rtc3d_conns w" "net_conns w' = net_conns w" "connection_data w' = connection_data w"
    and out: "written w' = written w
      @ map (\<lambda>l. (fd_of l w, rtc3d_data_packet (word_of_int (frame w)) us pt)) (stream_clients w)" by auto
  have "service_of w' = (service_of w)\<lparr>number := number (service_of w) + 1\<rparr>"
    using w' by (simp add: service_of_def client_of_def [abs_def] fd_of_def [abs_def] cong: option.case_cong)
  with out show ?thesis using step_sample [of "service_of w" us pt] by (auto simp: service_of_def comp_def)
qed

text \<open>One event.\<close>

lemma read_refines:
  assumes inv: "server_inv w" and a: "admissible (Ev_read sk) w" and run: "handle_server_event (Ev_read sk) w = Inr w'"
  shows "\<exists>ps. service_run (service_of w) (input_of (Ev_read sk) w) ps (service_of w') \<and> written w' = written w @ ps"
proof -
  from inv a obtain c conn rc where c: "net_conns w c = Some conn" "conn_fd conn = sk"
    "rtc3d_conns w (conn_local conn) = Some rc" "client_of sk w = Some rc" by (auto elim: client_of_fd)
  let ?w = "w\<lparr>os_calls := Suc (os_calls w)\<rparr>"
  have inv': "server_inv ?w" by (rule server_inv_os_calls [OF inv])
  show ?thesis
  proof (cases "os_read (tcp_os w) (os_calls w) \<in> {None, Some []}")
    case True
    then have "handle_server_event (Ev_read sk) w = net_disconnect (disconnect_handler disconnected) c ?w"
      using connection_at_live [of ?w c conn] inv' c(1,2)
      by (auto simp: net_on_read_def os_call_def Let_def server_inv_def server_inv_but_def)
    with leave_refines [OF inv', of c conn w'] c(1,2) run True show ?thesis
      by (auto simp: service_fields dest: service_run_one)
  next
    case False
    then obtain bs where bs: "os_read (tcp_os w) (os_calls w) = Some bs" "bs \<noteq> []" by auto
    with a c(4) have d: "length bs \<le> BUFFER_SIZE" "decent rc bs" by simp_all
    have "sv.srv.tcp_inv w" using inv by (simp add: server_inv_iff)
    from sv.srv.data_delivered [OF this c(1) bs d(1)] c(2) run
    have "read_handler command_handler c bs ?w = Inr w'" by simp
    with receive_refines [OF inv', of c conn rc bs w'] c d(2) obtain ps where
      "service_step (service_of w) (Receive sk bs) ps (service_of w')" "written w' = written w @ ps"
      by (auto simp: service_fields)
    with bs show ?thesis by (auto dest: service_run_one)
  qed
qed

lemma in_sled_refines:
  assumes "in_sled f w = Inr w'"
  shows "service_of w' = service_of w" and "written w' = written w"
proof -
  from assms obtain s where "w' = w\<lparr>sled := s\<rparr>" by (cases "f (sled w)") (auto simp: in_sled_def)
  then show "service_of w' = service_of w" and "written w' = written w" by (simp_all add: service_fields)
qed

lemma event_refines:
  assumes inv: "server_inv w" and a: "admissible ev w" and run: "handle_server_event ev w = Inr w'"
  shows "\<exists>ps. service_run (service_of w) (input_of ev w) ps (service_of w') \<and> written w' = written w @ ps"
proof (cases ev)
  case Ev_accept
  show ?thesis
  proof (cases "event_granted w")
    case True
    with join_refines [of w w'] inv a run Ev_accept show ?thesis by (auto dest: service_run_one)
  next
    case False
    then have "service_of w' = service_of w" "written w' = written w" using run
      by (auto simp: Ev_accept net_on_new_connection_def accept_client_def os_call_def event_granted_def close_fd_def
          Let_def service_fields split: if_splits)
    with False Ev_accept show ?thesis by (simp add: service_done)
  qed
next
  case (Ev_read sk)
  with read_refines assms show ?thesis by blast
next
  case (Ev_client sk failed)
  with inv a obtain c conn where c: "net_conns w c = Some conn" "conn_fd conn = sk" by (auto elim: client_of_fd)
  moreover have "map_ok w" using inv by (simp add: server_inv_def server_inv_but_def)
  ultimately show ?thesis using leave_refines [OF inv c(1), of w'] connection_at_live [of w c conn] run Ev_client
    by (auto simp: net_on_client_event_def service_done intro: service_run_one)
next
  case Ev_timeout
  with sample_refines [OF inv] run show ?thesis by (auto dest: service_run_one)
next
  case Ev_bus
  with in_sled_refines [of intf_on_read w w'] run show ?thesis by (simp add: service_done)
next
  case Ev_watchdog
  with in_sled_refines [of nmt_watchdog w w'] run show ?thesis by (simp add: service_done)
qed

lemma run_refines:
  assumes "server_run w evs (Inr w')" and "server_inv w"
  shows "\<exists>ps. service_run (service_of w) (inputs_of evs w) ps (service_of w') \<and> written w' = written w @ ps"
  using assms
proof (induction w evs "Inr w' :: 'a server_env_scheme outcome" rule: server_run.induct)
  case run_end
  then show ?case by (simp add: service_done)
next
  case (run_event ev w w1 evs)
  from event_kept [OF run_event.prems run_event.hyps(1)] run_event.hyps(2) have "server_inv w1" by simp
  from run_event.hyps(4) [OF this] event_refines [OF run_event.prems run_event.hyps(1,2)] run_event.hyps(2)
  show ?case by (auto dest: service_run_append)
qed

section \<open>The server refines the service\<close>

definition idle_service :: "int \<Rightarrow> service" where
  "idle_service n = \<lparr>readers = Map.empty, streaming = [], number = n\<rparr>"

lemma setup_refines:
  assumes "fresh_process w" and "setup_sled_server_context w = Inr (True, w1)" and "server_run w1 evs (Inr w')"
  obtains ps where "service_run (idle_service (frame w)) (inputs_of evs w1) ps (service_of w')" "written w' = written w @ ps"
proof -
  note w1 = setup_inv [OF assms(1,2)]
  have "service_of w1 = idle_service (frame w)" by (simp add: service_of_def idle_service_def client_of_def w1(2-4))
  with run_refines [OF assms(3) w1(1)] w1(5) that show thesis by auto
qed

text \<open>
  C3: the server does what the service promises. The server is created in a fresh process and then
  given any sequence of events, as long as descriptors and buffers are granted and clients send short packets and no
  \<^verbatim>\<open>bye\<close>. Then all that it has written, packet by packet and in order, is what the abstract service
  sends on the same input: to every command of a client one of the answers the command has, to that client; with every timeout
  a frame with the next number to every client that has asked for the stream and has not stopped it since, and to no other.
  A client that leaves is forgotten; and a descriptor that is used again starts anew, outside of any packet and without a stream.
\<close>

theorem server_refines_service:
  assumes "fresh_process w" and "setup_sled_server_context w = Inr (True, w1)" and "server_run w1 evs (Inr w')"
  shows "\<exists>ps. written w' = written w @ ps
    \<and> service_run (idle_service (frame w)) (inputs_of evs w1) ps (service_of w')"
  using setup_refines [OF assms] by metis

section \<open>What a client receives\<close>

lemma texts_ok [simp]: "length t < 1000 \<Longrightarrow> packet_ok (ok_packet t)" "length t < 1000 \<Longrightarrow> packet_ok (err_packet t)"
  by (simp_all add: ok_packet_def err_packet_def ascii_def text_packet_ok)

lemma command_replies_ok: "ps \<in> command_replies c type \<Longrightarrow> p \<in> set ps \<Longrightarrow> packet_ok p"
  by (cases type) (auto simp: either_def data_packet_ok split: if_splits)

lemma replies_ok: "ps \<in> replies t \<Longrightarrow> p \<in> set ps \<Longrightarrow> packet_ok p"
  by (auto simp: replies_def command_replies_ok split: option.splits)

lemma answered_ok: "answered ts ps \<Longrightarrow> p \<in> set ps \<Longrightarrow> packet_ok p"
  by (induction ts arbitrary: ps) (auto dest: replies_ok)

lemma streams_after_set: "set (streams_after x t xs) \<subseteq> insert x (set xs)"
  by (auto simp: streams_after_def command_streams_def split: option.splits if_splits)

lemma streams_fold_set: "set (fold (streams_after x) ts xs) \<subseteq> insert x (set xs)"
  by (induction ts arbitrary: xs) (use streams_after_set in fastforce)+

lemma service_step_sends:
  assumes "service_step s i ps s1" and "set (streaming s) \<subseteq> dom (readers s)"
  shows "set (streaming s1) \<subseteq> dom (readers s1)" and "dom (readers s1) \<subseteq> dom (readers s) \<union> {sk. i = Join sk}"
    and "(sk, p) \<in> set ps \<Longrightarrow> packet_ok p \<and> sk \<in> dom (readers s)"
proof -
  show "set (streaming s1) \<subseteq> dom (readers s1)"
    using assms streams_fold_set [of _ _ "streaming s"] by (cases rule: service_step.cases) (simp; blast)+
  show "dom (readers s1) \<subseteq> dom (readers s) \<union> {sk. i = Join sk}"
    using assms(1) by (cases rule: service_step.cases) (auto simp: dom_def split: if_splits)
  show "(sk, p) \<in> set ps \<Longrightarrow> packet_ok p \<and> sk \<in> dom (readers s)"
    using assms by (cases rule: service_step.cases) (auto simp: data_packet_ok dest: answered_ok)
qed

lemma service_sends:
  assumes "service_run s is ps s'" and "set (streaming s) \<subseteq> dom (readers s)" and "(sk, p) \<in> set ps"
  shows "packet_ok p \<and> (sk \<in> dom (readers s) \<or> Join sk \<in> set is)"
  using assms
proof (induction rule: service_run.induct)
  case (service_more s i ps s1 "is" qs s2)
  note step = service_step_sends [OF service_more.hyps(1) service_more.prems(1)]
  show ?case
  proof (cases "(sk, p) \<in> set ps")
    case True
    with step(3) show ?thesis by simp
  next
    case False
    with service_more.prems(2) have "(sk, p) \<in> set qs" by simp
    with service_more.IH [OF step(1)] step(2) show ?thesis by auto
  qed
qed simp

text \<open>The packets that have been sent to a descriptor.\<close>

definition sent_to :: "int \<Rightarrow> (int \<times> buffer) list \<Rightarrow> buffer list" where
  "sent_to sk ps = map snd (filter (\<lambda>p. fst p = sk) ps)"

text \<open>
  C12: all output is well formed. Whatever happens after the server has been created, on the terms of the lifecycle,
  every packet it writes has all of its bytes assigned, a size field that is the length of the packet,
  and the type of an error, a command or a data frame; so that a client that splits what it receives by the size
  fields gets exactly the packets that were sent, and nothing is left. And nothing is written to a descriptor
  that no client has connected under.
\<close>

theorem output_well_formed:
  assumes "fresh_process w" and "setup_sled_server_context w = Inr (True, w1)" and "server_run w1 evs (Inr w')"
  shows "\<exists>ps. written w' = written w @ ps \<and> (\<forall>(sk, p) \<in> set ps. packet_ok p \<and> Join sk \<in> set (inputs_of evs w1))
    \<and> (\<forall>sk. split_packets (concat (map (map the) (sent_to sk ps))) = (map (map the) (sent_to sk ps), []))"
proof -
  from assms obtain ps where ps: "service_run (idle_service (frame w)) (inputs_of evs w1) ps (service_of w')"
    "written w' = written w @ ps" by (rule setup_refines)
  from service_sends [OF ps(1)] have ok: "\<forall>(sk, p) \<in> set ps. packet_ok p \<and> Join sk \<in> set (inputs_of evs w1)"
    by (auto simp: idle_service_def)
  have "split_packets (concat (map (map the) (sent_to sk ps))) = (map (map the) (sent_to sk ps), [])" for sk
    by (rule split_packets_all) (use ok in \<open>auto simp: sent_to_def\<close>)
  with ps(2) ok show ?thesis by blast
qed

text \<open>A client connects and asks for the stream.\<close>

definition stream_start :: "u8 list" where
  "stream_start = ascii ''streamframes''"

definition start_bytes :: "u8 list" where
  "start_bytes = packet_bytes stream_start"

lemma stream_start_parsed:
  "parser_parse_string stream_start = Inr (Some (request_command (Stream_frames None)))"
  "cmd_type (request_command (Stream_frames None)) = Some cmd_streamframes" "cmd_boolean (request_command (Stream_frames None)) = Some True"
  by code_simp+

lemma stream_start_ok: "short_text stream_start" "length start_bytes \<le> BUFFER_SIZE" "start_bytes \<noteq> []"
  by code_simp+

lemma stream_start_not_bye: "not_bye stream_start"
  using stream_start_parsed(1,2) by (simp add: not_bye_def del: request_command.simps)

lemma start_texts: "texts (Header []) start_bytes = [stream_start]" "polite (Header []) start_bytes"
  using texts_of_packets [of "[stream_start]"] stream_start_ok(1) by (simp_all add: start_bytes_def)

lemma stream_start_returns:
  assumes "serving N l w"
  shows "\<exists>w'. command_handler l stream_start w = Inr w'"
proof -
  let ?c = "request_command (Stream_frames None)"
  from assms obtain rc conn where "l \<noteq> 0" "rtc3d_conns w l = Some rc" "net_conn rc \<noteq> 0"
    "net_conns w (net_conn rc) = Some conn" by (rule serving_conn)
  then have "command_handler l stream_start w = command_streamframes l ?c w"
    using stream_start_parsed(1,2)
    by (simp add: command_handler_def rtc3d_get_global_data_def deref_rtc3d_def deref_conn_def read_determined_def
        del: request_command.simps)
  then show ?thesis using reply_serving(1) [OF stream_serving(2) [OF assms]] stream_start_parsed(3)
    by (simp add: command_streamframes_def read_determined_def Let_def del: request_command.simps)
qed

lemma start_read:
  assumes inv: "server_inv w" and c: "net_conns w c = Some conn" "rtc3d_conns w (conn_local conn) = Some rc"
    and r: "reader_of rc = Header []"
  shows "\<exists>w'. read_handler command_handler c start_bytes w = Inr w'"
proof (cases "read_handler command_handler c start_bytes w")
  case (Inl e)
  have d: "decent rc start_bytes" using start_texts stream_start_not_bye by (simp add: decent_def r)
  have sv: "serving (net_conns w) (conn_local conn) w" using server_inv_serving [OF inv] c(2) by simp
  from read_handler_kept(2) [OF inv c d] Inl r start_texts(1)
  have "served_by command_handler (conn_local conn) [stream_start] w (Inl e)" by simp
  then obtain w1 where w1: "reader_step (conn_local conn) w w1" "command_handler (conn_local conn) stream_start w1 = Inl e"
    by (auto elim!: served_by_ConsE served_by_NilE)
  from stream_start_returns [OF serving_reader_step [OF sv w1(1)]] w1(2) show ?thesis by simp
qed simp

lemma client_starts:
  "\<exists>w1 w'. setup_sled_server_context (process_reading (\<lambda>_. Some start_bytes)) = Inr (True, w1)
    \<and> server_run w1 [Ev_accept, Ev_read 5] (Inr w') \<and> inputs_of [Ev_accept, Ev_read 5] w1 = [Join 5, Receive 5 start_bytes]"
proof -
  let ?w = "process_reading (\<lambda>_. Some start_bytes)"
  from process_reading_setup obtain w1 where w1: "setup_sled_server_context ?w = Inr (True, w1)" "connection_data w1 = []"
    "tcp_os w1 = sample_tcp_os\<lparr>os_read := \<lambda>_. Some start_bytes\<rparr>" by blast
  have inv1: "server_inv w1" by (rule setup_inv(1) [OF process_reading_fresh w1(1)])
  have g: "event_granted w1" "buffer_granted w1" "next_fd w1 = 5"
    using w1(3) by (simp_all add: event_granted_def buffer_granted_def next_fd_def sample_tcp_os_def)
  have a1: "admissible Ev_accept w1" using g w1(2) by simp
  have "\<exists>w2. handle_server_event Ev_accept w1 = Inr w2"
    using sv.srv.accepted_ok [of w1] inv1 g w1(2) by (auto simp: server_inv_iff)
  then obtain w2 where w2: "handle_server_event Ev_accept w1 = Inr w2" by blast
  have inv2: "server_inv w2" using event_kept [OF inv1 a1] w2 by simp
  note f = accept_computes [OF inv1 g(1,2) w2]
  let ?c = "next_conn w1" and ?l = "next_rtc3d w1"
  have c: "net_conns w2 ?c = Some \<lparr>conn_fd = 5, conn_local = ?l\<rparr>" "rtc3d_conns w2 ?l = Some (new_rtc3d_connection ?c)"
    using f(1,2) g(3) by simp_all
  have os: "os_read (tcp_os w2) n = Some start_bytes" for n using f(7) w1(3) by simp
  have "client_of 5 w2 = Some (new_rtc3d_connection ?c)"
    using c f(3) g(3) w1(2) by (simp add: client_of_def map_put_def map_erase_def)
  then have a2: "admissible (Ev_read 5) w2"
    using f(8) g(3) os stream_start_ok(2) start_texts stream_start_not_bye by (simp add: decent_def fresh_reader)
  let ?w2 = "w2\<lparr>os_calls := Suc (os_calls w2)\<rparr>"
  have "sv.srv.tcp_inv w2" using inv2 by (simp add: server_inv_iff)
  from sv.srv.data_delivered [OF this c(1) os stream_start_ok(3,2)]
  have "handle_server_event (Ev_read 5) w2 = read_handler command_handler ?c start_bytes ?w2" by simp
  with start_read [OF server_inv_os_calls [OF inv2, of "Suc (os_calls w2)"], of ?c, simplified, OF c(1), simplified,
      OF c(2) fresh_reader]
  obtain w' where "handle_server_event (Ev_read 5) w2 = Inr w'" by auto
  then have "server_run w1 [Ev_accept, Ev_read 5] (Inr w')"
    and "inputs_of [Ev_accept, Ev_read 5] w1 = [Join 5, Receive 5 start_bytes]"
    using a1 a2 w2 g os stream_start_ok(3) by (auto intro!: run_event [OF a1 w2] run_event [OF a2] run_end)
  with w1(1) show ?thesis by blast
qed

lemma service_starts:
  assumes "service_run (idle_service 0) [Join 5, Receive 5 start_bytes] ps s'"
  shows "ps = [(5, ok_packet ''ok-streamframes'')]" and "streaming s' = [5]"
proof -
  from assms have "\<exists>qs. answered [stream_start] qs \<and> ps = map (Pair 5) qs
    \<and> streaming s' = fold (streams_after 5) [stream_start] []"
    by (auto elim!: service_run_ConsE service_run_NilE step_joinE step_receiveE
        simp: idle_service_def start_texts simp del: map_eq_conv) blast
  then show "ps = [(5, ok_packet ''ok-streamframes'')]" "streaming s' = [5]"
    using stream_start_parsed
    by (auto simp: replies_def parsed_def streams_after_def command_streams_def simp del: request_command.simps)
qed

lemma process_reading_fields: "frame (process_reading f) = 0" "written (process_reading f) = []"
  by (simp_all add: process_reading_def started_process_def)

theorem server_refines_service_witness:
  "\<exists>w1 w'. setup_sled_server_context (process_reading (\<lambda>_. Some start_bytes)) = Inr (True, w1)
    \<and> server_run w1 [Ev_accept, Ev_read 5] (Inr w')
    \<and> written w' = [(5, ok_packet ''ok-streamframes'')] \<and> streaming (service_of w') = [5]"
proof -
  from client_starts obtain w1 w' where
    w: "setup_sled_server_context (process_reading (\<lambda>_. Some start_bytes)) = Inr (True, w1)"
    "server_run w1 [Ev_accept, Ev_read 5] (Inr w')" "inputs_of [Ev_accept, Ev_read 5] w1 = [Join 5, Receive 5 start_bytes]" by blast
  from server_refines_service [OF process_reading_fresh w(1,2)] w service_starts show ?thesis
    by (auto simp: process_reading_fields)
qed

theorem output_well_formed_witness:
  "\<exists>w1 w'. setup_sled_server_context (process_reading (\<lambda>_. Some start_bytes)) = Inr (True, w1)
    \<and> server_run w1 [Ev_accept, Ev_read 5] (Inr w')
    \<and> (\<forall>(sk, p) \<in> set (written w'). packet_ok p \<and> sk = 5)
    \<and> split_packets (concat (map (map the) (sent_to 5 (written w')))) = (map (map the) (sent_to 5 (written w')), [])"
proof -
  from client_starts obtain w1 w' where
    w: "setup_sled_server_context (process_reading (\<lambda>_. Some start_bytes)) = Inr (True, w1)"
    "server_run w1 [Ev_accept, Ev_read 5] (Inr w')" "inputs_of [Ev_accept, Ev_read 5] w1 = [Join 5, Receive 5 start_bytes]" by blast
  from output_well_formed [OF process_reading_fresh w(1,2), unfolded w(3) process_reading_fields]
  have "\<forall>(sk, p) \<in> set (written w'). packet_ok p \<and> sk = 5"
    "split_packets (concat (map (map the) (sent_to 5 (written w')))) = (map (map the) (sent_to 5 (written w')), [])" by auto
  with w(1,2) show ?thesis by blast
qed

end
