(* ===== verification/Server_Limits.thy ===== *)
theory Server_Limits
  imports Server_Service
begin

text \<open>
  The stream of frames, the end of the server, and the requests and failures that the server does
  not survive.
\<close>

section \<open>Streaming\<close>

text \<open>
  C19: streaming. A timeout sends one data frame to every client that asked for the stream, with the
  number of the frame, and none to any other client; the stream goes on with the next number.
  As compiled, the coordinate of the frame is the time in milliseconds, modulo ten seconds, and not the position of the sled.
\<close>

theorem frames_streamed:
  assumes "server_inv w"
  shows "distinct (stream_clients w) \<and> (case on_timeout w of
      Inl e \<Rightarrow> e \<in> sled_stops
    | Inr w' \<Rightarrow> frame w' = frame w + 1 \<and> stream_clients w' = stream_clients w
        \<and> (\<exists>us. written w' = written w @ map (\<lambda>l. (fd_of l w, rtc3d_data_packet (word_of_int (frame w)) us
             (bits_of_float (to_float (d_mul (fmod10 (fst (get_time (sled w)))) (Fin 1000)))))) (stream_clients w)))"
  using timeout_cases [OF assms] assms
  by (auto simp: server_inv_def server_inv_but_def server_rest_def)

theorem frames_streamed_witness:
  "case on_timeout sample_client of Inl e \<Rightarrow> e \<in> sled_stops
   | Inr w' \<Rightarrow> frame w' = 1 \<and> (\<exists>us. written w' = [(5, rtc3d_data_packet 0 us
       (bits_of_float (to_float (d_mul (fmod10 (fst (get_time (sled sample_client)))) (Fin 1000)))))])"
  using frames_streamed [OF sample_client_inv] by (simp add: sample_client_fields split: sum.splits)

section \<open>Requests that are not handled as they should\<close>

lemma handler_runs:
  assumes "serving N l w" and "parser_parse_string t = Inr (Some c)" and "cmd_type c = Some type"
  shows "command_handler l t w = run_command l c type w"
proof -
  from assms(1) obtain rc conn where "l \<noteq> 0" "rtc3d_conns w l = Some rc" "net_conn rc \<noteq> 0"
    "net_conns w (net_conn rc) = Some conn" by (rule serving_conn)
  with assms(2,3) show ?thesis
    by (simp add: command_handler_def rtc3d_get_global_data_def deref_rtc3d_def deref_conn_def read_determined_def)
qed

lemma bye_frees:
  assumes "serving N l w"
  shows "\<exists>w'. command_bye l w = Inr w' \<and> rtc3d_conns w' l = None"
proof -
  let ?w = "sent_packet l (rtc3d_command_packet (ascii ''bye'')) w"
  have r: "reply l ''bye'' w = Inr ?w" by (rule reply_serving [OF assms])
  have sv: "serving N l ?w" by (rule serving_sent [OF assms])
  then have h: "net_disconnect_handler ?w" "rtc3d_disconnect_handler ?w" by (simp_all add: serving_def server_inv_but_def)
  from sv obtain rc conn where c: "l \<noteq> 0" "rtc3d_conns ?w l = Some rc" "net_conn rc \<noteq> 0"
    "net_conns ?w (net_conn rc) = Some conn" "conn_local conn = l" by (rule serving_conn)
  then have d: "disconnected l ?w = Inr (stream_remove l ?w)"
    by (simp add: disconnected_def rtc3d_get_global_data_def deref_rtc3d_def deref_conn_def)
  have k: "net_conns (stream_remove l ?w) = net_conns ?w" "rtc3d_conns (stream_remove l ?w) = rtc3d_conns ?w"
    by (simp_all add: stream_remove_def)
  have "\<exists>w'. rtc3d_disconnect disconnected l ?w = Inr w' \<and> rtc3d_conns w' l = None"
    using c h d k by (simp add: rtc3d_disconnect_def deref_rtc3d_def net_disconnect_def deref_conn_def
        disconnect_handler_def net_get_local_data_def free_rtc3d_def)
  with r show ?thesis by (simp add: command_bye_def)
qed

lemma reader_after_payload:
  "length ps + length xs < n \<Longrightarrow> reader_after (Payload n ps) xs = Payload n (ps @ xs)"
  by (induction xs arbitrary: ps) simp_all

lemma packet_but_last:
  assumes "short_text t" and "be32 PTYPE_COMMAND @ t = ps @ [x]"
  shows "packet_bytes t = (be32 (of_nat (8 + length t)) @ ps) @ [x]"
    and "texts (Header []) (be32 (of_nat (8 + length t)) @ ps) = []"
    and "polite (Header []) (be32 (of_nat (8 + length t)) @ ps)"
    and "reader_after (Header []) (be32 (of_nat (8 + length t)) @ ps) = Payload (4 + length t) ps"
proof -
  let ?v = "of_nat (8 + length t) :: u32"
  have n: "unat ?v - 4 = 4 + length t"
    using unat_small [where 'a = 32, of "8 + length t"] assms(1) by (simp add: short_text_def)
  from assms(2) have "length (be32 PTYPE_COMMAND @ t) = length (ps @ [x])" by (simp only:)
  then have len: "length ps = 3 + length t" by simp
  then have f: "length ps < 4 + length t - length ([] :: u8 list)" "length ([] :: u8 list) < 4 + length t" by simp_all
  show "packet_bytes t = (be32 ?v @ ps) @ [x]" using assms(2) by (simp add: packet_bytes_def)
  show "texts (Header []) (be32 ?v @ ps) = []"
    using feed_payload(1) [OF f, of "[]"] n by (simp add: texts_def feed_header map_filter_simps)
  show "polite (Header []) (be32 ?v @ ps)"
    using feed_payload(2) [OF f, of "[]"] n assms(1) by (simp add: feed_header short_text_def)
  have "reader_after (Header []) (be32 ?v) = Payload (unat ?v - 4) []" by (simp add: be32_def)
  with reader_after_payload [of "[]" ps "4 + length t"] len n
  show "reader_after (Header []) (be32 ?v @ ps) = Payload (4 + length t) ps"
    by (simp only: reader_after_append) simp
qed

text \<open>
  C37: the end of a connection by \<^verbatim>\<open>bye\<close>. The command handler disconnects, which frees the object of
  the connection; when it returns, the reader releases the packet and resets its counters in the object that is gone.
\<close>

theorem bye_uses_freed:
  assumes inv: "server_inv w" and c: "net_conns w c = Some conn" and rc: "rtc3d_conns w (conn_local conn) = Some rc"
    and idle: "reader_of rc = Header []" and t: "short_text t"
    and bye: "parser_parse_string t = Inr (Some cmd)" "cmd_type cmd = Some cmd_bye"
  shows "read_handler command_handler c (packet_bytes t) w = Inl (Undefined_behaviour Use_after_free)"
proof -
  let ?l = "conn_local conn"
  from inv rc obtain r where sv: "serving (net_conns w) ?l w" and r: "reads r rc" "reader_of rc = r"
    by (rule reading_connection)
  obtain ps x where px: "be32 PTYPE_COMMAND @ t = ps @ [x]" by (metis append_butlast_last_id append_is_Nil_conv be32_not_Nil)
  define xs where "xs = be32 (of_nat (8 + length t)) @ ps"
  note b = packet_but_last [OF t px, folded xs_def]
  have "cc.served_well (net_conns w) ?l (texts r xs) (reader_after r xs) w (run_steps (map (read_byte command_handler ?l) xs) w)"
    by (rule cc.stream_served [OF sv rc r(1)]) (use b idle r(2) in simp_all)
  with b idle r(2) obtain w1 rc1 where w1: "run_steps (map (read_byte command_handler ?l) xs) w = Inr w1"
    "serving (net_conns w) ?l w1" "rtc3d_conns w1 ?l = Some rc1" "reads (Payload (4 + length t) ps) rc1"
    by (auto simp: cc.served_well_def elim!: served_by_NilE)
  from serving_fit [OF w1(2)] w1(3) have f: "?l \<noteq> 0" "net_conns w1 (net_conn rc1) \<noteq> None" "net_conn rc1 \<noteq> 0"
    "rtc3d_command_handler w1" by (auto simp: fit_def)
  have "length (be32 PTYPE_COMMAND @ t) = length (ps @ [x])" using px by (simp only:)
  then have last: "Suc (length ps) = 4 + length t" by simp
  have "takeWhile (\<lambda>x. x \<noteq> 0) t = t" using t by (auto simp: short_text_def takeWhile_eq_all_conv)
  then have ct: "command_text (ps @ [x]) = Some t" by (simp add: command_text_def flip: px)
  from last_byte [OF w1(3) f(1) w1(4) last f(2-4), of command_handler x] ct obtain w2 where w2: "reader_step ?l w1 w2"
    "read_byte command_handler ?l x w1 = bind_outcome (command_handler ?l t w2) (\<lambda>w2.
      bind_outcome (deref_rtc3d ?l w2) (\<lambda>rc.
        Inr (put_rtc3d ?l (rc\<lparr>packet_data := Data_freed, packet_size := 0, size_left := 4\<rparr>) w2)))" by auto
  have sv2: "serving (net_conns w) ?l w2" by (rule serving_reader_step [OF w1(2) w2(1)])
  from bye_frees [OF sv2] handler_runs [OF sv2 bye] obtain w3 where
    "command_handler ?l t w2 = Inr w3" "rtc3d_conns w3 ?l = None" by auto
  with w2(2) f(1) have "read_byte command_handler ?l x w1 = Inl (Undefined_behaviour Use_after_free)"
    by (simp add: deref_rtc3d_def)
  with w1(1) b(1) serving_handler [OF sv c refl] show ?thesis by (simp add: run_steps_append)
qed

theorem bye_uses_freed_witness:
  "read_handler command_handler 2 (packet_bytes (ascii ''bye'')) sample_client = Inl (Undefined_behaviour Use_after_free)"
proof -
  have "parser_parse_string (ascii ''bye'') = Inr (Some (request_command Bye))"
    "cmd_type (request_command Bye) = Some cmd_bye" "short_text (ascii ''bye'')" by code_simp+
  from bye_uses_freed [OF sample_client_inv sample_client_fields(1), simplified, OF sample_client_fields(2)
      fresh_reader this(3,1,2)] show ?thesis .
qed

text \<open>Changes of a profile that is in use succeed.\<close>

lemma table_ops_run:
  assumes "profile_handle i s" and "length (profiles s) = MAX_PROFILES"
  shows "\<exists>s'. sled_profile_set_target i type pos t s = (0, s') \<and> profile_handle i s' \<and> length (profiles s') = MAX_PROFILES
      \<and> profiles s' ! nat i = with_time t (with_position pos (with_position_type type (profiles s ! nat i)))"
    and "\<exists>s'. sled_profile_set_table i tab s = (0, s') \<and> profile_handle i s' \<and> length (profiles s') = MAX_PROFILES
      \<and> profiles s' ! nat i = with_table tab (profiles s ! nat i)"
    and "\<exists>s'. sled_profile_set_next i n d b s = (0, s')
      \<and> profiles s' ! nat i = with_blend b (with_delay d (with_next n (profiles s ! nat i)))"
  using assms
  by (auto simp: sled_profile_set_target_def sled_profile_set_table_def sled_profile_set_next_def update_profile_def
      profile_handle_def with_time_def with_position_def with_position_type_def with_table_def mark_changed_def)

lemma with_position_value: "d_gt (d_abs pos) (Fin q) \<Longrightarrow> position (with_position pos p) = pos"
  by (cases pos; cases "position p") (auto simp: with_position_def mark_changed_def split: if_splits)

lemma position_kept [simp]:
  "position (with_time t p) = position p" "position (with_table tab p) = position p"
  "position (with_next n p) = position p" "position (with_delay d p) = position p" "position (with_blend b p) = position p"
  by (simp_all add: with_time_def with_table_def with_next_def with_delay_def with_blend_def mark_changed_def)

lemma set_target_run:
  assumes sv: "serving N l w" and i: "profile_handle i (sled w)"
    and c: "cmd_position_type c = Some type" "cmd_position c = Some pos" "cmd_time c = Some tm" "cmd_table c = Some tab"
  shows "\<exists>s. command_set_target l i c w = command_set_next l i c (w\<lparr>sled := s\<rparr>) \<and> profile_handle i s
    \<and> length (profiles s) = MAX_PROFILES \<and> sys_inv s
    \<and> profiles s ! nat i = with_table tab (with_time tm (with_position pos (with_position_type type (profiles (sled w) ! nat i))))"
proof -
  have inv: "sys_inv (sled w)" using sv by (simp add: serving_def server_inv_but_def server_rest_def)
  then have len: "length (profiles (sled w)) = MAX_PROFILES" by (simp add: sys_inv_def prof_inv_def table_ok_def)
  from table_ops_run(1) [OF i len] obtain s1 where s1: "sled_profile_set_target i type pos tm (sled w) = (0, s1)"
    "profile_handle i s1" "length (profiles s1) = MAX_PROFILES"
    "profiles s1 ! nat i = with_time tm (with_position pos (with_position_type type (profiles (sled w) ! nat i)))" by blast
  from table_ops_run(2) [OF s1(2,3)] obtain s2 where s2: "sled_profile_set_table i tab s1 = (0, s2)" "profile_handle i s2"
    "length (profiles s2) = MAX_PROFILES" "profiles s2 ! nat i = with_table tab (profiles s1 ! nat i)" by blast
  have "sys_inv s1" using sys_table_ops(2) [OF inv, of i type pos tm] s1(1) by simp
  from sys_table_ops(1) [OF this, of i tab] s2(1) have "sys_inv s2" by simp
  with s1 s2 show ?thesis by (auto simp: command_set_target_def at_table_def c read_determined_def)
qed

text \<open>
  C38: positions out of bounds. The request to set a profile's target beyond half a metre is answered
  with an error, and is carried out all the same: the target is set, and a second answer says
  that all is well.
\<close>

theorem position_out_of_bounds:
  assumes inv: "server_inv w" and l: "rtc3d_conns w l \<noteq> None"
    and t: "parser_parse_string t = Inr (Some (request_command (Set_profile n tab p x tm None)))"
    and far: "d_gt (d_abs (number_value x)) (Fin (1 / 2))"
    and i: "profile_tlate w n = Some i" "profile_handle i (sled w)"
  shows "\<exists>w'. command_handler l t w = Inr w'
    \<and> written w' = written w @ [(fd_of l w, rtc3d_error_packet (ascii ''err-profile-set'')),
        (fd_of l w, rtc3d_command_packet (ascii ''ok-profile-set''))]
    \<and> position (profiles (sled w') ! nat i) = number_value x"
proof -
  let ?c = "request_command (Set_profile n tab p x tm None)"
  let ?w = "sent_packet l (rtc3d_error_packet (ascii ''err-profile-set'')) w"
  have c: "cmd_type ?c = Some cmd_profile_set" "cmd_profile ?c = Some n" "cmd_position_type ?c = Some p"
    "cmd_position ?c = Some (number_value x)" "cmd_time ?c = Some (number_value tm)" "cmd_table ?c = Some tab"
    "cmd_next_profile ?c = Some (- 1)" by (simp_all add: typed_def)
  have sv: "serving (net_conns w) l w" using server_inv_serving [OF inv l] .
  have sv1: "serving (net_conns w) l ?w" by (rule serving_sent [OF sv])
  have "\<not> i < 0" using i(2) by (simp add: profile_handle_def)
  then have run: "command_handler l t w = command_set_target l i ?c ?w"
    using handler_runs [OF sv t c(1)] i(1) far reply_serving(2) [OF sv] c(2,4)
    by (simp add: command_profile_set_def tlate_profile_id_def read_determined_def when_step_def del: request_command.simps)
  have i1: "profile_handle i (sled ?w)" using i(2) by (simp add: sent_packet_def)
  from set_target_run [OF sv1 i1 c(3-6)] obtain s where s: "command_set_target l i ?c ?w = command_set_next l i ?c (?w\<lparr>sled := s\<rparr>)"
    "profile_handle i s" "length (profiles s) = MAX_PROFILES" "sys_inv s"
    "profiles s ! nat i = with_table tab (with_time (number_value tm) (with_position (number_value x)
       (with_position_type p (profiles (sled ?w) ! nat i))))" by blast
  from table_ops_run(3) [OF s(2,3)] obtain s3 where s3: "sled_profile_set_next i (- 1) (Fin 0) bln_none s = (0, s3)"
    "profiles s3 ! nat i = with_blend bln_none (with_delay (Fin 0) (with_next (- 1) (profiles s ! nat i)))" by blast
  have "sys_inv s3" using sys_table_ops(3) [OF s(4), of "- 1" i "Fin 0" bln_none] s3(1) by (simp add: MAX_PROFILES_def)
  then have sv3: "serving (net_conns w) l (?w\<lparr>sled := s3\<rparr>)" by (rule serving_fields(5) [OF sv1])
  have "command_handler l t w = reply l ''ok-profile-set'' (?w\<lparr>sled := s3\<rparr>)"
    using run s(1) s3(1) c(7) by (simp add: command_set_next_def read_determined_def at_table_def)
  moreover have "fd_of l ?w = fd_of l w" by (simp add: sent_packet_def fd_of_def split: option.split)
  ultimately show ?thesis using reply_serving(1) [OF sv3] s3(2) s(5) with_position_value [OF far]
    by (simp add: sent_packet_def)
qed

text \<open>
  The delay that is not set: a profile with a successor, but with neither \<^verbatim>\<open>after\<close> nor \<^verbatim>\<open>blend\<close>, is
  accepted by the parser, which leaves the delay without a value; the handler then reads it.
\<close>

lemma unset_next_delay:
  assumes inv: "server_inv w" and l: "rtc3d_conns w l \<noteq> None"
    and t: "parser_parse_string t = Inr (Some (request_command (Set_profile n tab p x tm (Some (nx, None, None)))))"
    and nx: "0 \<le> nx" "profile_tlate w nx = Some j" "0 \<le> j"
    and i: "profile_tlate w n = Some i" "profile_handle i (sled w)"
  shows "command_handler l t w = Inl (Undefined_behaviour Indeterminate_read)"
proof -
  let ?c = "request_command (Set_profile n tab p x tm (Some (nx, None, None)))"
  have c: "cmd_type ?c = Some cmd_profile_set" "cmd_profile ?c = Some n" "cmd_position_type ?c = Some p"
    "cmd_position ?c = Some (number_value x)" "cmd_time ?c = Some (number_value tm)" "cmd_table ?c = Some tab"
    "cmd_next_profile ?c = Some nx" "cmd_next_delay ?c = None" by (simp_all add: typed_def)
  have sv: "serving (net_conns w) l w" using server_inv_serving [OF inv l] .
  have target: "command_set_target l i ?c w1 = Inl (Undefined_behaviour Indeterminate_read)"
    if w1: "serving (net_conns w) l w1" "profile_handle i (sled w1)" "profile_tlate w1 = profile_tlate w" for w1
  proof -
    from set_target_run [OF w1(1,2) c(3-6)] obtain s where
      "command_set_target l i ?c w1 = command_set_next l i ?c (w1\<lparr>sled := s\<rparr>)" by blast
    with nx w1(3) c(7,8) show ?thesis by (simp add: command_set_next_def tlate_profile_id_def read_determined_def)
  qed
  have "\<not> i < 0" using i(2) by (simp add: profile_handle_def)
  then have run: "command_handler l t w = bind_outcome (when_step (d_gt (d_abs (number_value x)) (Fin (1 / 2)))
      (reply_error l ''err-profile-set'') w) (command_set_target l i ?c)"
    using handler_runs [OF sv t c(1)] i(1) c(2,4)
    by (simp add: command_profile_set_def tlate_profile_id_def read_determined_def del: request_command.simps)
  have k: "sled (sent_packet l buf w) = sled w" "profile_tlate (sent_packet l buf w) = profile_tlate w" for buf
    by (simp_all add: sent_packet_def)
  from run target [OF sv i(2) refl] target [OF serving_sent [OF sv]] i(2) reply_serving(2) [OF sv]
  show ?thesis by (auto simp: when_step_def k)
qed

text \<open>A request of the sample client.\<close>

definition far_request :: "u8 list" where
  "far_request = ascii ''profile 1 set table 1 abs 0.75 2''"

lemma sample_profile: "profile_handle 0 (sled sample_client)"
  by (simp add: sample_client_fields profile_handle_def MAX_PROFILES_def sample_table_def)

theorem position_out_of_bounds_witness:
  "\<exists>w'. command_handler 3 far_request sample_client = Inr w'
    \<and> written w' = [(5, rtc3d_error_packet (ascii ''err-profile-set'')), (5, rtc3d_command_packet (ascii ''ok-profile-set''))]
    \<and> position (profiles (sled w') ! 0) = Fin (3 / 4)"
proof -
  have "parser_parse_string far_request
      = Inr (Some (request_command (Set_profile 1 1 pos_absolute (N_float (Fin (3 / 4))) (N_int 2) None)))"
    "d_gt (d_abs (number_value (N_float (Fin (3 / 4))))) (Fin (1 / 2))" by code_simp+
  with position_out_of_bounds [OF sample_client_inv _ this(1,2), of 3 0] sample_profile show ?thesis
    by (simp add: sample_client_fields)
qed

text \<open>An empty packet; and one of 296 bytes, whose first 36 bytes after the size field are taken for all of it.\<close>

theorem oversized_packet_witness:
  "(\<exists>w'. \<forall>bs. run_steps (map (read_byte command_handler 3) (be32 4 @ bs)) sample_client = Inr w')
    \<and> run_steps (map (read_byte command_handler 3) (be32 296 @ replicate 36 7)) sample_client
       = Inl (Undefined_behaviour Indeterminate_read)"
proof -
  have p: "rtc3d_conns sample_client 3 = Some (new_rtc3d_connection 2)" "(3 :: nat) \<noteq> 0" "net_conn (new_rtc3d_connection 2) \<noteq> 0"
    "net_conns sample_client (net_conn (new_rtc3d_connection 2)) \<noteq> None"
    "size_left (new_rtc3d_connection 2) = 4" "packet_size (new_rtc3d_connection 2) = 0"
    "os_malloc (tcp_os sample_client) (os_calls sample_client)"
    by (simp_all add: sample_client_fields new_rtc3d_connection_def sample_tcp_os_def)
  show ?thesis
    using oversized_packet [OF p, of 4 command_handler] oversized_packet [OF p, of 296 command_handler "replicate 36 7"]
    by (auto simp del: run_steps.simps replicate.simps list.map map_append map_replicate)
qed

section \<open>The end of the server\<close>

text \<open>
  Whatever connections are open, the loop of \<^verbatim>\<open>net_teardown_server\<close> ends: every
  client is disconnected, in the order of the descriptors, every object is freed, and the listening
  socket is closed last.
\<close>

lemma teardown_ends:
  assumes "server_inv w"
  shows "\<exists>w'. teardown_sled_server_context w = Some (Inr w') \<and> connection_data w' = []
    \<and> net_conns w' = Map.empty \<and> rtc3d_conns w' = Map.empty \<and> stream_clients w' = []
    \<and> closed_fds w' = closed_fds w @ map fst (connection_data w) @ [sock w]"
proof -
  have "sv.srv.tcp_inv w" "null_fds w = {}" using assms by (simp_all add: server_inv_iff)
  from sv.srv.teardown_ok [OF this] obtain w1 where
    w1: "teardown_loop (disconnect_handler disconnected) w = Some (Inr w1)" "sv.srv.tcp_inv w1" "connection_data w1 = []"
      "net_conns w1 = Map.empty" "closed_fds w1 = closed_fds w @ map fst (connection_data w)" "sock w1 = sock w" by blast
  have "pairing (net_conns w1) (rtc3d_owner w1)" and ok: "server_ok w1"
    using w1(2) by (simp_all add: sv.srv.tcp_inv_def sv.rtc3d_inv_def)
  with w1(4) have none: "rtc3d_owner w1 l = None" for l by (cases "rtc3d_owner w1 l") (auto simp: pairing_def)
  then have empty: "rtc3d_conns w1 = Map.empty" by (auto simp: rtc3d_owner_def)
  with ok have "stream_clients w1 = []" by (cases "stream_clients w1") (auto simp: server_ok_def server_rest_def)
  with w1 empty show ?thesis
    by (simp add: teardown_sled_server_context_def rtc3d_teardown_server_def net_teardown_server_def close_fd_def)
qed

lemma map_ok_null:
  assumes "map_ok w" and "sk \<notin> fst ` set (connection_data w)"
  shows "map_ok (w\<lparr>connection_data := map_put sk 0 (connection_data w)\<rparr>)"
  using assms by (force simp: map_ok_def live_at_def map_put_sorted)

text \<open>
  C39: a connection without a buffer. When libevent grants a new connection its read event but
  not its write buffer, \<^verbatim>\<open>net_on_new_connection\<close> returns with the read event registered and no connection stored.
  Data from this client is then handled with a NULL pointer; its disconnection leaves a NULL
  entry in the map of connections, and with it the loop of \<^verbatim>\<open>net_teardown_server\<close> never ends.
\<close>

theorem unbuffered_connection:
  assumes inv: "server_inv w" and f: "next_fd w \<notin> fst ` set (connection_data w)"
    and g: "event_granted w" "\<not> buffer_granted w"
  shows "\<exists>w1. handle_server_event Ev_accept w = Inr w1 \<and> next_fd w \<in> set (read_events w1)
    \<and> (case os_read (tcp_os w1) (os_calls w1) of
         Some (b # bs) \<Rightarrow> handle_server_event (Ev_read (next_fd w)) w1 = Inl (Undefined_behaviour Null_dereference)
       | _ \<Rightarrow> \<exists>w2. handle_server_event (Ev_read (next_fd w)) w1 = Inr w2 \<and> teardown_sled_server_context w2 = None)"
proof -
  have tcp: "sv.srv.tcp_inv w" and k: "set (read_events w) = fst ` set (connection_data w)"
    using inv by (simp_all add: server_inv_iff)
  from f k have "next_fd w \<notin> set (read_events w)" by simp
  from sv.srv.unbuffered_ok [OF tcp this g] obtain w1 where w1: "net_on_new_connection (connect_handler no_connect) w = Inr w1"
    "sv.srv.tcp_inv w1" "connection_data w1 = connection_data w" "read_events w1 = next_fd w # read_events w" by blast
  have m: "map_of (connection_data w1) (next_fd w) = None" using f w1(3) by (simp add: map_of_eq_None_iff)
  define w2 where "w2 = w1\<lparr>os_calls := Suc (os_calls w1), connection_data := map_put (next_fd w) 0 (connection_data w1)\<rparr>"
  have at: "connection_at (next_fd w) (w1\<lparr>os_calls := Suc (os_calls w1)\<rparr>) = (0, w2)"
    using m by (simp add: connection_at_def w2_def)
  have "sv.srv.tcp_inv w2"
  proof -
    have "sv.srv.tcp_inv (w1\<lparr>os_calls := Suc (os_calls w1)\<rparr>)" using w1(2) by simp
    with map_ok_null [of "w1\<lparr>os_calls := Suc (os_calls w1)\<rparr>" "next_fd w"] f w1(3) show ?thesis
      unfolding w2_def by (simp add: sv.srv.tcp_inv_def sv.srv.frames)
  qed
  moreover have "next_fd w \<in> null_fds w2" by (simp add: null_fds_def w2_def)
  ultimately have stuck: "teardown_sled_server_context w2 = None"
    by (simp add: teardown_sled_server_context_def rtc3d_teardown_server_def net_teardown_server_def sv.srv.teardown_stuck)
  have h: "net_read_handler w1" using w1(2) by (simp add: sv.srv.tcp_inv_def)
  have dead: "read_handler command_handler 0 bs w2 = Inl (Undefined_behaviour Null_dereference)" for bs
    by (simp add: read_handler_def net_get_local_data_def deref_conn_def)
  have "net_disconnect (disconnect_handler disconnected) 0 w2 = Inr w2" by (simp add: net_disconnect_def)
  with at stuck h dead w1(1,4) show ?thesis
    by (auto simp: net_on_read_def os_call_def split: option.splits list.splits)
qed

theorem unbuffered_connection_witness:
  "\<exists>w1 w2. handle_server_event Ev_accept (sample_client\<lparr>tcp_os := sample_tcp_os\<lparr>os_accept := \<lambda>_. 6, os_bufferevent_new := \<lambda>_. False\<rparr>\<rparr>)
      = Inr w1 \<and> handle_server_event (Ev_read 6) w1 = Inr w2 \<and> teardown_sled_server_context w2 = None"
proof -
  let ?w = "sample_client\<lparr>tcp_os := sample_tcp_os\<lparr>os_accept := \<lambda>_. 6, os_bufferevent_new := \<lambda>_. False\<rparr>\<rparr>"
  have "server_inv ?w" using sample_client_inv
    by (auto simp: server_inv_def server_inv_but_def server_rest_def readers_ok_def map_ok_def live_at_def null_fds_def
        rtc3d_owner_def [abs_def] addresses_ok_def sample_tcp_os_def)
  moreover have "next_fd ?w = 6" "next_fd ?w \<notin> fst ` set (connection_data ?w)" "event_granted ?w" "\<not> buffer_granted ?w"
    by (simp_all add: next_fd_def event_granted_def buffer_granted_def sample_tcp_os_def sample_client_fields)
  moreover have "tcp_os w1 = tcp_os ?w" if "handle_server_event Ev_accept ?w = Inr w1" for w1
    using that by (simp add: net_on_new_connection_def accept_client_def os_call_def sample_tcp_os_def sample_client_fields
        split: if_splits) auto
  ultimately show ?thesis using unbuffered_connection [of ?w] by (fastforce simp: sample_tcp_os_def)
qed

end
