(* ===== verification/Number_Text.thy ===== *)
theory Number_Text
  imports Parser_Props
begin

text \<open>
  Numbers in the text of a request and the values that the parser makes of them. A number with a point is
  rounded to \<^verbatim>\<open>double\<close> by \<^verbatim>\<open>atof\<close> and then to the \<^verbatim>\<open>float\<close> of a token, one without a point is converted to
  \<^verbatim>\<open>float\<close>. What is shown of numbers of at most a half, the positions that the server accepts: they
  do not leave that range, and change by less than 2^-25.
\<close>

section \<open>Rounding of small numbers\<close>

lemma round_even_le:
  assumes "x \<le> of_int n"
  shows "round_even x \<le> n"
proof (cases "\<lfloor>x\<rfloor> = n")
  case True
  with assms have "x = of_int n" by linarith
  then show ?thesis by (simp add: round_even_def)
next
  case False
  with assms have "\<lfloor>x\<rfloor> + 1 \<le> n" by linarith
  then show ?thesis by (auto simp: round_even_def Let_def)
qed

lemma round_even_nonneg: "0 \<le> x \<Longrightarrow> 0 \<le> round_even x"
  by (simp add: round_even_def Let_def)

lemma round_to_exp:
  assumes "0 < q" and "q \<le> 1 / 2" and "pow2 e \<le> q / 2 ^ k \<or> e \<le> - int k - 1"
  shows "0 \<le> of_int (round_even (q / pow2 e)) * pow2 e"
    and "of_int (round_even (q / pow2 e)) * pow2 e \<le> 1 / 2"
    and "\<bar>of_int (round_even (q / pow2 e)) * pow2 e - q\<bar> \<le> pow2 (- int k - 2)"
proof -
  have k: "pow2 (- int k - 1) = 1 / 2 / 2 ^ k" for k
    using pow2_add_nat [of "- int k - 1" "Suc k"] by (simp add: pow2_def field_simps)
  have le: "pow2 e \<le> pow2 (- int k - 1)"
    using assms(3)
  proof
    assume "pow2 e \<le> q / 2 ^ k"
    also have "\<dots> \<le> 1 / 2 / 2 ^ k" using assms(2) by (rule divide_right_mono) simp
    finally show ?thesis by (simp add: k)
  qed (rule pow2_mono)
  have "e \<le> - 1"
  proof (rule ccontr)
    assume "\<not> e \<le> - 1"
    then have "pow2 0 \<le> pow2 e" by (intro pow2_mono) simp
    moreover have "pow2 (- int k - 1) \<le> pow2 (- 1)" by (intro pow2_mono) simp
    moreover have "pow2 0 = 1" "pow2 (- 1) = 1 / 2" by (simp_all add: pow2_def)
    ultimately show False using le by linarith
  qed
  then have half: "1 / 2 = of_int (2 ^ nat (- 1 - e)) * pow2 e"
    using pow2_add_nat [of e "nat (- 1 - e)"] by (simp add: pow2_def)
  show "0 \<le> of_int (round_even (q / pow2 e)) * pow2 e"
    using assms(1) by (simp add: round_even_nonneg less_imp_le)
  have "q / pow2 e \<le> of_int (2 ^ nat (- 1 - e))"
    using assms(2) half by (simp add: pos_divide_le_eq)
  then have "(of_int (round_even (q / pow2 e)) :: rat) \<le> of_int (2 ^ nat (- 1 - e))"
    by (simp only: of_int_le_iff) (rule round_even_le)
  then show "of_int (round_even (q / pow2 e)) * pow2 e \<le> 1 / 2"
    unfolding half by (rule mult_right_mono) (simp add: less_imp_le)
  have "of_int (round_even (q / pow2 e)) * pow2 e - q = (of_int (round_even (q / pow2 e)) - q / pow2 e) * pow2 e"
    by (simp add: left_diff_distrib)
  then have "\<bar>of_int (round_even (q / pow2 e)) * pow2 e - q\<bar> = \<bar>of_int (round_even (q / pow2 e)) - q / pow2 e\<bar> * pow2 e"
    by (simp add: abs_mult abs_of_pos)
  also have "\<dots> \<le> 1 / 2 * pow2 e" by (rule mult_right_mono [OF round_even_bound]) (simp add: less_imp_le)
  also have "\<dots> \<le> 1 / 2 * pow2 (- int k - 1)" using le by simp
  also have "\<dots> = pow2 (- int k - 2)"
  proof -
    have "pow2 ((- int k - 2) + 1) = pow2 (- int k - 1)" by (rule arg_cong [where f = pow2]) simp
    from this [unfolded pow2_Suc] show ?thesis by linarith
  qed
  finally show "\<bar>of_int (round_even (q / pow2 e)) * pow2 e - q\<bar> \<le> pow2 (- int k - 2)" .
qed

lemma signed_small:
  fixes q a b :: rat
  assumes "0 \<le> a" "a \<le> b" "\<bar>a - \<bar>q\<bar>\<bar> \<le> c"
  shows "\<bar>if q < 0 then - a else a\<bar> \<le> b" "\<bar>(if q < 0 then - a else a) - q\<bar> \<le> c"
  using assms by (auto simp: abs_if split: if_splits)

lemma rnd_small:
  assumes "\<bar>q\<bar> \<le> 1 / 2"
  obtains r where "rnd q = Fin r" "\<bar>r\<bar> \<le> 1 / 2" "\<bar>r - q\<bar> \<le> pow2 (- 54)"
proof (cases "q = 0")
  case True
  with that [of 0] show ?thesis by (simp add: rnd_def less_imp_le)
next
  case False
  then have pos: "0 < \<bar>q\<bar>" by simp
  have "pow2 (ulp_exp \<bar>q\<bar>) \<le> \<bar>q\<bar> / 2 ^ 52 \<or> ulp_exp \<bar>q\<bar> \<le> - int 52 - 1" using ulp_exp_bound [OF pos] by auto
  note r = round_to_exp [OF pos assms this]
  let ?a = "rnd_abs \<bar>q\<bar>"
  have a: "0 \<le> ?a" "?a \<le> 1 / 2" "\<bar>?a - \<bar>q\<bar>\<bar> \<le> pow2 (- 54)" using r by (simp_all add: rnd_abs_def Let_def)
  have "(1 / 2 :: rat) \<le> 2 ^ 1000" by (rule order_trans [OF _ one_le_power]) simp_all
  with assms have "\<bar>q\<bar> \<le> 2 ^ 1000" by (rule order_trans)
  then obtain r where "rnd q = Fin r" by (rule rnd_error)
  then have "rnd q = Fin (if q < 0 then - ?a else ?a)"
    using False by (simp add: rnd_def Let_def split: if_splits)
  from that [OF this signed_small [OF a]] show ?thesis .
qed

lemma ulp_exp32_bound:
  assumes "0 < q"
  shows "pow2 (ulp_exp32 q) \<le> q / 2 ^ 23 \<or> ulp_exp32 q = - 149"
proof -
  have "ulp_exp32 q = max (lead_exp q - 23) (- 149)"
    by (simp add: ulp_exp32_def lead_exp_def Let_def split_beta)
  moreover have "pow2 (lead_exp q) = 2 ^ 23 * pow2 (lead_exp q - 23)"
    using pow2_add_nat [of "lead_exp q - 23" 23] by simp
  ultimately show ?thesis using lead_exp_le [OF assms] by (auto simp: max_def field_simps)
qed

lemma ulp_exp32_small:
  assumes "0 \<le> a" "a \<le> 1 / 2"
  shows "ulp_exp32 a \<le> 104"
proof (cases "a = 0")
  case True
  then show ?thesis by (simp add: ulp_exp32_def bits.simps [of 0] bits.simps [of 1] pow2_def Let_def)
next
  case False
  show ?thesis
  proof (rule ccontr)
    assume big: "\<not> ulp_exp32 a \<le> 104"
    then have "pow2 0 \<le> pow2 (ulp_exp32 a)" by (intro pow2_mono) simp
    moreover have "pow2 0 = 1" by (simp add: pow2_def)
    moreover have "a / 2 ^ 23 \<le> a" using assms(1) by simp
    moreover have "0 < a" using assms(1) False by simp
    ultimately show False using ulp_exp32_bound [of a] assms(2) big by linarith
  qed
qed

lemma rnd32_small:
  assumes "\<bar>q\<bar> \<le> 1 / 2"
  obtains r where "rnd32 q = Fin r" "\<bar>r\<bar> \<le> 1 / 2" "\<bar>r - q\<bar> \<le> pow2 (- 25)"
proof (cases "q = 0")
  case True
  with that [of 0] show ?thesis by (simp add: rnd32_def less_imp_le)
next
  case False
  then have pos: "0 < \<bar>q\<bar>" by simp
  let ?e = "ulp_exp32 \<bar>q\<bar>"
  let ?a = "of_int (round_even (\<bar>q\<bar> / pow2 ?e)) * pow2 ?e :: rat"
  have "pow2 ?e \<le> \<bar>q\<bar> / 2 ^ 23 \<or> ?e \<le> - int 23 - 1" using ulp_exp32_bound [OF pos] by auto
  from round_to_exp [OF pos assms this] have a: "0 \<le> ?a" "?a \<le> 1 / 2" "\<bar>?a - \<bar>q\<bar>\<bar> \<le> pow2 (- 25)" by simp_all
  have "rnd32 q = Fin (if q < 0 then - ?a else ?a)"
    using False ulp_exp32_small [OF a(1,2)] by (simp add: rnd32_def Let_def)
  from that [OF this signed_small [OF a]] show ?thesis .
qed

section \<open>The value of a lexeme\<close>

text \<open>The number that a text denotes, exactly.\<close>

fun decimal :: "lexeme \<Rightarrow> rat" where
  "decimal (Int_lx neg ds) = signed neg (of_int (digits_value ds))"
| "decimal (Dec_lx neg ds fs) = signed neg (of_int (digits_value (ds @ fs)) / 10 ^ length fs)"
| "decimal _ = 0"

lemma word_token_no_number: "word_token s \<noteq> number_tok x"
proof -
  have "t \<noteq> number_tok x" if "map_of keywords_table k = Some t" for k t
    using map_of_SomeD [OF that] by (cases x) (auto simp: keywords_table_def)
  then show ?thesis by (cases x) (auto simp: word_token_def split: option.split)
qed

lemma number_of_lexeme:
  assumes "lexeme_token y = number_tok x" and "\<bar>decimal y\<bar> \<le> 1 / 2"
  obtains q where "number_value x = Fin q" "\<bar>q\<bar> \<le> 1 / 2" "\<bar>q - decimal y\<bar> \<le> pow2 (- 25) + pow2 (- 54)"
proof (cases y)
  case (Word_lx s)
  with assms(1) word_token_no_number show ?thesis by simp
next
  case Colon_lx
  with assms(1) show ?thesis by (cases x) simp_all
next
  case (Int_lx neg ds)
  with assms(1) have x: "x = N_int (signed neg (digits_value ds))" by (cases x) auto
  have "of_int (signed neg (digits_value ds)) = decimal y" by (simp add: Int_lx signed_def)
  with assms(2) obtain r where "number_value x = Fin r" "\<bar>r\<bar> \<le> 1 / 2" "\<bar>r - decimal y\<bar> \<le> pow2 (- 25)"
    unfolding x number_value.simps by (metis rnd32_small)
  with that [of r] show ?thesis using pow2_pos [of "- 54"] by linarith
next
  case (Dec_lx neg ds fs)
  with assms(1) have x: "number_value x = to_float (rnd (decimal y))" by (cases x) (auto simp: atof_def)
  from rnd_small [OF assms(2)] obtain r where r: "rnd (decimal y) = Fin r" "\<bar>r\<bar> \<le> 1 / 2" "\<bar>r - decimal y\<bar> \<le> pow2 (- 54)" .
  from rnd32_small [OF r(2)] obtain q where "rnd32 r = Fin q" "\<bar>q\<bar> \<le> 1 / 2" "\<bar>q - r\<bar> \<le> pow2 (- 25)" .
  with that [of q] r x show ?thesis by simp
qed

section \<open>Texts of requests\<close>

lemma spelling_parses:
  assumes "spelling_ok xs" and "map (\<lambda>(gap, x). lexeme_token x) xs = request_toks r"
  shows "parser_parse_string (spell xs) = Inr (Some (request_command r))"
  using parser_grammar [OF spell_scans [OF assms(1)]] assms(2) by (auto simp: in_grammar_def)

text \<open>In \<^verbatim>\<open>profile n set table k abs x t\<close> the position is the lexeme with index 6.\<close>

definition position_lexeme :: "(u8 list \<times> lexeme) list \<Rightarrow> lexeme" where
  "position_lexeme xs = snd (xs ! 6)"

lemma position_lexeme_token:
  assumes "map (\<lambda>(gap, x). lexeme_token x) xs = request_toks (Set_profile n tab type x tm nx)"
  shows "lexeme_token (position_lexeme xs) = number_tok x"
proof -
  from arg_cong [OF assms, of length] have "6 < length xs" by simp
  then have "map (\<lambda>(gap, x). lexeme_token x) xs ! 6 = lexeme_token (position_lexeme xs)"
    by (simp add: position_lexeme_def split_beta)
  with assms show ?thesis by simp
qed

end
