(* ===== verification/Server_Motion.thy ===== *)
theory Server_Motion
  imports Server_Limits Number_Text
begin

text \<open>
  From the text of a request to the drive: all components together. A client defines a profile and has it
  executed; the network cuts its packets into pieces, the reader puts them together, the parser reads the commands, the command handler
  finds a profile for the client's number, the table takes the settings, and the SDO machine gets the writes.
\<close>

section \<open>Settings of a new profile\<close>

text \<open>What a client asks for in \<^verbatim>\<open>profile n set table\<close> \<dots>, without a successor.\<close>

definition wanted :: "int \<Rightarrow> position_type_t \<Rightarrow> double \<Rightarrow> double \<Rightarrow> sled_profile_t" where
  "wanted tab type pos t = blank_profile\<lparr>table_no := tab, position_type := type, position := pos, time := t,
     next_profile := - 1, delay := Fin 0, blend_type := bln_none\<rparr>"

text \<open>The setters, applied to a profile that has just been created.\<close>

definition set_up :: "nat \<Rightarrow> int \<Rightarrow> position_type_t \<Rightarrow> double \<Rightarrow> double \<Rightarrow> sled_profile_t \<Rightarrow> sled_profile_t" where
  "set_up i tab type pos t p =
     with_blend bln_none (with_delay (Fin 0) (with_next (- 1)
       (with_table tab (with_time t (with_position pos (with_position_type type (created_profile i p)))))))"

lemma setters_unsent:
  assumes "field_states p = (\<lambda>f. FIELD_CHANGED)"
  shows "with_table tab p = p\<lparr>table_no := tab\<rparr>" "with_position_type type p = p\<lparr>position_type := type\<rparr>"
    "with_position pos p = p\<lparr>position := pos\<rparr>" "with_time t p = p\<lparr>time := t\<rparr>" "with_next n p = p\<lparr>next_profile := n\<rparr>"
    "with_delay d p = p\<lparr>delay := d\<rparr>" "with_blend b p = p\<lparr>blend_type := b\<rparr>"
proof -
  have m: "mark_changed fs r = r" if "field_states r = (\<lambda>f. FIELD_CHANGED)" for fs r
    using that by (cases r) (auto simp: mark_changed_def fun_eq_iff)
  have same: "p\<lparr>table_no := table_no p\<rparr> = p" "p\<lparr>position_type := position_type p\<rparr> = p" "p\<lparr>position := position p\<rparr> = p"
    "p\<lparr>time := time p\<rparr> = p" "p\<lparr>next_profile := next_profile p\<rparr> = p" "p\<lparr>delay := delay p\<rparr> = p"
    "p\<lparr>blend_type := blend_type p\<rparr> = p" by (cases p; simp)+
  show "with_table tab p = p\<lparr>table_no := tab\<rparr>" using assms m same(1) by (auto simp: with_table_def)
  show "with_position_type type p = p\<lparr>position_type := type\<rparr>" using assms m same(2) by (auto simp: with_position_type_def)
  show "with_position pos p = p\<lparr>position := pos\<rparr>" using assms m same(3) by (auto simp: with_position_def)
  show "with_time t p = p\<lparr>time := t\<rparr>" using assms m same(4) by (auto simp: with_time_def)
  show "with_next n p = p\<lparr>next_profile := n\<rparr>" using assms m same(5) by (auto simp: with_next_def)
  show "with_delay d p = p\<lparr>delay := d\<rparr>" using assms m same(6) by (auto simp: with_delay_def)
  show "with_blend b p = p\<lparr>blend_type := b\<rparr>" using assms m same(7) by (auto simp: with_blend_def)
qed

lemma created_unsent: "field_states (created_profile i p) = (\<lambda>f. FIELD_CHANGED)"
  by (simp add: created_profile_def cleared_profile_def sled_profile_mark_as_unsaved_def)

lemma set_up_fields:
  "in_use (set_up i tab type pos t p)" "never_sent (set_up i tab type pos t p) = Some True"
  "profile_no (set_up i tab type pos t p) = 201 + int i" "next_profile (set_up i tab type pos t p) = - 1"
  "field_states (set_up i tab type pos t p) f = FIELD_CHANGED"
  "position (set_up i tab type pos t p) = pos" "time (set_up i tab type pos t p) = t"
  "table_no (set_up i tab type pos t p) = tab" "position_type (set_up i tab type pos t p) = type"
  "delay (set_up i tab type pos t p) = Fin 0" "blend_type (set_up i tab type pos t p) = bln_none"
  by (simp_all add: set_up_def setters_unsent created_unsent)

lemma set_up_value: "field_value n f (set_up i tab type pos t p) = field_value n f (wanted tab type pos t)"
  by (cases f) (simp_all add: set_up_fields wanted_def half_time_ms_def sled_profile_get_controlword_def)

lemma wanted_value:
  assumes "\<bar>q\<bar> \<le> 1 / 2" and "field_value 0 F_DEC (wanted tab type (Fin q) t) = Inr h"
  shows "\<exists>v. field_value 0 f (wanted tab type (Fin q) t) = Inr v"
proof -
  have "\<bar>q\<bar> \<le> 2147" using assms(1) by simp
  then have "\<exists>v. field_value 0 F_P (wanted tab type (Fin q) t) = Inr v"
    using position_error [of "wanted tab type (Fin q) t" q 0] by (auto simp: wanted_def)
  moreover have "\<exists>v. half_time_ms (wanted tab type (Fin q) t) = Inr v" using assms(2)
    by (cases "half_time_ms (wanted tab type (Fin q) t)") simp_all
  moreover have "to_int32 (d_mul (delay (wanted tab type (Fin q) t)) (Fin 1000)) = Inr 0"
    by (simp add: wanted_def rnd_def trunc_def int32_range_def)
  ultimately show ?thesis using assms(2) by (cases f) simp_all
qed

text \<open>A table with such a profile can be uploaded.\<close>

lemma set_up_upload:
  assumes inv: "sys_inv s" and i: "i < MAX_PROFILES" and p: "profiles s ! i = set_up i tab type pos t p"
    and v: "\<And>f. \<exists>v. field_value 0 f (wanted tab type pos t) = Inr v"
  shows "upload_inv m0 {i} s" and "desired s i f = field_value 0 f (wanted tab type pos t)"
proof -
  have d: "desired s i f = field_value 0 f (wanted tab type pos t)" for f
    by (cases "f = F_FN") (simp_all add: desired_def p set_up_value next_number_def set_up_fields wanted_def)
  then show "desired s i f = field_value 0 f (wanted tab type pos t)" .
  have "agrees m0 s i" by (simp add: agrees_def p set_up_fields)
  moreover have "chain_ok {i} s" using i v by (simp add: chain_ok_def p set_up_fields d)
  moreover have "fresh_mode {i} s" by (simp add: fresh_mode_def p set_up_fields)
  ultimately show "upload_inv m0 {i} s"
    using inv sys_inv_quiet [OF inv] by (simp add: upload_inv_def sys_inv_def prof_inv_def)
qed

section \<open>The two commands\<close>

lemma update_update:
  "update_profile i h (update_profile i g s) = update_profile i (\<lambda>p. h (g p)) s"
  by (cases "i < length (profiles s)") (simp_all add: update_profile_def list_update_beyond)

lemma define_profile:
  assumes sv: "serving N l w" and n: "profile_tlate w n = None" and i: "free_profile (profiles (sled w)) = Some i"
    and q: "\<not> d_gt (d_abs (number_value x)) (Fin (1 / 2))"
    and t: "parser_parse_string t = Inr (Some (request_command (Set_profile n tab type x tm None)))"
  shows "command_handler l t w = Inr (sent_packet l (ok_packet ''ok-profile-set'')
    (w\<lparr>sled := update_profile i (set_up i tab type (number_value x) (number_value tm)) (sled w),
       profile_tlate := (profile_tlate w)(n \<mapsto> int i)\<rparr>))"
proof -
  let ?c = "request_command (Set_profile n tab type x tm None)"
  have c: "cmd_type ?c = Some cmd_profile_set" "cmd_profile ?c = Some n" "cmd_position_type ?c = Some type"
    "cmd_position ?c = Some (number_value x)" "cmd_time ?c = Some (number_value tm)" "cmd_table ?c = Some tab"
    "cmd_next_profile ?c = Some (- 1)" by (simp_all add: typed_def)
  have inv: "sys_inv (sled w)" using sv by (simp add: serving_def server_inv_but_def server_rest_def)
  then have len: "length (profiles (sled w)) = MAX_PROFILES" by (simp add: sys_inv_def prof_inv_def table_ok_def)
  with free_profile_Some [OF i] have im: "i < MAX_PROFILES" by simp
  let ?w = "\<lambda>g. w\<lparr>sled := update_profile i g (sled w), profile_tlate := (profile_tlate w)(n \<mapsto> int i)\<rparr>"
  have tl: "tlate_profile_id n w = (int i, ?w (created_profile i))"
    by (simp add: tlate_profile_id_def n at_table_def sled_profile_create_eq [OF len] i)
  have ops: "at_table (sled_profile_set_target (int i) type pos u) (?w g)
      = (0, ?w (\<lambda>p. with_time u (with_position pos (with_position_type type (g p)))))"
    "at_table (sled_profile_set_table (int i) tab) (?w g) = (0, ?w (\<lambda>p. with_table tab (g p)))"
    "at_table (sled_profile_set_next (int i) (- 1) (Fin 0) bln_none) (?w g)
      = (0, ?w (\<lambda>p. with_blend bln_none (with_delay (Fin 0) (with_next (- 1) (g p)))))"
    if "\<And>p. in_use (g p)" for g pos u
    using that im len
    by (simp_all add: at_table_def sled_profile_set_target_def sled_profile_set_table_def sled_profile_set_next_def
        profile_handle_def update_update)
  have use: "in_use (with_time u (with_position pos (with_position_type ty (created_profile i p))))"
    "in_use (with_table tab (with_time u (with_position pos (with_position_type ty (created_profile i p)))))" for u pos ty p
    by (simp_all add: with_table_def with_time_def with_position_def with_position_type_def mark_changed_def)
  let ?v = "?w (set_up i tab type (number_value x) (number_value tm))"
  have v: "?v = snd (at_table (sled_profile_set_next (int i) (- 1) (Fin 0) bln_none)
      (snd (at_table (sled_profile_set_table (int i) tab) (snd (at_table (sled_profile_set_target (int i) type (number_value x) (number_value tm))
        (snd (tlate_profile_id n w)))))))"
    by (simp add: tl ops use set_up_def [abs_def])
  have "serving N l ?v" unfolding v by (intro table_serving tlate_serving sv) (simp add: MAX_PROFILES_def)
  moreover have "command_handler l t w = reply l ''ok-profile-set'' ?v"
    using q handler_runs [OF sv t c(1)]
    by (simp add: command_profile_set_def command_set_target_def command_set_next_def c(2-7) tl ops use when_step_def
        read_determined_def set_up_def [abs_def] del: request_command.simps)
  ultimately show ?thesis by (simp add: reply_serving ok_packet_def)
qed

lemma run_profile:
  assumes sv: "serving N l w" and n: "profile_tlate w n = Some i"
    and t: "parser_parse_string t = Inr (Some (request_command (Execute n)))"
    and run: "sled_profile_execute i (sled w) = Inr (0, s)"
  shows "command_handler l t w = Inr (sent_packet l (ok_packet ''ok-profile-execute'') (w\<lparr>sled := s\<rparr>))"
proof -
  let ?c = "request_command (Execute n)"
  have c: "cmd_type ?c = Some cmd_profile_execute" "cmd_profile ?c = Some n" by (simp_all add: typed_def)
  from sv safe_calls(1) [of i] have "serving N l (w\<lparr>sled := s\<rparr>)"
    by (cases rule: at_sled_cases) (use run in \<open>auto simp: at_sled_def\<close>)
  then show ?thesis using handler_runs [OF sv t c(1)] n run
    by (simp add: command_profile_execute_def c(2) tlate_profile_id_def at_sled_def reply_to_def read_determined_def
        reply_serving ok_packet_def del: request_command.simps)
qed

section \<open>From the client to the drive\<close>

lemma served_first:
  assumes "served_by command l (t # ts) w res"
  obtains w1 where "reader_step l w w1" "\<forall>w2. command l t w1 = Inr w2 \<longrightarrow> served_by command l ts w2 res"
  using assms by (elim served_by_ConsE) (metis that sum.distinct(1) sum.inject(2))+

lemma reader_step_fields:
  assumes "reader_step l w w'"
  shows "sled w' = sled w" "profile_tlate w' = profile_tlate w" "written w' = written w" "fd_of l' w' = fd_of l' w"
proof -
  show "sled w' = sled w" "profile_tlate w' = profile_tlate w" using assms by (auto simp: reader_step_def put_rtc3d_def)
  show "written w' = written w" "fd_of l' w' = fd_of l' w"
    using reader_step_same [OF assms] by (auto intro: same_clients_fd)
qed

lemma sent_packet_fields [simp]:
  "sled (sent_packet l p w) = sled w" "profile_tlate (sent_packet l p w) = profile_tlate w"
  "written (sent_packet l p w) = written w @ [(fd_of l w, p)]" "fd_of l' (sent_packet l p w) = fd_of l' w"
  by (simp_all add: sent_packet_def fd_of_def split: option.split)

lemma new_profile_served:
  assumes served: "served_by command_handler l [t1, t2] w res" and sv: "serving N l w"
    and t1: "parser_parse_string t1 = Inr (Some (request_command (Set_profile n tab type x tm None)))"
    and t2: "parser_parse_string t2 = Inr (Some (request_command (Execute n)))"
    and n: "profile_tlate w n = None" and i: "free_profile (profiles (sled w)) = Some i"
    and idle: "mp_state_of (sled w) = ST_MP_PP_IDLE" and x: "number_value x = Fin q" "\<bar>q\<bar> \<le> 1 / 2"
    and tm: "field_value 0 F_DEC (wanted tab type (Fin q) (number_value tm)) = Inr h"
  obtains w' rs where "res = Inr w'"
    "written w' = written w @ [(fd_of l w, ok_packet ''ok-profile-set''), (fd_of l w, ok_packet ''ok-profile-execute'')]"
    "mp_state_of (sled w') = ST_MP_PP_SP_NACK"
    "sdo_backlog (sled w') = sdo_backlog (sled w) @ map sdo_frame rs
        @ [write_req_frame OB_MOTION_TASK 0 (word_of_int (201 + int i)) 2, write_req_frame OB_CONTROL_WORD 0 0x3F 2]"
    "\<forall>f. \<exists>v. field_value 0 f (wanted tab type (Fin q) (number_value tm)) = Inr v \<and> tasks m0 (sled w') (201 + i) f = word_of_int v"
proof -
  let ?u = "number_value tm"
  let ?s = "update_profile i (set_up i tab type (Fin q) ?u) (sled w)"
  from served obtain w1 where w1: "reader_step l w w1"
    "\<forall>w2. command_handler l t1 w1 = Inr w2 \<longrightarrow> served_by command_handler l [t2] w2 res" by (rule served_first)
  note f1 = reader_step_fields [OF w1(1)]
  have sv1: "serving N l w1" by (rule serving_reader_step [OF sv w1(1)])
  define w2 where "w2 = sent_packet l (ok_packet ''ok-profile-set'')
    (w1\<lparr>sled := ?s, profile_tlate := (profile_tlate w)(n \<mapsto> int i)\<rparr>)"
  have far: "\<not> d_gt (d_abs (number_value x)) (Fin (1 / 2))" using x by simp
  have h1: "command_handler l t1 w1 = Inr w2"
    using define_profile [OF sv1 _ _ far t1, of i] n i by (simp add: f1 w2_def x(1))
  have b: "not_bye t1" using t1 by (simp add: not_bye_def typed_def)
  have sv2: "serving N l w2" using settled_handler [OF sv1 b] h1 by simp
  from w1(2) [rule_format, OF h1] obtain w3 where w3: "reader_step l w2 w3"
    "\<forall>w4. command_handler l t2 w3 = Inr w4 \<longrightarrow> served_by command_handler l [] w4 res" by (rule served_first)
  note f3 = reader_step_fields [OF w3(1)]
  have sv3: "serving N l w3" by (rule serving_reader_step [OF sv2 w3(1)])
  have s3: "sled w3 = ?s" "profile_tlate w3 n = Some (int i)" by (simp_all add: f3 w2_def)
  have inv: "sys_inv (sled w)" "sys_inv ?s"
    using sv sv3 s3(1) by (simp_all add: serving_def server_inv_but_def server_rest_def)
  then have len: "length (profiles (sled w)) = MAX_PROFILES" by (simp add: sys_inv_def prof_inv_def table_ok_def)
  with free_profile_Some [OF i] have im: "i < MAX_PROFILES" by simp
  have p: "profiles ?s ! i = set_up i tab type (Fin q) ?u (profiles (sled w) ! i)"
    using im len by (simp add: update_profile_def)
  have hd: "profile_handle (int i) ?s" using im len p by (simp add: profile_handle_def set_up_fields)
  note up = set_up_upload [OF inv(2) im p wanted_value [OF x(2) tm]]
  have mp: "mp_state_of ?s = ST_MP_PP_IDLE" using idle by (simp add: update_profile_def)
  from execute_profile [OF up(1) [of m0], of "int i", OF _ hd mp] obtain s4 rs where
    s4: "sled_profile_execute (int i) ?s = Inr (0, s4)" "mp_state_of s4 = ST_MP_PP_SP_NACK"
    "sdo_backlog s4 = sdo_backlog ?s @ map sdo_frame rs
      @ [write_req_frame OB_MOTION_TASK 0 (word_of_int (201 + int i)) 2, write_req_frame OB_CONTROL_WORD 0 0x3F 2]"
    "\<forall>f. \<exists>v. desired ?s i f = Inr v \<and> tasks m0 s4 (201 + i) f = word_of_int v" by auto
  have bl: "sdo_backlog ?s = sdo_backlog (sled w)" by (simp add: update_profile_def sdo_backlog_def)
  let ?w4 = "sent_packet l (ok_packet ''ok-profile-execute'') (w3\<lparr>sled := s4\<rparr>)"
  have "command_handler l t2 w3 = Inr ?w4"
    by (rule run_profile [OF sv3 s3(2) t2]) (simp add: s3(1) s4(1))
  from w3(2) [rule_format, OF this] obtain w' where w': "res = Inr w'" "reader_step l ?w4 w'" by (auto elim: served_by_NilE)
  note f5 = reader_step_fields [OF w'(2)]
  show thesis
  proof (rule that)
    show "res = Inr w'" by (rule w'(1))
    show "written w' = written w @ [(fd_of l w, ok_packet ''ok-profile-set''), (fd_of l w, ok_packet ''ok-profile-execute'')]"
      by (simp add: f5 f3 f1 w2_def)
  qed (use s4 up(2) bl in \<open>simp_all add: f5\<close>)
qed

text \<open>
  C2: from the text of a request to the motion of the sled. A client that has nothing pending defines a profile under a number it has
  not used, in two packets: the first sets table, position (a number with or without a point, up to half a metre, absolute or
  relative) and time, its words and numbers separated by blanks; the second has the
  profile executed. The network cuts the two packets into pieces in any way; the drive is idle, a slot is
  free, and half the time in milliseconds fits an integer. Then handling the pieces ends well: the client gets exactly two answers, that the
  profile has been set and that it is executed; the requests that wait to be sent to the drive are those from before, then the
  settings, then the number of the slot and the control word that starts the motion, in this order; when the drive has
  processed them, the motion task that is started holds the settings that follow from the numbers in the text as the parser reads them, and its position is
  less than 1.03 micrometres away from the decimal number in the text, three roundings (to \<^verbatim>\<open>double\<close>, to \<^verbatim>\<open>float\<close>, to a whole
  number of micrometres) included; and the motion machine waits for the drive to acknowledge the set-point.
\<close>

theorem request_reaches_drive:
  assumes inv: "server_inv w" and c: "net_conns w c = Some conn" and rc: "rtc3d_conns w (conn_local conn) = Some rc"
    and idle: "reader_of rc = Header []" and chunks: "concat chunks = packet_bytes (spell xs) @ packet_bytes t2"
    and short: "short_text (spell xs)" "short_text t2"
    and xs: "spelling_ok xs" "map (\<lambda>(gap, x). lexeme_token x) xs = request_toks (Set_profile n tab type x tm None)"
    and t2: "parser_parse_string t2 = Inr (Some (request_command (Execute n)))"
    and n: "profile_tlate w n = None" and i: "free_profile (profiles (sled w)) = Some i"
    and mp: "mp_state_of (sled w) = ST_MP_PP_IDLE" and x: "\<bar>decimal (position_lexeme xs)\<bar> \<le> 1 / 2"
    and tm: "field_value 0 F_DEC (wanted tab type (number_value x) (number_value tm)) = Inr h"
  shows "\<exists>w' rs v. run_steps (map (read_handler command_handler c) chunks) w = Inr w' \<and> server_inv w'
    \<and> written w' = written w @ [(conn_fd conn, ok_packet ''ok-profile-set''), (conn_fd conn, ok_packet ''ok-profile-execute'')]
    \<and> mp_state_of (sled w') = ST_MP_PP_SP_NACK
    \<and> sdo_backlog (sled w') = sdo_backlog (sled w) @ map sdo_frame rs
        @ [write_req_frame OB_MOTION_TASK 0 (word_of_int (201 + int i)) 2, write_req_frame OB_CONTROL_WORD 0 0x3F 2]
    \<and> (\<forall>f. \<exists>u. field_value 0 f (wanted tab type (number_value x) (number_value tm)) = Inr u
         \<and> tasks m0 (sled w') (201 + i) f = word_of_int u)
    \<and> tasks m0 (sled w') (201 + i) F_P = word_of_int v
    \<and> \<bar>of_int v - decimal (position_lexeme xs) * 1000000\<bar> < 103 / 100"
proof -
  let ?l = "conn_local conn" and ?run = "run_steps (map (read_handler command_handler c) chunks) w"
  note t1 = spelling_parses [OF xs]
  from number_of_lexeme [OF position_lexeme_token [OF xs(2)] x] obtain q where
    q: "number_value x = Fin q" "\<bar>q\<bar> \<le> 1 / 2"
      "\<bar>q - decimal (position_lexeme xs)\<bar> \<le> pow2 (- 25) + pow2 (- 54)" .
  have "\<forall>t \<in> set [spell xs, t2]. short_text t \<and> not_bye t" using short t1 t2 by (simp add: not_bye_def typed_def)
  note ps = packets_served [OF inv c rc idle this, of chunks]
  have sb: "served_by command_handler ?l [spell xs, t2] w ?run" and k: "kept ?run" using ps chunks by simp_all
  have sv: "serving (net_conns w) ?l w" using server_inv_serving [OF inv] rc by simp
  from sb sv t1 t2 n i mp q(1,2) tm [unfolded q(1)] obtain w' rs where w': "?run = Inr w'"
    "written w' = written w @ [(fd_of ?l w, ok_packet ''ok-profile-set''), (fd_of ?l w, ok_packet ''ok-profile-execute'')]"
    "mp_state_of (sled w') = ST_MP_PP_SP_NACK"
    "sdo_backlog (sled w') = sdo_backlog (sled w) @ map sdo_frame rs
        @ [write_req_frame OB_MOTION_TASK 0 (word_of_int (201 + int i)) 2, write_req_frame OB_CONTROL_WORD 0 0x3F 2]"
    "\<forall>f. \<exists>v. field_value 0 f (wanted tab type (Fin q) (number_value tm)) = Inr v \<and> tasks m0 (sled w') (201 + i) f = word_of_int v"
    by (rule new_profile_served)
  have "\<bar>q\<bar> \<le> 2147" using q(2) by simp
  with position_error [of "wanted tab type (Fin q) (number_value tm)" q 0] obtain v where
    "field_value 0 F_P (wanted tab type (Fin q) (number_value tm)) = Inr v" and e: "\<bar>of_int v - q * 1000000\<bar> < 1 + 1 / 1000000"
    by (auto simp: wanted_def)
  with w'(5) have "tasks m0 (sled w') (201 + i) F_P = word_of_int v" by (metis sum.inject(2))
  moreover have "server_inv w'" using k w'(1) by simp
  moreover have "\<bar>of_int v - decimal (position_lexeme xs) * 1000000\<bar> < 103 / 100"
  proof -
    have "pow2 (- 25) + pow2 (- 54) \<le> 299 / 10000000000" by (simp add: pow2_def)
    with q(3) e show ?thesis by (simp only: abs_less_iff abs_le_iff) (elim conjE, intro conjI; linarith)
  qed
  ultimately show ?thesis using w' q(1) client_fd(2) [OF inv c] by metis
qed

text \<open>A library on an enabled drive that is homed and at rest, and a client that defines profile 3.\<close>

definition ready_sled :: sled_env where
  "ready_sled = (let s = sample_sled_env ST_NET_PREOPERATIONAL (\<lambda>_. (7, 0)) in
     s\<lparr>mch_net := (mch_net s)\<lparr>net_state := ST_NET_OPERATIONAL\<rparr>, mch_ds := (mch_ds s)\<lparr>ds_state := ST_DS_OPERATION_ENABLED\<rparr>,
       mch_mp := (mch_mp s)\<lparr>mp_state := ST_MP_PP_IDLE\<rparr>, mch_sdo := mch_sdo_create\<lparr>sdo_state := ST_SDO_WAITING\<rparr>\<rparr>)"

lemma ready_sled_inv: "sys_inv ready_sled"
proof -
  have "sys_inv (sample_sled_env ST_NET_PREOPERATIONAL (\<lambda>_. (7, 0)))" by (rule sample_sled_inv) simp_all
  then show ?thesis
    by (simp add: ready_sled_def Let_def sys_inv_def intf_inv_def net_inv_def ds_inv_def sdo_quiet_def ds_handlers_set_def
        ds_mp_tied_def net_handlers_set_def net_ds_tied_def intf_wired_def prof_inv_def table_ok_def links_ok_def
        requests_ok_def ids_ok_def mch_sdo_create_def)
qed

lemma ready_sled_fields:
  "mp_state_of ready_sled = ST_MP_PP_IDLE" "sdo_backlog ready_sled = []"
  "profiles ready_sled = sample_table[0 := linked_profile, 2 := created_profile 2 blank_profile]"
  by (simp_all add: ready_sled_def Let_def sdo_backlog_def mch_sdo_create_def)

lemma ready_slot: "free_profile (profiles ready_sled) = Some 1"
  unfolding ready_sled_fields(3)
  by (rule free_profileI) (simp_all add: MAX_PROFILES_def sample_table_def cleared_profile_def sled_profile_mark_as_unsaved_def)

text \<open>\<^verbatim>\<open>profile 3 set table 1 abs 0.250074014 2\<close>, a position that is no whole number of micrometres.\<close>

definition set_spelling :: "(u8 list \<times> lexeme) list" where
  "set_spelling =
     [([], Word_lx (ascii ''profile'')), ([32], Int_lx False (ascii ''3'')), ([32], Word_lx (ascii ''set'')),
      ([32], Word_lx (ascii ''table'')), ([32], Int_lx False (ascii ''1'')), ([32], Word_lx (ascii ''abs'')),
      ([32], Dec_lx False (ascii ''0'') (ascii ''250074014'')), ([32], Int_lx False (ascii ''2''))]"

definition execute_text :: "u8 list" where
  "execute_text = ascii ''profile 3 execute''"

definition set_position :: number where
  "set_position = N_float (to_float (atof False (ascii ''0'') (ascii ''250074014'')))"

lemma motion_texts:
  "spell set_spelling = ascii ''profile 3 set table 1 abs 0.250074014 2''"
  "parser_parse_string execute_text = Inr (Some (request_command (Execute 3)))"
  "short_text (spell set_spelling)" "short_text execute_text" "spelling_ok set_spelling"
  by code_simp+

lemma set_tokens:
  "map (\<lambda>(gap, x). lexeme_token x) set_spelling
    = request_toks (Set_profile 3 1 pos_absolute set_position (N_int 2) None)"
  by code_simp

lemma set_decimal: "decimal (position_lexeme set_spelling) = 250074014 / 1000000000"
  by (simp add: position_lexeme_def set_spelling_def digits_value_def ascii_def signed_def)

lemma motion_value:
  "field_value 0 F_DEC (wanted 1 pos_absolute (number_value set_position) (number_value (N_int 2))) = Inr 999"
  by code_simp

theorem request_reaches_drive_witness:
  "\<exists>w' rs v. run_steps (map (read_handler command_handler 2)
      [take 7 (packet_bytes (spell set_spelling)), drop 7 (packet_bytes (spell set_spelling)) @ packet_bytes execute_text])
        (one_client ready_sled) = Inr w'
    \<and> written w' = [(5, ok_packet ''ok-profile-set''), (5, ok_packet ''ok-profile-execute'')]
    \<and> sdo_backlog (sled w') = map sdo_frame rs
        @ [write_req_frame OB_MOTION_TASK 0 202 2, write_req_frame OB_CONTROL_WORD 0 0x3F 2]
    \<and> tasks (\<lambda>_ _. 0) (sled w') 202 F_P = word_of_int v \<and> \<bar>of_int v - 250074014 / 1000\<bar> < (103 / 100 :: rat)"
proof -
  let ?t = "spell set_spelling"
  let ?w = "one_client ready_sled" and ?chunks = "[take 7 (packet_bytes ?t), drop 7 (packet_bytes ?t) @ packet_bytes execute_text]"
  let ?conn = "\<lparr>conn_fd = 5, conn_local = 3\<rparr>"
  have w: "net_conns ?w 2 = Some ?conn" "rtc3d_conns ?w (conn_local ?conn) = Some (new_rtc3d_connection 2)"
    "profile_tlate ?w 3 = None" "sled ?w = ready_sled" "written ?w = []"
    by (simp_all add: one_client_def started_process_def)
  have s: "free_profile (profiles (sled ?w)) = Some 1" "mp_state_of (sled ?w) = ST_MP_PP_IDLE"
    using ready_slot ready_sled_fields(1) by (simp_all add: w(4))
  have cut: "concat ?chunks = packet_bytes ?t @ packet_bytes execute_text" by simp
  have x: "\<bar>decimal (position_lexeme set_spelling)\<bar> \<le> 1 / 2" by (simp add: set_decimal)
  from request_reaches_drive [OF one_client_inv [OF ready_sled_inv] w(1,2) fresh_reader cut motion_texts(3,4,5) set_tokens
      motion_texts(2) w(3) s x motion_value, of "\<lambda>_ _. 0"]
  show ?thesis by (auto simp: w(4,5) ready_sled_fields(2) set_decimal)
qed

end
