(* ===== verification/Main_Program.thy ===== *)
theory Main_Program
  imports Server_Motion
begin

text \<open>
  The main program, \<^verbatim>\<open>src/main.cc\<close>: options, the daemon, the real-time environment, the user, and the
  server. The answers of the operating system and of libevent are the record \<open>main_os\<close>; every call
  is made at most once. Of the process, what the calls change is kept.
\<close>

section \<open>Data\<close>

definition MIN_MEMLOCK :: nat where "MIN_MEMLOCK = 104857600"

record main_os =
  os_getpwnam :: "string \<Rightarrow> u32 option"
  os_fork :: int
  os_setsid :: int
  os_chdir :: int
  os_sched_setscheduler :: int
  os_getrlimit :: int
  os_rlim_cur :: nat
  os_mlockall :: int
  os_setuid :: "u32 \<Rightarrow> int"
  os_event_base :: bool

record process_t =
  proc_uid :: u32
  in_session :: bool
  to_log :: bool
  signals_handled :: bool
  realtime :: bool
  memory_locked :: bool

text \<open>What \<^verbatim>\<open>getopt_long\<close> finds, in the order of the command line; \<^verbatim>\<open>--no-daemon\<close> it handles itself.\<close>

datatype main_option = Opt_no_daemon | Opt_user string | Opt_help | Opt_invalid

datatype signal_t = SIGSEGV | SIGTERM

section \<open>Functions\<close>

text \<open>Both signals for which the handler is installed end the process.\<close>

fun signal_handler :: "signal_t \<Rightarrow> stop" where
  "signal_handler SIGSEGV = Exit 1"
| "signal_handler SIGTERM = Exit 0"

text \<open>
  A line of output. Once \<^verbatim>\<open>stdout\<close> and \<^verbatim>\<open>stderr\<close> lead to the system log, \<^verbatim>\<open>writer\<close> is called for every line, and
  reaches its end without returning a value.
\<close>

definition writer :: "process_t action" where
  "writer p = Inl (Undefined_behaviour Missing_return)"

definition print_line :: "process_t action" where
  "print_line p = when_step (to_log p) writer p"

definition setup_realtime :: "main_os \<Rightarrow> process_t \<Rightarrow> (int \<times> process_t) outcome" where
  "setup_realtime os p =
     (if os_sched_setscheduler os = - 1 then bind_outcome (print_line p) (\<lambda>p. Inr (- 1, p))
      else let p = p\<lparr>realtime := True\<rparr> in
      if os_getrlimit os = - 1 then bind_outcome (print_line p) (\<lambda>p. Inr (- 1, p))
      else if os_rlim_cur os < MIN_MEMLOCK then bind_outcome (print_line p) (\<lambda>p. Inr (- 1, p))
      else if os_mlockall os = - 1 then bind_outcome (print_line p) (\<lambda>p. Inr (- 1, p))
      else Inr (0, p\<lparr>memory_locked := True\<rparr>))"

definition to_syslog :: "process_t \<Rightarrow> process_t" where
  "to_syslog p = p\<lparr>to_log := True\<rparr>"

definition daemonize :: "main_os \<Rightarrow> process_t action" where
  "daemonize os p =
     (if os_fork os < 0 then Inl (Exit 1)
      else if 0 < os_fork os then Inl (Exit 0)
      else if os_setsid os < 0 then Inl (Exit 1)
      else if os_chdir os < 0 then Inl (Exit 1)
      else Inr (to_syslog (p\<lparr>in_session := True\<rparr>)))"

text \<open>The result \<open>- 1\<close>, of an unsigned type, says that there is no such user.\<close>

definition get_uid_by_name :: "main_os \<Rightarrow> string \<Rightarrow> u32" where
  "get_uid_by_name os name = (case os_getpwnam os name of None \<Rightarrow> - 1 | Some uid \<Rightarrow> uid)"

fun parse_options :: "main_os \<Rightarrow> main_option list \<Rightarrow> bool \<Rightarrow> u32 \<Rightarrow> (bool \<times> u32) outcome" where
  "parse_options os [] daemonize_flag uid = Inr (daemonize_flag, uid)"
| "parse_options os (Opt_no_daemon # opts) daemonize_flag uid = parse_options os opts False uid"
| "parse_options os (Opt_user name # opts) daemonize_flag uid =
     (let uid = get_uid_by_name os name in
      if uid = - 1 then Inl (Exit 1) else parse_options os opts daemonize_flag uid)"
| "parse_options os (Opt_help # opts) daemonize_flag uid = Inl (Exit 0)"
| "parse_options os (Opt_invalid # opts) daemonize_flag uid = parse_options os opts daemonize_flag uid"

definition drop_privileges :: "main_os \<Rightarrow> u32 \<Rightarrow> process_t action" where
  "drop_privileges os uid p =
     (if uid = - 1 then Inr p
      else if os_setuid os uid = - 1 then bind_outcome (print_line p) (\<lambda>_. Inl (Exit 1))
      else Inr (p\<lparr>proc_uid := uid\<rparr>))"

text \<open>
  Up to the creation of the server. \<^verbatim>\<open>event_base_priority_init\<close> is applied to the event base before
  it is compared with NULL.
\<close>

definition main_prepare :: "main_os \<Rightarrow> main_option list \<Rightarrow> process_t action" where
  "main_prepare os opts p =
     bind_outcome (parse_options os opts True (get_uid_by_name os ''sled'')) (\<lambda>(daemonize_flag, uid).
       if daemonize_flag \<and> uid = - 1 then Inl (Exit 1)
       else bind_outcome (when_step daemonize_flag (daemonize os) p) (\<lambda>p.
         bind_outcome (setup_realtime os (p\<lparr>signals_handled := True\<rparr>)) (\<lambda>(result, p).
           if result = - 1 then bind_outcome (print_line p) (\<lambda>_. Inl (Exit 1))
           else bind_outcome (drop_privileges os uid p) (\<lambda>p.
             if \<not> os_event_base os then Inl (Undefined_behaviour Null_dereference) else Inr p))))"

text \<open>Up to the event loop, and what follows it if it ends.\<close>

definition main_start ::
    "main_os \<Rightarrow> main_option list \<Rightarrow> process_t \<Rightarrow> 'z server_env_scheme \<Rightarrow> (process_t \<times> 'z server_env_scheme) outcome" where
  "main_start os opts p w =
     bind_outcome (main_prepare os opts p) (\<lambda>p.
       bind_outcome (setup_sled_server_context w) (\<lambda>(created, w).
         if \<not> created then Inl (Exit 1)
         else bind_outcome (print_line p) (\<lambda>p. Inr (p, w))))"

definition main_stop :: "process_t \<Rightarrow> 'z server_env_scheme \<Rightarrow> stop option" where
  "main_stop p w =
     (case print_line p of
        Inl e \<Rightarrow> Some e
      | Inr p \<Rightarrow> map_option (\<lambda>r. case r of Inl e \<Rightarrow> e | Inr w \<Rightarrow> Exit 0) (teardown_sled_server_context w))"

section \<open>Start-up\<close>

text \<open>The user asked for, the last one of several, or \<^verbatim>\<open>sled\<close>.\<close>

fun chosen_user :: "main_option list \<Rightarrow> string \<Rightarrow> string" where
  "chosen_user [] name = name"
| "chosen_user (Opt_user name' # opts) name = chosen_user opts name'"
| "chosen_user (_ # opts) name = chosen_user opts name"

lemma parse_options_Inr:
  assumes "parse_options os opts flag (get_uid_by_name os name) = Inr (flag', uid)"
  shows "flag' = (flag \<and> Opt_no_daemon \<notin> set opts)" and "uid = get_uid_by_name os (chosen_user opts name)"
    and "Opt_help \<notin> set opts"
  using assms
  by (induction opts name arbitrary: flag rule: chosen_user.induct) (auto simp: Let_def split: if_splits)

lemma setup_realtime_ok:
  assumes "setup_realtime os p = Inr (r, p')" and "r \<noteq> - 1"
  shows "p' = p\<lparr>realtime := True, memory_locked := True\<rparr>" and "MIN_MEMLOCK \<le> os_rlim_cur os"
  using assms by (auto simp: setup_realtime_def Let_def bind_outcome_eq_Inr split: if_splits)

lemma main_prepare_Inr:
  assumes "main_prepare os opts p = Inr p'"
  shows "Opt_help \<notin> set opts"
    and "realtime p' \<and> memory_locked p' \<and> signals_handled p' \<and> MIN_MEMLOCK \<le> os_rlim_cur os"
    and "Opt_no_daemon \<notin> set opts \<Longrightarrow> in_session p' \<and> to_log p' \<and> get_uid_by_name os (chosen_user opts ''sled'') \<noteq> - 1"
    and "Opt_no_daemon \<in> set opts \<Longrightarrow> in_session p' = in_session p \<and> to_log p' = to_log p"
    and "proc_uid p' = (if get_uid_by_name os (chosen_user opts ''sled'') = - 1 then proc_uid p
      else get_uid_by_name os (chosen_user opts ''sled''))"
proof -
  let ?uid = "get_uid_by_name os (chosen_user opts ''sled'')"
  from assms obtain flag uid p1 r p2 where
    o: "parse_options os opts True (get_uid_by_name os ''sled'') = Inr (flag, uid)"
    and u: "\<not> (flag \<and> uid = - 1)" and p1: "when_step flag (daemonize os) p = Inr p1"
    and p2: "setup_realtime os (p1\<lparr>signals_handled := True\<rparr>) = Inr (r, p2)" "r \<noteq> - 1"
    and p3: "drop_privileges os uid p2 = Inr p'"
    by (auto simp: main_prepare_def bind_outcome_eq_Inr split: if_splits)
  note f = parse_options_Inr [OF o]
  show "Opt_help \<notin> set opts" by (rule f(3))
  have d: "p1 = (if flag then p\<lparr>in_session := True, to_log := True\<rparr> else p)"
    using p1 by (auto simp: when_step_def daemonize_def to_syslog_def split: if_splits)
  have p': "p' = (if uid = - 1 then p2 else p2\<lparr>proc_uid := uid\<rparr>)"
    using p3 by (auto simp: drop_privileges_def bind_outcome_eq_Inr split: if_splits)
  note r = setup_realtime_ok [OF p2]
  show "realtime p' \<and> memory_locked p' \<and> signals_handled p' \<and> MIN_MEMLOCK \<le> os_rlim_cur os"
    using r by (simp add: p')
  show "Opt_no_daemon \<notin> set opts \<Longrightarrow> in_session p' \<and> to_log p' \<and> ?uid \<noteq> - 1"
    "Opt_no_daemon \<in> set opts \<Longrightarrow> in_session p' = in_session p \<and> to_log p' = to_log p"
    "proc_uid p' = (if ?uid = - 1 then proc_uid p else ?uid)"
    using f(1,2) d r(1) u by (auto simp: p')
qed

text \<open>
  C20: start-up. When the server begins to listen and to open the bus, the process is scheduled in
  real time with its memory locked; and as a daemon it is in a session of its own and runs under the user
  asked for, or \<^verbatim>\<open>sled\<close>. Without the daemon, and without such a user, it keeps the rights of whoever started it.
\<close>

theorem main_privileges:
  assumes "main_prepare os opts p = Inr p'"
  shows "realtime p' \<and> memory_locked p' \<and> MIN_MEMLOCK \<le> os_rlim_cur os
    \<and> (Opt_no_daemon \<notin> set opts \<longrightarrow> in_session p' \<and> os_getpwnam os (chosen_user opts ''sled'') = Some (proc_uid p'))
    \<and> (Opt_no_daemon \<in> set opts \<longrightarrow> proc_uid p' = (case os_getpwnam os (chosen_user opts ''sled'') of
         None \<Rightarrow> proc_uid p | Some uid \<Rightarrow> if uid = - 1 then proc_uid p else uid))"
  using main_prepare_Inr [OF assms] by (auto simp: get_uid_by_name_def split: option.splits)

text \<open>
  C40: the daemon's output. The main program prints a line before it enters the event loop. As a daemon it
  has redirected \<^verbatim>\<open>stdout\<close> to a function that is declared to return a number and does not: the loop
  is never reached without undefined behaviour. With \<^verbatim>\<open>--no-daemon\<close> it is, with the server in order.
\<close>

theorem daemon_output_undefined:
  assumes "fresh_process w" and "main_prepare os opts p = Inr p1" and "setup_sled_server_context w = Inr (True, w1)"
    and "\<not> to_log p"
  shows "if Opt_no_daemon \<in> set opts then main_start os opts p w = Inr (p1, w1) \<and> server_inv w1
    else main_start os opts p w = Inl (Undefined_behaviour Missing_return)"
  using main_prepare_Inr(3,4) [OF assms(2)] assms setup_inv [OF assms(1,3)]
  by (auto simp: main_start_def print_line_def writer_def when_step_def)

text \<open>
  C13: the whole program, from start to end, in the foreground. Once started with \<^verbatim>\<open>--no-daemon\<close>, and after any sequence of
  connections, data, timeouts and frames of the bus that it survives, on the terms of the lifecycle: when
  the event loop ends, the program ends, with exit status 0. The loop that closes the
  connections terminates; every client's descriptor is closed, in the order of the descriptors, and the listening socket
  last; and every object of a connection is freed.
\<close>

theorem main_exits:
  assumes w: "fresh_process w" and p: "\<not> to_log p" "Opt_no_daemon \<in> set opts"
    and start: "main_start os opts p w = Inr (p1, w1)" and run: "server_run w1 evs (Inr w')"
  shows "main_stop p1 w' = Some (Exit 0)
    \<and> (\<exists>w''. teardown_sled_server_context w' = Some (Inr w'') \<and> connection_data w'' = []
        \<and> net_conns w'' = Map.empty \<and> rtc3d_conns w'' = Map.empty \<and> stream_clients w'' = []
        \<and> closed_fds w'' = closed_fds w' @ map fst (connection_data w') @ [sock w'])"
proof -
  from start obtain p2 where p2: "main_prepare os opts p = Inr p2" and s: "setup_sled_server_context w = Inr (True, w1)"
    and pl: "print_line p2 = Inr p1" by (auto simp: main_start_def bind_outcome_eq_Inr split: if_splits)
  have "\<not> to_log p2" using main_prepare_Inr(4) [OF p2 p(2)] p(1) by simp
  with pl have log: "\<not> to_log p1" by (simp add: print_line_def when_step_def)
  have "server_inv w'" using run_kept [OF run setup_inv(1) [OF w s]] by simp
  from teardown_ends [OF this] log show ?thesis by (auto simp: main_stop_def print_line_def when_step_def)
qed

definition sample_main_os :: main_os where
  "sample_main_os = \<lparr>os_getpwnam = (\<lambda>name. if name = ''sled'' then Some 1001 else None), os_fork = 0, os_setsid = 7,
     os_chdir = 0, os_sched_setscheduler = 0, os_getrlimit = 0, os_rlim_cur = 2 * MIN_MEMLOCK, os_mlockall = 0,
     os_setuid = (\<lambda>_. 0), os_event_base = True\<rparr>"

definition root_process :: process_t where
  "root_process = \<lparr>proc_uid = 0, in_session = False, to_log = False, signals_handled = False, realtime = False,
     memory_locked = False\<rparr>"

lemma sample_prepare:
  "\<exists>p'. main_prepare sample_main_os opts root_process = Inr p'" if "set opts \<subseteq> {Opt_no_daemon}"
proof -
  have "parse_options sample_main_os opts flag uid = Inr (flag \<and> opts = [], uid)" for flag uid
    using that by (induction opts arbitrary: flag) auto
  then show ?thesis
    by (simp add: main_prepare_def sample_main_os_def root_process_def get_uid_by_name_def when_step_def daemonize_def
        to_syslog_def setup_realtime_def drop_privileges_def Let_def)
qed

theorem main_privileges_witness:
  "\<exists>p'. main_prepare sample_main_os [] root_process = Inr p' \<and> in_session p' \<and> proc_uid p' = 1001"
proof -
  obtain p' where p': "main_prepare sample_main_os [] root_process = Inr p'" using sample_prepare [of "[]"] by auto
  from main_privileges [OF this] this show ?thesis by (auto simp: sample_main_os_def)
qed

lemma main_starts:
  "\<exists>p1 w1. main_start sample_main_os [Opt_no_daemon] root_process (process_reading f) = Inr (p1, w1)
    \<and> setup_sled_server_context (process_reading f) = Inr (True, w1)"
proof -
  from sample_prepare [of "[Opt_no_daemon]"] obtain p1 where p1: "main_prepare sample_main_os [Opt_no_daemon] root_process = Inr p1" by auto
  have "\<not> to_log p1" using main_prepare_Inr(4) [OF p1] by (simp add: root_process_def)
  moreover from process_reading_setup obtain w1 where "setup_sled_server_context (process_reading f) = Inr (True, w1)" by blast
  ultimately show ?thesis using p1 by (simp add: main_start_def print_line_def when_step_def)
qed

theorem main_exits_witness:
  "\<exists>p1 w1 w'. main_start sample_main_os [Opt_no_daemon] root_process (process_reading (\<lambda>_. Some start_bytes)) = Inr (p1, w1)
    \<and> server_run w1 [Ev_accept, Ev_read 5] (Inr w') \<and> main_stop p1 w' = Some (Exit 0)"
proof -
  let ?w = "process_reading (\<lambda>_. Some start_bytes)"
  from main_starts obtain p1 w1 where m: "main_start sample_main_os [Opt_no_daemon] root_process ?w = Inr (p1, w1)"
    "setup_sled_server_context ?w = Inr (True, w1)" by blast
  with client_starts obtain w' where run: "server_run w1 [Ev_accept, Ev_read 5] (Inr w')" by auto
  have "\<not> to_log root_process" by (simp add: root_process_def)
  from main_exits [OF process_reading_fresh this _ m(1) run] m(1) run show ?thesis by auto
qed

theorem daemon_output_undefined_witness:
  "main_start sample_main_os [] root_process started_process = Inl (Undefined_behaviour Missing_return)
    \<and> (\<exists>p1 w1. main_start sample_main_os [Opt_no_daemon] root_process started_process = Inr (p1, w1) \<and> server_inv w1)"
proof -
  obtain p1 p2 where p: "main_prepare sample_main_os [] root_process = Inr p1"
    "main_prepare sample_main_os [Opt_no_daemon] root_process = Inr p2" using sample_prepare by fastforce
  from started_process_setup obtain w1 where w1: "setup_sled_server_context started_process = Inr (True, w1)" by blast
  have "\<not> to_log root_process" by (simp add: root_process_def)
  from daemon_output_undefined [OF started_process_fresh p(1) w1 this]
    daemon_output_undefined [OF started_process_fresh p(2) w1 this] show ?thesis by auto
qed

end
