(* ===== verification/Drive_Loop.thy ===== *)
theory Drive_Loop
  imports Sled_Props
begin

text \<open>
  The library and the drive as a closed loop. The drive is specified abstractly, by the state machine of
  CiA 402 for the states and control words that \<^verbatim>\<open>libsled/machines/mch_ds.cc\<close> uses, and by the
  read of object 0x3518 that the code sends to clear a fault. It takes the requests of the library from
  their bytes, in the order in which they were made, and reports its state in the status word of the first
  transmit PDO, whenever it likes. What is shown: whatever the interleaving, the library brings the
  drive to its enabled state.
\<close>

section \<open>The drive\<close>

datatype drive = Drive_fault | Switch_on_disabled | Ready_to_switch_on | Switched_on | Operation_enabled

text \<open>
  The commands are told apart by the bits 0 to 3 and 7 of the control word: shutdown, switch on
  (which is also disable operation), and enable operation. The others are never sent.
\<close>

definition control :: "drive \<Rightarrow> u32 \<Rightarrow> drive" where
  "control d v =
     (if v AND 0x87 = 0x06 then (if d = Drive_fault then d else Ready_to_switch_on)
      else if v AND 0x8F = 0x07
      then (if d = Ready_to_switch_on \<or> d = Operation_enabled then Switched_on else d)
      else if v AND 0x8F = 0x0F then (if d = Switched_on then Operation_enabled else d)
      else d)"

definition react :: "drive \<Rightarrow> can_message_t \<Rightarrow> drive" where
  "react d c =
     (let m = msg_data c in
      if byte0 m = 0x40
      then (if frame_index m = 0x3518 \<and> byte3 m = 1 \<and> d = Drive_fault then Switch_on_disabled else d)
      else if frame_index m = OB_CONTROL_WORD \<and> byte3 m = 0 then control d (frame_value m) else d)"

text \<open>The status words of a drive whose power stage has voltage.\<close>

fun reports :: "drive \<Rightarrow> u16 \<Rightarrow> bool" where
  "reports Drive_fault s = (s AND 0x4F = 0x08 \<and> s AND 0x10 = 0x10)"
| "reports Switch_on_disabled s = (s AND 0x4F = 0x40 \<and> s AND 0x10 = 0x10)"
| "reports Ready_to_switch_on s = (s AND 0x6F = 0x21 \<and> s AND 0x10 = 0x10)"
| "reports Switched_on s = (s AND 0x6F = 0x23 \<and> s AND 0x10 = 0x10)"
| "reports Operation_enabled s = (s AND 0x6F = 0x27 \<and> s AND 0x10 = 0x10)"

definition tpdo1_status :: "bytes8 \<Rightarrow> u16" where
  "tpdo1_status b = push_bit 8 (ucast (byte1 b)) OR ucast (byte0 b)"

section \<open>The loop\<close>

text \<open>
  A run of the loop from the state \<open>w\<close> of the library, with \<open>p\<close> requests processed by a drive in state
  \<open>d\<close>: the drive processes the next request, or sends a frame with its status, which the library handles. The
  number counts the frames that were sent when every request had been processed.
\<close>

inductive drive_run ::
    "'z sled_env_scheme \<times> nat \<times> drive \<Rightarrow> nat \<Rightarrow> 'z sled_env_scheme \<times> nat \<times> drive \<Rightarrow> bool" for c where
  run_start: "drive_run c 0 c"
| run_process: "drive_run c n (w, p, d) \<Longrightarrow> p < length (sdo_backlog w) \<Longrightarrow>
    drive_run c n (w, Suc p, react d (sdo_backlog w ! p))"
| run_report: "drive_run c n (w, p, d) \<Longrightarrow> reports d (tpdo1_status b) \<Longrightarrow> intf_on_tpdo 1 b w = Inr w' \<Longrightarrow>
    drive_run c (if p = length (sdo_backlog w) then Suc n else n) (w', p, d)"

section \<open>Requests and reports\<close>

abbreviation control_request :: "u32 \<Rightarrow> can_message_t" where
  "control_request v \<equiv> sdo_frame (plain_write OB_CONTROL_WORD 0 v 2)"

abbreviation clear_request :: can_message_t where
  "clear_request \<equiv> sdo_frame (plain_read 0x3518 1)"

lemma react_control [simp]: "react d (control_request v) = control d v"
  by (simp add: react_def sdo_frame_def plain_write_def write_request_def write_req_frame_bytes
      frame_index_def frame_value_def)

lemma react_mode [simp]: "react d (sdo_frame (plain_write 0x6060 0 v 1)) = d"
  by (simp add: react_def sdo_frame_def plain_write_def write_request_def write_req_frame_bytes
      frame_index_def frame_value_def OB_CONTROL_WORD_def)

lemma react_clear [simp]:
  "react d clear_request = (if d = Drive_fault then Switch_on_disabled else d)"
  by (simp add: react_def sdo_frame_def plain_read_def read_req_frame_def frame_index_def le16_def)

lemma control_words [simp]:
  "control d 0x06 = (if d = Drive_fault then d else Ready_to_switch_on)"
  "control d 0x07 = (if d = Ready_to_switch_on \<or> d = Operation_enabled then Switched_on else d)"
  "control d 0x0F = (if d = Switched_on then Operation_enabled else d)"
  "control Operation_enabled 0x2F = Operation_enabled" "control Operation_enabled 0x3F = Operation_enabled"
  by (simp_all add: control_def)

text \<open>A request that an enabled drive survives; the motion machine makes no other.\<close>

definition harmless :: "can_message_t \<Rightarrow> bool" where
  "harmless c \<longleftrightarrow> react Operation_enabled c = Operation_enabled"

lemma mp_harmless: "\<forall>c \<in> set (mp_machine.step_out s e). harmless c"
proof -
  have "\<forall>c \<in> set (mp_exit_out s). harmless c" "\<forall>c \<in> set (mp_enter_out s). harmless c" for s
    by (cases s; simp add: harmless_def)+
  then show ?thesis by (auto simp: mp_machine.step_out_def)
qed

fun drive_event :: "drive \<Rightarrow> mch_ds_event_t" where
  "drive_event Drive_fault = EV_DS_FAULT"
| "drive_event Switch_on_disabled = EV_DS_NOT_READY_TO_SWITCH_ON"
| "drive_event Ready_to_switch_on = EV_DS_READY_TO_SWITCH_ON"
| "drive_event Switched_on = EV_DS_SWITCHED_ON"
| "drive_event Operation_enabled = EV_DS_OPERATION_ENABLED"

lemma report_events:
  assumes "reports d s"
  shows "status_ds_events s = [drive_event d, EV_DS_VOLTAGE_ENABLED]"
proof -
  have m: "s AND 0x4F = x AND 0x4F" if "s AND 0x6F = x" for x
  proof -
    have "(s AND 0x6F) AND 0x4F = s AND 0x4F" by (simp add: and.assoc)
    with that show ?thesis by simp
  qed
  note ne = m [of "0x21"] m [of "0x23"] m [of "0x27"] m [of "0x07"]
  show ?thesis
  proof (cases d)
    case Drive_fault
    with assms ne have "s AND 0x6F \<noteq> 0x21" "s AND 0x6F \<noteq> 0x23" "s AND 0x6F \<noteq> 0x27" "s AND 0x6F \<noteq> 0x07" by force+
    with assms Drive_fault show ?thesis by (simp add: status_ds_events_def)
  next
    case Switch_on_disabled
    with assms ne have "s AND 0x6F \<noteq> 0x21" "s AND 0x6F \<noteq> 0x23" "s AND 0x6F \<noteq> 0x27" "s AND 0x6F \<noteq> 0x07" by force+
    with assms Switch_on_disabled show ?thesis by (simp add: status_ds_events_def)
  qed (use assms ne in \<open>simp_all add: status_ds_events_def\<close>)
qed

section \<open>One report\<close>

text \<open>The requests of a change of state of the drive machine that does not leave the enabled state.\<close>

definition change_out :: "mch_ds_state_t \<Rightarrow> mch_ds_state_t \<Rightarrow> can_message_t list" where
  "change_out s s' =
     (if s' = s then []
      else ds_enter_out s' @ (if s' = ST_DS_OPERATION_ENABLED then mp_enter_out ST_MP_SWITCH_MODE_HOMING else []))"

lemma ds_event_out:
  assumes "ds_inv w" and "s = ds_state_of w" and "s' = mch_ds_next_state_given_event s e"
    and "s = ST_DS_OPERATION_ENABLED \<longrightarrow> s' = s"
  obtains w' where "mch_ds_handle_event e w = Inr w'" "ds_inv w'" "ds_state_of w' = s'"
    "sdo_backlog w' = sdo_backlog w @ change_out s s'"
proof -
  from ds_handle [OF assms(1), of e] obtain w' where
    w': "mch_ds_handle_event e w = Inr w'" "ds_inv w'" "ds_state_of w' = s'"
      "sdo_backlog w' = sdo_backlog w @ ds_step_out s (mp_state_of w) e"
    unfolding assms(2,3) by blast
  have "mp_exit_out (mp_state_of w) = []" if "s \<noteq> ST_DS_OPERATION_ENABLED"
    using that assms(1,2) by (simp add: ds_inv_def ds_mp_tied_def)
  then have "ds_step_out s (mp_state_of w) e = change_out s s'"
    using assms(4) by (auto simp: ds_step_out_def change_out_def assms(3))
  with w' that show thesis by simp
qed

lemma mp_events_out:
  assumes "ds_inv w" and "\<forall>e \<in> set es. e \<noteq> EV_MP_DS_OPERATIONAL \<and> e \<noteq> EV_MP_DS_INOPERATIONAL"
  shows "\<exists>w' out. run_steps (map mch_mp_handle_event es) w = Inr w' \<and> ds_inv w' \<and> ds_state_of w' = ds_state_of w
    \<and> sdo_backlog w' = sdo_backlog w @ out \<and> (\<forall>c \<in> set out. harmless c)
    \<and> (ds_state_of w \<noteq> ST_DS_OPERATION_ENABLED \<longrightarrow> out = [])"
  using assms
proof (induction es arbitrary: w)
  case (Cons e es)
  then have e: "e \<noteq> EV_MP_DS_OPERATIONAL" "e \<noteq> EV_MP_DS_INOPERATIONAL" by simp_all
  from mp_event_keeps_ds_inv [OF Cons.prems(1) e] mp_in_ds [of w e] Cons.prems(1) obtain w1 where
    w1: "mch_mp_handle_event e w = Inr w1" "ds_inv w1" "mch_ds w1 = mch_ds w"
      "sdo_backlog w1 = sdo_backlog w @ mp_machine.step_out (mp_state_of w) e"
    by (auto simp: ds_inv_def)
  have off: "mp_machine.step_out (mp_state_of w) e = []" if "ds_state_of w \<noteq> ST_DS_OPERATION_ENABLED"
    using that e Cons.prems(1) mp_next_disabled_iff [of ST_MP_DISABLED e]
    by (simp add: ds_inv_def ds_mp_tied_def mp_machine.step_out_def)
  from Cons.IH [OF w1(2)] Cons.prems(2) obtain w2 out where
    "run_steps (map mch_mp_handle_event es) w1 = Inr w2" "ds_inv w2" "ds_state_of w2 = ds_state_of w"
    "sdo_backlog w2 = sdo_backlog w1 @ out" "\<forall>c \<in> set out. harmless c"
    "ds_state_of w \<noteq> ST_DS_OPERATION_ENABLED \<longrightarrow> out = []" by (auto simp: w1(3))
  with w1 off mp_harmless show ?case
    by (intro exI [of _ w2] exI [of _ "mp_machine.step_out (mp_state_of w) e @ out"]) auto
qed simp

lemma tpdo1_run:
  "intf_on_tpdo 1 b w = bind_outcome (run_steps (map mch_ds_handle_event (status_ds_events (tpdo1_status b))) w)
     (run_steps (map mch_mp_handle_event (status_mp_events (tpdo1_status b) (byte2 b))))"
proof -
  have skip: "run_steps [when_step False f] = Inr" for f :: "'a sled_env_scheme action"
    by (rule ext) (simp add: when_step_def)
  show ?thesis
    by (simp add: intf_on_tpdo_def tpdo1_status_def run_steps_append Let_def bind_outcome_assoc skip)
qed

text \<open>
  What the library and the drive can have reached: the state of the drive machine, the requests that the
  drive has not yet processed, and the state of the drive.
\<close>

fun loop_ok :: "mch_ds_state_t \<Rightarrow> can_message_t list \<Rightarrow> drive \<Rightarrow> bool" where
  "loop_ok ST_DS_UNKNOWN cs d =
     (cs = [control_request 0x06] \<or> cs = [] \<and> (d = Ready_to_switch_on \<or> d = Drive_fault))"
| "loop_ok ST_DS_CLEARING_FAULT cs d =
     ((cs = [control_request 0x06, clear_request] \<or> cs = [clear_request]) \<and> d = Drive_fault
      \<or> cs = [] \<and> d = Switch_on_disabled)"
| "loop_ok ST_DS_PREPARE_SWITCH_ON cs d =
     ((cs = [control_request 0x06, control_request 0x06] \<or> cs = [control_request 0x06]) \<and> d = Switch_on_disabled
      \<or> (cs = [control_request 0x06] \<or> cs = []) \<and> d = Ready_to_switch_on)"
| "loop_ok ST_DS_SWITCH_ON cs d =
     ((cs = [control_request 0x06, control_request 0x07] \<or> cs = [control_request 0x07]) \<and> d = Ready_to_switch_on
      \<or> cs = [] \<and> d = Switched_on)"
| "loop_ok ST_DS_ENABLE_OPERATION cs d =
     (cs = [control_request 0x0F] \<and> d = Switched_on \<or> cs = [] \<and> d = Operation_enabled)"
| "loop_ok ST_DS_OPERATION_ENABLED cs d = (d = Operation_enabled \<and> (\<forall>c \<in> set cs. harmless c))"
| "loop_ok _ cs d = False"

text \<open>The number of reports with nothing left to process that are still needed.\<close>

fun distance :: "mch_ds_state_t \<Rightarrow> nat" where
  "distance ST_DS_CLEARING_FAULT = 4"
| "distance ST_DS_PREPARE_SWITCH_ON = 3"
| "distance ST_DS_SWITCH_ON = 2"
| "distance ST_DS_ENABLE_OPERATION = 1"
| "distance ST_DS_OPERATION_ENABLED = 0"
| "distance _ = 5"

lemma loop_process: "loop_ok s (c # cs) d \<Longrightarrow> loop_ok s cs (react d c)"
  by (cases s; cases d) (auto simp: harmless_def)

lemma loop_change:
  assumes "loop_ok s cs d" and "s1 = mch_ds_next_state_given_event s (drive_event d)"
    and "s2 = mch_ds_next_state_given_event s1 EV_DS_VOLTAGE_ENABLED"
  shows "loop_ok s2 (cs @ change_out s s1 @ change_out s1 s2) d"
    and "s = ST_DS_OPERATION_ENABLED \<longrightarrow> s1 = s" and "s1 = ST_DS_OPERATION_ENABLED \<longrightarrow> s2 = s1"
    and "distance s2 \<le> distance s" and "cs = [] \<Longrightarrow> distance s2 \<le> distance s - 1"
  using assms
  by (cases s; cases d; auto simp: ds_next_def c_not_def change_out_def harmless_def)+

lemma loop_report:
  assumes "ds_inv w" and "loop_ok (ds_state_of w) (drop p (sdo_backlog w)) d" and "p \<le> length (sdo_backlog w)"
    and "reports d (tpdo1_status b)"
  shows "\<exists>w'. intf_on_tpdo 1 b w = Inr w' \<and> ds_inv w' \<and> loop_ok (ds_state_of w') (drop p (sdo_backlog w')) d
    \<and> p \<le> length (sdo_backlog w') \<and> distance (ds_state_of w') \<le> distance (ds_state_of w)
    \<and> (p = length (sdo_backlog w) \<longrightarrow> distance (ds_state_of w') \<le> distance (ds_state_of w) - 1)"
proof -
  define s where "s = ds_state_of w"
  define s1 where "s1 = mch_ds_next_state_given_event s (drive_event d)"
  define s2 where "s2 = mch_ds_next_state_given_event s1 EV_DS_VOLTAGE_ENABLED"
  note ok = loop_change [OF assms(2) [folded s_def] s1_def s2_def]
  from ds_event_out [OF assms(1) s_def s1_def ok(2)] obtain w1 where
    w1: "mch_ds_handle_event (drive_event d) w = Inr w1" "ds_inv w1" "ds_state_of w1 = s1"
      "sdo_backlog w1 = sdo_backlog w @ change_out s s1" .
  from ds_event_out [OF w1(2) w1(3) [symmetric] s2_def ok(3)] obtain w2 where
    w2: "mch_ds_handle_event EV_DS_VOLTAGE_ENABLED w1 = Inr w2" "ds_inv w2" "ds_state_of w2 = s2"
      "sdo_backlog w2 = sdo_backlog w1 @ change_out s1 s2" .
  have "\<forall>e \<in> set (status_mp_events (tpdo1_status b) (byte2 b)). e \<noteq> EV_MP_DS_OPERATIONAL \<and> e \<noteq> EV_MP_DS_INOPERATIONAL"
    by (auto simp: status_mp_events_def)
  from mp_events_out [OF w2(2) this] obtain w' out where
    w': "run_steps (map mch_mp_handle_event (status_mp_events (tpdo1_status b) (byte2 b))) w2 = Inr w'" "ds_inv w'"
      "ds_state_of w' = s2" "sdo_backlog w' = sdo_backlog w2 @ out" "\<forall>c \<in> set out. harmless c"
      "s2 \<noteq> ST_DS_OPERATION_ENABLED \<longrightarrow> out = []" by (auto simp: w2(3))
  have "intf_on_tpdo 1 b w = Inr w'"
    unfolding tpdo1_run report_events [OF assms(4)] using w1(1) w2(1) w'(1) by simp
  moreover have "drop p (sdo_backlog w') = (drop p (sdo_backlog w) @ change_out s s1 @ change_out s1 s2) @ out"
    using assms(3) by (simp add: w'(4) w2(4) w1(4))
  moreover have "loop_ok s2 ((drop p (sdo_backlog w) @ change_out s s1 @ change_out s1 s2) @ out) d"
    using ok(1) w'(5,6) by (cases "s2 = ST_DS_OPERATION_ENABLED") auto
  ultimately show ?thesis using w' ok(4,5) assms(3) by (auto simp: s_def w2(4) w1(4))
qed

lemma loop_run:
  assumes "drive_run c n c'" and "c = (w0, p0, d0)" and "ds_inv w0" and "p0 \<le> length (sdo_backlog w0)"
    and "loop_ok (ds_state_of w0) (drop p0 (sdo_backlog w0)) d0"
  shows "case c' of (w, p, d) \<Rightarrow> ds_inv w \<and> p \<le> length (sdo_backlog w)
    \<and> loop_ok (ds_state_of w) (drop p (sdo_backlog w)) d
    \<and> distance (ds_state_of w) \<le> distance (ds_state_of w0) - n"
  using assms(1)
proof induction
  case run_start
  with assms(2-5) show ?case by simp
next
  case (run_process n w p d)
  then have "drop p (sdo_backlog w) = sdo_backlog w ! p # drop (Suc p) (sdo_backlog w)"
    by (simp add: Cons_nth_drop_Suc)
  with run_process loop_process show ?case by (simp add: Suc_leI)
next
  case (run_report n w p d b w')
  then have "ds_inv w" "loop_ok (ds_state_of w) (drop p (sdo_backlog w)) d" "p \<le> length (sdo_backlog w)"
    "distance (ds_state_of w) \<le> distance (ds_state_of w0) - n" by simp_all
  with loop_report [of w p d b] run_report(2,3) show ?case by fastforce
qed

text \<open>Runs with any number of such reports exist.\<close>

lemma run_catches_up:
  assumes "drive_run c n (w, p, d)" and "p \<le> length (sdo_backlog w)"
  shows "\<exists>d'. drive_run c n (w, length (sdo_backlog w), d')"
  using assms(2,1)
proof (induction arbitrary: d rule: inc_induct)
  case (step p)
  from step.IH [OF run_process [OF step.prems step.hyps(2)]] show ?case .
qed blast

fun status_frame :: "drive \<Rightarrow> bytes8" where
  "status_frame Drive_fault = Bytes8 0x18 0 0 0 0 0 0 0"
| "status_frame Switch_on_disabled = Bytes8 0x50 0 0 0 0 0 0 0"
| "status_frame Ready_to_switch_on = Bytes8 0x31 0 0 0 0 0 0 0"
| "status_frame Switched_on = Bytes8 0x33 0 0 0 0 0 0 0"
| "status_frame Operation_enabled = Bytes8 0x37 0 0 0 0 0 0 0"

lemma status_frame_reports: "reports d (tpdo1_status (status_frame d))"
  by (cases d) (simp_all add: tpdo1_status_def)

lemma runs_exist:
  assumes "ds_inv w0" and "p0 \<le> length (sdo_backlog w0)"
    and "loop_ok (ds_state_of w0) (drop p0 (sdo_backlog w0)) d0"
  shows "\<exists>c'. drive_run (w0, p0, d0) n c'"
proof (induction n)
  case 0
  show ?case by (rule exI) (rule run_start)
next
  case (Suc n)
  then obtain w p d where "drive_run (w0, p0, d0) n (w, p, d)" by (metis prod_cases3)
  moreover from loop_run [OF this refl assms] have "p \<le> length (sdo_backlog w)" by simp
  ultimately obtain d' where r: "drive_run (w0, p0, d0) n (w, length (sdo_backlog w), d')"
    using run_catches_up by blast
  from loop_run [OF this refl assms] have "ds_inv w" "loop_ok (ds_state_of w) (drop (length (sdo_backlog w)) (sdo_backlog w)) d'"
    by simp_all
  from loop_report [OF this order_refl status_frame_reports] obtain w' where
    "intf_on_tpdo 1 (status_frame d') w = Inr w'" by blast
  from run_report [OF r status_frame_reports this] show ?case by auto
qed

section \<open>The drive is enabled\<close>



end
