(* ===== verification/Spec2Isabelle.thy ===== *)
theory Spec2Isabelle
  imports Main_Program Drive_Loop
begin

text \<open>
  The sled server: a process that moves a linear sled, driven by an S700 drive on a CAN bus, on the
  request of clients that speak the RTC3D protocol over TCP. This development models the C++ program and
  proves what makes it correct, and where it is not.

  \<^bold>\<open>The program and its parts.\<close> \<^verbatim>\<open>src/main.cc\<close> prepares the process and creates the command server,
  \<^verbatim>\<open>src/server.cc\<close>. That owns the parser of the commands (\<^verbatim>\<open>src/scanner.lex\<close>, \<^verbatim>\<open>src/parser.yac\<close>), the RTC3D server
  (\<^verbatim>\<open>librtc3d/rtc3d.cc\<close>, \<^verbatim>\<open>rtc3d_dataframe.cc\<close>), which sits on a TCP server (\<^verbatim>\<open>librtc3d/server.cc\<close>), and the sled library
  (\<^verbatim>\<open>libsled\<close>). The library reads and writes CAN frames (\<^verbatim>\<open>interface.cc\<close>) and keeps five state machines
  (\<^verbatim>\<open>machines/\<close>): the interface is open, the node is operational, SDO transfers are queued, the drive is
  enabled, the motion is homed. On top of them are motion profiles (\<^verbatim>\<open>sled_profile.cc\<close>) and the functions the server
  calls (\<^verbatim>\<open>sled.cc\<close>). Everything runs in one thread, in the callbacks of libevent.

  \<^bold>\<open>How it is modelled.\<close> Every function is a function on the state, a record that grows from component to
  component: \<open>io_env\<close>, \<open>sdo_env\<close>, \<open>mp_env\<close>, \<open>ds_env\<close>, \<open>profile_env\<close>, \<open>net_env\<close>, \<open>intf_env\<close>, \<open>sled_env\<close> for the
  library, and \<open>tcp_env\<close>, \<open>rtc3d_env\<close>, \<open>server_env\<close> for the server, which has the library's state in a field.
  Functions are polymorphic in the fields that come later, so that a component's lemmas hold in
  the whole program. A result is an \<open>outcome\<close> (\<open>Prelude\<close>): the new state, or the reason for which the process
  ends or leaves the language, so that \<^verbatim>\<open>exit\<close>, \<^verbatim>\<open>assert\<close>, indeterminate reads, accesses out of bounds, uses of freed or
  null pointers and values out of range are branches of the model. Integers have their width
  wherever bits, wrap-around or truncation matter; a \<^verbatim>\<open>double\<close> is a rational, rounded to binary64 in every operation
  (\<open>Doubles\<close>). Connections are objects in stores indexed by addresses, because clients come and go
  while lists hold pointers to them. The CAN driver, sockets, \<^verbatim>\<open>malloc\<close>, the clock, the operating system and libevent
  are parameters: functions from the number of the call to its answer.

  \<^bold>\<open>The theories.\<close>
  \<^item> \<open>Prelude\<close>: outcomes, sequences of steps, the calculus of invariants, and the locales of the state
    machines (\<open>event_machine\<close>, \<open>guarded_machine\<close>, \<open>output_machine\<close>) that \<^verbatim>\<open>machine_body.h\<close> generates code for.
  \<^item> \<open>Can_Interface\<close>: \<^verbatim>\<open>interface.cc\<close>; frames in both directions, dispatch, opening and closing.
  \<^item> \<open>Mch_Sdo\<close>: the queue of SDO requests; no request is lost, doubled or overtaken, and the queue drains.
    Its contract for the other machines is the locale \<open>request_queue\<close>.
  \<^item> \<open>Mch_Mp\<close>, \<open>Mch_Ds\<close>, \<open>Mch_Net\<close>, \<open>Mch_Intf\<close>: the motion, drive, network and interface machine with the
    callbacks that tie them together; the machines stay in lockstep, motion only after homing, the
    24 writes of the configuration. The interface machine and \<^verbatim>\<open>intf_open\<close>
    call each other; the recursion terminates.
  \<^item> \<open>Plant_Frame\<close>: what the machines leave alone, as a locale, interpreted for the CAN port and for the table.
  \<^item> \<open>Profiles\<close>, \<open>Profile_Sync\<close>, \<open>Profile_Props\<close>: the table of profiles and its upload; the motion tasks of the drive
    agree with the table, except in three schedules that are shown; accuracy of the conversions; what a link out of
    the table does.
  \<^item> \<open>Sled\<close>, \<open>Sled_Inv\<close>, \<open>Sled_Props\<close>: \<^verbatim>\<open>sled.cc\<close>, the invariant \<open>sys_inv\<close> of the library, kept by every entry into it,
    the watchdog, the reported position.
  \<^item> \<open>Drive_Loop\<close>: library and drive as a closed loop, with an abstract drive that follows CiA 402; it gets enabled, whatever
    the order of requests and reports, also out of a fault.
  \<^item> \<open>Rtc3d_Frame\<close>, \<open>Net_Server\<close>, \<open>Rtc3d\<close>: packets, TCP server, protocol. What each layer needs of the one above
    is a locale, \<open>net_client\<close> and \<open>rtc3d_user\<close>; the second gives the first.
  \<^item> \<open>Rtc3d_Reader\<close>: an abstract reader of packets, the simulation of it by \<^verbatim>\<open>read_handler\<close>, and the contract
    \<open>command_client\<close> of the command handler.
  \<^item> \<open>Parser\<close>, \<open>Parser_Props\<close>, \<open>Number_Text\<close>: scanner and grammar; the parser accepts exactly the language of the grammar;
    how far the \<^verbatim>\<open>float\<close> of a number may be from the number in the text.
  \<^item> \<open>Server\<close>, \<open>Server_Inv\<close>: \<^verbatim>\<open>src/server.cc\<close> and the invariant \<open>server_inv\<close> of everything; here \<open>rtc3d_user\<close> and
    \<open>command_client\<close> are interpreted with the server's own handlers.
  \<^item> \<open>Rtc3d_Stream\<close>: the other end of a connection; well-formed packets, and the splitting of a stream by size fields.
  \<^item> \<open>Server_Props\<close>, \<open>Server_Replies\<close>: the server as a system that reacts to events; commands are
    delivered however the network cuts them and are answered once, with one of the answers of the command.
  \<^item> \<open>Server_Service\<close>: the abstract service, a step relation on the clients' partial packets, the list of those who get the
    stream and the frame number, with the bytes and timeouts as its input and the packets as its output; the server refines it.
  \<^item> \<open>Server_Limits\<close>: streaming; teardown; and what the server does not survive.
  \<^item> \<open>Server_Motion\<close>: all components together, from the text of a request to the motion task of the drive.
  \<^item> \<open>Main_Program\<close>: \<^verbatim>\<open>main.cc\<close>; rights and scheduling of the process that serves, and its end.

  \<^bold>\<open>What the theorems show.\<close> The main theorem is about the whole server: any sequence of events keeps its invariant
  or stops the process for a reason of the sled library, up to the first event that the server cannot handle. It rests on the same theorem for the library,
  and that on the lockstep of the machines. On top of it, the server refines an abstract service, in which no pointer or buffer is left
  and which says for every input exactly who gets which packets; with it, all output is well formed. And a
  request is followed through all components, from the pieces of two packets to the motion task that the drive runs. Around them are the way of a command from the socket to its answer
  (fragments, packets, language, replies), the way of a profile from the table to the motion tasks
  of the drive and its execution, the safety of motion (homing, watchdog) and the way of the drive to its enabled state, and the start, the stream and the
  end of the server; then formats, conversions and single operations. The last group shows
  schedules and inputs with which the program does not do what it means to: for each, the theorem states exactly
  what happens.

  \<^bold>\<open>Conditions.\<close> An event is \<open>admissible\<close> if the descriptor of a new connection is
  not in use, libevent grants a write buffer with every read event and reports only registered descriptors, \<^verbatim>\<open>read\<close> returns no more than asked
  for, and the data of the client completes only packets with between 4 and 255 bytes after the size field and no
  command \<^verbatim>\<open>bye\<close>. The main theorem has no such condition: it states what holds up to the first event that is not
  admissible. The runs (\<open>server_run\<close>) of the theorems about the service, the output and the end of the program consist of admissible
  events. That the write buffer, the sizes and the absence of \<^verbatim>\<open>bye\<close> matter is shown in
  \<open>Rtc3d_Reader\<close> and \<open>Server_Limits\<close>. Memory for new connections is taken to be available. The theorem about the library
  excepts calls of \<^verbatim>\<open>sled_profile_set_next\<close> with a successor outside the table, which \<open>Profile_Props\<close> shows to read out of bounds;
  the server makes no such call. The drive is specified twice, by what the sources say of it: as a memory of motion tasks (\<open>Profile_Sync\<close>)
  and as a state machine (\<open>Drive_Loop\<close>). No function has fuel: all recursion is structural or has a measure, but
  for the loop of \<^verbatim>\<open>net_teardown_server\<close>, which is \<open>None\<close> when it does not end; it ends from every state
  of the invariant.

  \<^bold>\<open>Not modelled.\<close> Texts written to the system log, and output to \<^verbatim>\<open>stdout\<close> and \<^verbatim>\<open>stderr\<close> other than in the main program;
  socket options; the code for Windows and for \<^verbatim>\<open>DIRTY_SINUSOID\<close>; \<^verbatim>\<open>new\<close> that throws; functions that only free
  memory at the end (\<^verbatim>\<open>intf_destroy\<close>, \<^verbatim>\<open>sled_destroy\<close>, \<^verbatim>\<open>parser_destroy\<close>). The tables that flex and bison generate are
  replaced by a scanner and a parser for the rules in the sources. The program of the drive's own controller
  (\<^verbatim>\<open>libsled/plc\<close>), the scripts under \<^verbatim>\<open>tools\<close> and the tests are not part of the server.
\<close>

end
